(* ===== verification/Prelude.thy ===== *)
theory Prelude
  imports Main "HOL-Library.Word" "HOL-Library.Sublist"
begin

text \<open>
  The Go side of the model: machine integers, results with an error value,
  nil-safe field access of generated messages, and the parts of the packages
  \<^verbatim>\<open>strings\<close>, \<^verbatim>\<open>strconv\<close> and \<^verbatim>\<open>fmt\<close> that the components use.  A Go string is a
  byte sequence; the HOL type \<^typ>\<open>string\<close> (lists of 8-bit characters) is exactly
  that.  The named collections below carry the rewriting the component theories
  share: \<^verbatim>\<open>go_simps\<close> (language and library), \<^verbatim>\<open>seq_arith\<close> (sequence numbers
  without wrap-around).
\<close>

named_theorems go_simps
named_theorems seq_arith

section \<open>Types\<close>

type_synonym u64 = "64 word"
type_synonym u32 = "32 word"
type_synonym i64 = "64 word"
type_synonym i32 = "32 word"
type_synonym bytes = string
type_synonym error = string
type_synonym 'a result = "error + 'a"
type_synonym labels = "string \<Rightarrow> string option"
type_synonym duration = int
type_synonym gotime = int

text \<open>Times and durations are nanosecond counts, as in package \<^verbatim>\<open>time\<close>.\<close>

abbreviation Second :: duration where "Second \<equiv> 1000000000"

section \<open>Nil-safe getters\<close>

text \<open>
  A generated getter \<^verbatim>\<open>m.GetX()\<close> returns the field, or the zero value of its type
  when \<^verbatim>\<open>m\<close> is a nil pointer.  A message pointer is an option; \<^verbatim>\<open>getf f z m\<close> is the
  getter of the field \<^verbatim>\<open>f\<close> whose zero value is \<^verbatim>\<open>z\<close>.
\<close>

definition getf :: "('m \<Rightarrow> 'v) \<Rightarrow> 'v \<Rightarrow> 'm option \<Rightarrow> 'v" where
  "getf f z m = (case m of None \<Rightarrow> z | Some x \<Rightarrow> f x)"

abbreviation getS :: "('m \<Rightarrow> 'a list) \<Rightarrow> 'm option \<Rightarrow> 'a list" where
  "getS f m \<equiv> getf f [] m"

abbreviation getP :: "('m \<Rightarrow> 'v option) \<Rightarrow> 'm option \<Rightarrow> 'v option" where
  "getP f m \<equiv> getf f None m"

abbreviation getN :: "('m \<Rightarrow> 'v::zero) \<Rightarrow> 'm option \<Rightarrow> 'v" where
  "getN f m \<equiv> getf f 0 m"

abbreviation getM :: "('m \<Rightarrow> labels) \<Rightarrow> 'm option \<Rightarrow> labels" where
  "getM f m \<equiv> getf f Map.empty m"

lemma getf_simps [simp, go_simps]:
  "getf f z None = z"
  "getf f z (Some x) = f x"
  by (simp_all add: getf_def)

section \<open>Strings\<close>

text \<open>The UTF-8 encodings of the characters for which \<^verbatim>\<open>unicode.IsSpace\<close> holds.\<close>

definition ascii_space :: "char \<Rightarrow> bool" where
  "ascii_space c = (c \<in> {CHR 0x09, CHR 0x0A, CHR 0x0B, CHR 0x0C, CHR 0x0D, CHR 0x20})"

definition wide_spaces :: "string list" where
  "wide_spaces = [
     [CHR 0xC2, CHR 0x85], [CHR 0xC2, CHR 0xA0], [CHR 0xE1, CHR 0x9A, CHR 0x80],
     [CHR 0xE2, CHR 0x80, CHR 0x80], [CHR 0xE2, CHR 0x80, CHR 0x81], [CHR 0xE2, CHR 0x80, CHR 0x82],
     [CHR 0xE2, CHR 0x80, CHR 0x83], [CHR 0xE2, CHR 0x80, CHR 0x84], [CHR 0xE2, CHR 0x80, CHR 0x85],
     [CHR 0xE2, CHR 0x80, CHR 0x86], [CHR 0xE2, CHR 0x80, CHR 0x87], [CHR 0xE2, CHR 0x80, CHR 0x88],
     [CHR 0xE2, CHR 0x80, CHR 0x89], [CHR 0xE2, CHR 0x80, CHR 0x8A], [CHR 0xE2, CHR 0x80, CHR 0xA8],
     [CHR 0xE2, CHR 0x80, CHR 0xA9], [CHR 0xE2, CHR 0x80, CHR 0xAF], [CHR 0xE2, CHR 0x81, CHR 0x9F],
     [CHR 0xE3, CHR 0x80, CHR 0x80]]"

text \<open>\<^verbatim>\<open>space_width ws s\<close> is the width of the white space character \<^verbatim>\<open>s\<close> begins
  with, where \<^verbatim>\<open>ws\<close> lists the multi-byte ones; zero if there is none.\<close>

fun space_width :: "string list \<Rightarrow> string \<Rightarrow> nat" where
  "space_width ws [] = 0"
| "space_width ws (c # s) =
     (if ascii_space c then 1
      else case find (\<lambda>w. prefix w (c # s)) ws of None \<Rightarrow> 0 | Some w \<Rightarrow> length w)"

function trim_front :: "string list \<Rightarrow> string \<Rightarrow> string" where
  "trim_front ws s =
     (if s = [] \<or> space_width ws s = 0 then s else trim_front ws (drop (space_width ws s) s))"
  by pat_completeness auto
termination
  by (relation "measure (length \<circ> snd)") auto

declare trim_front.simps [simp del]

definition TrimSpace :: "string \<Rightarrow> string" where
  "TrimSpace s = rev (trim_front (map rev wide_spaces) (rev (trim_front wide_spaces s)))"

fun Split1 :: "char \<Rightarrow> string \<Rightarrow> string list" where
  "Split1 sep [] = [[]]"
| "Split1 sep (c # s) =
     (if c = sep then [] # Split1 sep s
      else case Split1 sep s of [] \<Rightarrow> [[c]] | p # ps \<Rightarrow> (c # p) # ps)"

definition Trim1 :: "char \<Rightarrow> string \<Rightarrow> string" where
  "Trim1 c s = rev (dropWhile (\<lambda>x. x = c) (rev (dropWhile (\<lambda>x. x = c) s)))"

fun Join :: "string list \<Rightarrow> string \<Rightarrow> string" where
  "Join [] sep = []"
| "Join [p] sep = p"
| "Join (p # q # ps) sep = p @ sep @ Join (q # ps) sep"

fun Contains :: "string \<Rightarrow> string \<Rightarrow> bool" where
  "Contains [] sub = (sub = [])"
| "Contains (c # s) sub = (prefix sub (c # s) \<or> Contains s sub)"

text \<open>Decimal rendering, as \<^verbatim>\<open>%d\<close> of \<^verbatim>\<open>fmt\<close> prints an unsigned integer.\<close>

definition digit :: "nat \<Rightarrow> char" where
  "digit d = char_of (48 + d)"

fun itoa :: "nat \<Rightarrow> string" where
  "itoa n = (if n < 10 then [digit n] else itoa (n div 10) @ [digit (n mod 10)])"

declare itoa.simps [simp del]

definition atoi :: "string \<Rightarrow> nat" where
  "atoi s = foldl (\<lambda>a c. 10 * a + (of_char c - 48)) 0 s"

section \<open>Lemmas on strings\<close>

lemma trim_front_suffix: "suffix (trim_front ws s) s"
proof (induction ws s rule: trim_front.induct)
  case (1 ws s)
  show ?case
  proof (cases "s = [] \<or> space_width ws s = 0")
    case True
    then show ?thesis by (subst trim_front.simps) simp
  next
    case False
    then have "suffix (trim_front ws (drop (space_width ws s) s)) (drop (space_width ws s) s)"
      using 1 by simp
    moreover have "trim_front ws s = trim_front ws (drop (space_width ws s) s)"
      using False by (subst trim_front.simps) simp
    ultimately show ?thesis
      using suffix_drop suffix_order.trans by metis
  qed
qed

lemma trim_front_stop: "s = [] \<or> space_width ws s = 0 \<Longrightarrow> trim_front ws s = s"
  by (subst trim_front.simps) simp

lemma trim_front_step:
  "s \<noteq> [] \<Longrightarrow> space_width ws s \<noteq> 0 \<Longrightarrow> trim_front ws s = trim_front ws (drop (space_width ws s) s)"
  by (subst trim_front.simps) simp

lemma trim_front_idem [simp]: "trim_front ws (trim_front ws s) = trim_front ws s"
proof (induction ws s rule: trim_front.induct)
  case (1 ws s)
  then show ?case
    by (cases "s = [] \<or> space_width ws s = 0") (simp_all add: trim_front_stop trim_front_step)
qed

lemma trim_front_Nil [simp]: "trim_front ws [] = []"
  by (simp add: trim_front_stop)

lemma TrimSpace_Nil [simp]: "TrimSpace [] = []"
  by (simp add: TrimSpace_def)

lemma TrimSpace_set: "set (TrimSpace s) \<subseteq> set s"
  using set_mono_suffix [OF trim_front_suffix, of wide_spaces s]
    set_mono_suffix [OF trim_front_suffix, of "map rev wide_spaces" "rev (trim_front wide_spaces s)"]
  by (auto simp: TrimSpace_def)

text \<open>A string that begins and ends with a printable ASCII character is left alone.\<close>

definition printable :: "char \<Rightarrow> bool" where
  "printable c = (\<not> ascii_space c \<and> c \<notin> set (concat wide_spaces))"

lemma space_width_printable:
  "\<forall>w \<in> set ws. w \<noteq> [] \<and> set w \<subseteq> set (concat wide_spaces) \<Longrightarrow> s \<noteq> [] \<Longrightarrow> printable (hd s) \<Longrightarrow> space_width ws s = 0"
proof (cases s)
  case (Cons c t)
  assume *: "\<forall>w \<in> set ws. w \<noteq> [] \<and> set w \<subseteq> set (concat wide_spaces)" "printable (hd s)"
  have "find (\<lambda>w. prefix w (c # t)) ws = None"
    using * Cons by (auto simp: find_None_iff printable_def prefix_Cons)
  with * Cons show ?thesis by (simp add: printable_def)
qed simp

lemma TrimSpace_printable:
  assumes "s \<noteq> []" "printable (hd s)" "printable (last s)"
  shows "TrimSpace s = s"
proof -
  have ws: "\<forall>w \<in> set wide_spaces. w \<noteq> [] \<and> set w \<subseteq> set (concat wide_spaces)"
    "\<forall>w \<in> set (map rev wide_spaces). w \<noteq> [] \<and> set w \<subseteq> set (concat wide_spaces)"
    by (auto simp: wide_spaces_def)
  show ?thesis
    using assms space_width_printable [OF ws(1)] space_width_printable [OF ws(2), of "rev s"]
    by (simp add: TrimSpace_def trim_front_stop hd_rev)
qed

lemma TrimSpace_nonempty_imp: "TrimSpace s \<noteq> [] \<Longrightarrow> s \<noteq> []"
  by auto

lemma of_char_digit [simp]: "d < 10 \<Longrightarrow> (of_char (digit d) :: nat) = 48 + d"
  by (simp add: digit_def of_char_of take_bit_nat_eq_self)

lemma itoa_nonempty [simp]: "itoa n \<noteq> []"
  by (subst itoa.simps) simp

lemma atoi_snoc: "atoi (s @ [c]) = 10 * atoi s + (of_char c - 48)"
  by (simp add: atoi_def)

lemma atoi_itoa [simp]: "atoi (itoa n) = n"
proof (induction n rule: itoa.induct)
  case (1 n)
  show ?case
  proof (cases "n < 10")
    case True
    then show ?thesis by (simp add: itoa.simps atoi_def)
  next
    case False
    then have "itoa n = itoa (n div 10) @ [digit (n mod 10)]" by (simp add: itoa.simps)
    then show ?thesis using 1 False by (simp add: atoi_snoc)
  qed
qed

lemma itoa_inject [simp]: "itoa m = itoa n \<longleftrightarrow> m = n"
  using atoi_itoa by metis

lemma itoa_digits: "set (itoa n) \<subseteq> digit ` {..< 10}"
proof (induction n rule: itoa.induct)
  case (1 n)
  then show ?case
    by (cases "n < 10") (simp_all add: itoa.simps [of n])
qed

lemma itoa_not_member: "c \<notin> digit ` {..< 10} \<Longrightarrow> c \<notin> set (itoa n)"
  using itoa_digits by blast

lemma Contains_set: "Contains s sub \<Longrightarrow> set sub \<subseteq> set s"
proof (induction s)
  case (Cons c s)
  then show ?case using set_mono_prefix by fastforce
qed simp

lemma Contains_append_right: "Contains s sub \<Longrightarrow> Contains (t @ s) sub"
  by (induction t) auto

lemma Contains_prefix: "prefix sub s \<Longrightarrow> Contains s sub"
  by (cases s) auto

lemma Split1_nonempty [simp]: "Split1 c s \<noteq> []"
  by (induction s) (auto split: list.splits)

lemma Split1_no_sep: "p \<in> set (Split1 c s) \<Longrightarrow> c \<notin> set p"
proof (induction s arbitrary: p)
  case (Cons a s)
  then show ?case by (cases "Split1 c s") (auto split: if_splits)
qed simp

lemma Join_Split1: "Join (Split1 c s) [c] = s"
proof (induction s)
  case (Cons a s)
  obtain p ps where "Split1 c s = p # ps" by (cases "Split1 c s") auto
  with Cons show ?case by (cases ps) auto
qed simp

section \<open>Lemmas on sequence numbers\<close>

text \<open>Sequence numbers are \<^typ>\<open>u64\<close>; ranges that do not wrap behave as on \<^typ>\<open>nat\<close>.\<close>

lemma unat_Suc_less [seq_arith]:
  fixes a b :: u64 assumes "a < b" shows "unat (a + 1) = unat a + 1"
proof -
  have "unat a + 1 < 2 ^ 64"
    using assms unsigned_less [of b, where ?'a = nat] by (simp add: word_less_nat_alt)
  then show ?thesis by (simp add: unat_word_ariths)
qed

lemma unat_diff_le [seq_arith]:
  fixes a b :: u64 shows "a \<le> b \<Longrightarrow> unat (b - a) = unat b - unat a"
  by (rule unat_sub)

lemma unat_add_of_nat [seq_arith]:
  fixes a :: u64 assumes "unat a + n < 2 ^ 64" shows "unat (a + of_nat n) = unat a + n"
  using assms by (simp add: unat_word_ariths unat_of_nat)

lemma u64_positive [seq_arith]: fixes a :: u64 shows "a \<noteq> 0 \<longleftrightarrow> 0 < unat a"
  by (simp add: word_neq_0_conv word_less_nat_alt)

text \<open>A signed reading that is not negative is the unsigned one.\<close>

lemma sint_nonneg_uint: "0 \<le> sint (v :: 'a::len word) \<Longrightarrow> uint v = sint v"
proof -
  assume *: "0 \<le> sint v"
  have "sint v < 2 ^ (LENGTH('a) - 1)" using sint_less [of v] by simp
  also have "(2 :: int) ^ (LENGTH('a) - 1) \<le> 2 ^ LENGTH('a)" by (rule power_increasing) simp_all
  finally show ?thesis using * by (simp add: uint_sint take_bit_int_eq_self)
qed

lemma sint_nonneg_unat: "0 \<le> sint (v :: 'a::len word) \<Longrightarrow> unat v = nat (sint v)"
  by (metis sint_nonneg_uint nat_uint_eq)

end
