(* ===== verification/Agent_Proto.thy ===== *)
theory Agent_Proto
  imports Prelude
begin

text \<open>
  The messages of \<^verbatim>\<open>cost.v1.agent\<close> (\<^verbatim>\<open>proto/cost/v1/agent/*.proto\<close>).  A message is
  a record, a pointer to one an option, a oneof a datatype, and an enum, which
  is open in proto3, a datatype with a constructor for the other numbers.  A nil
  map reads as an empty one and is the empty map here.  The payloads no source
  file builds or reads (GPU metrics and the two event kinds) are kept as their
  wire bytes.
\<close>

section \<open>Common values\<close>

record timestamp =
  ts_seconds :: int
  ts_nanos :: int

text \<open>\<^verbatim>\<open>(*timestamppb.Timestamp).IsValid\<close>: years 1 to 9999 and nanoseconds in range.\<close>

definition timestamp_IsValid :: "timestamp \<Rightarrow> bool" where
  "timestamp_IsValid t =
     (- 62135596800 \<le> ts_seconds t \<and> ts_seconds t \<le> 253402300799
      \<and> 0 \<le> ts_nanos t \<and> ts_nanos t < 1000000000)"

definition timestamp_AsTime :: "timestamp \<Rightarrow> gotime" where
  "timestamp_AsTime t = ts_seconds t * Second + ts_nanos t"

definition timestamp_New :: "gotime \<Rightarrow> timestamp" where
  "timestamp_New t = \<lparr> ts_seconds = t div Second, ts_nanos = t mod Second \<rparr>"

record time_window =
  tw_start :: "timestamp option"
  tw_end :: "timestamp option"

type_synonym opaque_message = bytes

section \<open>Inventory messages\<close>

datatype inventory_operation =
  OPERATION_UNSPECIFIED | UPSERT | DELETE | OPERATION_OTHER int

record inventory_record =
  ir_operation :: inventory_operation
  ir_snapshot_id :: string
  ir_snapshot_record :: bool

datatype snapshot_phase =
  PHASE_UNSPECIFIED | STARTED | COMPLETED | ABORTED | PHASE_OTHER int

record inventory_snapshot_marker =
  sm_snapshot_id :: string
  sm_phase :: snapshot_phase
  sm_resource_kinds :: "string list"
  sm_record_count :: u64
  sm_started_at :: "timestamp option"
  sm_completed_at :: "timestamp option"
  sm_detail :: string

record object_reference =
  or_api_version :: string
  or_kind :: string
  or_namespace :: string
  or_name :: string
  or_uid :: string

record object_metadata =
  om_uid :: string
  om_name :: string
  om_namespace :: string
  om_labels :: labels
  om_annotations :: labels
  om_created_at :: "timestamp option"
  om_deleted_at :: "timestamp option"
  om_owner_references :: "object_reference list"

text \<open>The scalar fields are \<^verbatim>\<open>optional\<close>: a getter returns zero where one is unset.\<close>

record resource_values =
  rv_cpu_millicores :: "i64 option"
  rv_memory_bytes :: "i64 option"
  rv_ephemeral_storage_bytes :: "i64 option"
  rv_gpu_count :: "i64 option"
  rv_extended_resources :: labels

definition optN :: "('m \<Rightarrow> 'v::zero option) \<Rightarrow> 'm option \<Rightarrow> 'v" where
  "optN f m = (case getP f m of None \<Rightarrow> 0 | Some v \<Rightarrow> v)"

record cluster_inventory =
  ci_record :: "inventory_record option"
  ci_cluster_uid :: string
  ci_name :: string
  ci_kubernetes_version :: string
  ci_provider :: string
  ci_region :: string
  ci_account_id :: string
  ci_labels :: labels

record node_inventory =
  ni_record :: "inventory_record option"
  ni_metadata :: "object_metadata option"
  ni_provider_id :: string
  ni_instance_type :: string
  ni_architecture :: string
  ni_operating_system :: string
  ni_region :: string
  ni_zone :: string
  ni_capacity_type :: string
  ni_capacity :: "resource_values option"
  ni_allocatable :: "resource_values option"
  ni_schedulable :: bool
  ni_taints :: "string list"
  ni_karpenter_node_claim_uid :: string
  ni_karpenter_node_pool :: string

record namespace_inventory =
  nsi_record :: "inventory_record option"
  nsi_metadata :: "object_metadata option"
  nsi_phase :: string

record deployment_inventory =
  di_record :: "inventory_record option"
  di_metadata :: "object_metadata option"
  di_desired_replicas :: i32
  di_available_replicas :: i32
  di_selector :: string
  di_strategy :: string
  di_namespace_uid :: string

record pod_inventory =
  pi_record :: "inventory_record option"
  pi_metadata :: "object_metadata option"
  pi_node_name :: string
  pi_node_uid :: string
  pi_phase :: string
  pi_qos_class :: string
  pi_service_account_name :: string
  pi_priority_class_name :: string
  pi_workload_kind :: string
  pi_workload_uid :: string
  pi_scheduled_at :: "timestamp option"
  pi_started_at :: "timestamp option"
  pi_namespace_uid :: string

record container_inventory =
  coi_record :: "inventory_record option"
  coi_pod_uid :: string
  coi_namespace :: string
  coi_pod_name :: string
  coi_container_name :: string
  coi_container_id :: string
  coi_image :: string
  coi_image_id :: string
  coi_requests :: "resource_values option"
  coi_limits :: "resource_values option"
  coi_restart_count :: i32
  coi_init_container :: bool
  coi_started_at :: "timestamp option"
  coi_finished_at :: "timestamp option"
  coi_namespace_uid :: string
  coi_workload_kind :: string
  coi_workload_uid :: string

section \<open>Metric messages\<close>

datatype metric_quality =
  QUALITY_UNSPECIFIED | QUALITY_COMPLETE | QUALITY_PARTIAL | QUALITY_ESTIMATED
| QUALITY_RESET_DETECTED | QUALITY_OTHER int

record node_metrics =
  nm_node_uid :: string
  nm_node_name :: string
  nm_window :: "time_window option"
  nm_cpu_usage_core_nanoseconds :: "i64 option"
  nm_memory_working_set_byte_seconds :: "i64 option"
  nm_memory_rss_byte_seconds :: "i64 option"
  nm_network_receive_bytes :: "u64 option"
  nm_network_transmit_bytes :: "u64 option"
  nm_filesystem_used_byte_seconds :: "i64 option"
  nm_quality :: metric_quality

record container_metrics =
  cm_pod_uid :: string
  cm_namespace :: string
  cm_pod_name :: string
  cm_container_name :: string
  cm_container_id :: string
  cm_window :: "time_window option"
  cm_cpu_usage_core_nanoseconds :: "i64 option"
  cm_cpu_throttled_nanoseconds :: "i64 option"
  cm_memory_working_set_byte_seconds :: "i64 option"
  cm_memory_rss_byte_seconds :: "i64 option"
  cm_network_receive_bytes :: "u64 option"
  cm_network_transmit_bytes :: "u64 option"
  cm_filesystem_used_byte_seconds :: "i64 option"
  cm_oom_kill_count :: "u64 option"
  cm_quality :: metric_quality
  cm_cpu_request_core_nanoseconds :: "i64 option"
  cm_cpu_limit_core_nanoseconds :: "i64 option"
  cm_memory_request_byte_seconds :: "i64 option"
  cm_memory_limit_byte_seconds :: "i64 option"

section \<open>Observations and batches\<close>

datatype payload =
  ClusterInventory "cluster_inventory option"
| NodeInventory "node_inventory option"
| NamespaceInventory "namespace_inventory option"
| DeploymentInventory "deployment_inventory option"
| PodInventory "pod_inventory option"
| ContainerInventory "container_inventory option"
| NodeMetrics "node_metrics option"
| ContainerMetrics "container_metrics option"
| GpuMetrics opaque_message
| KubernetesEvent opaque_message
| KarpenterEvent opaque_message
| InventorySnapshotMarker "inventory_snapshot_marker option"

record observation =
  ob_sequence :: u64
  ob_event_id :: string
  ob_observed_at :: "timestamp option"
  ob_collected_at :: "timestamp option"
  ob_source_resource_version :: string
  ob_payload :: "payload option"

record observation_batch =
  bt_batch_id :: string
  bt_first_sequence :: u64
  bt_last_sequence :: u64
  bt_created_at :: "timestamp option"
  bt_payload_checksum :: bytes
  bt_observations :: "observation option list"

section \<open>Stream frames\<close>

record protocol_version =
  pv_major :: u32
  pv_minor :: u32

datatype capability =
  CAPABILITY_CLUSTER_INVENTORY | CAPABILITY_NODE_INVENTORY | CAPABILITY_NAMESPACE_INVENTORY
| CAPABILITY_DEPLOYMENT_INVENTORY | CAPABILITY_POD_INVENTORY | CAPABILITY_CONTAINER_INVENTORY
| CAPABILITY_NODE_METRICS | CAPABILITY_CONTAINER_METRICS | CAPABILITY_OTHER int

record agent_hello =
  ah_tenant_id :: string
  ah_cluster_id :: string
  ah_agent_instance_id :: string
  ah_agent_version :: string
  ah_kubernetes_version :: string
  ah_supported_protocol_versions :: "protocol_version option list"
  ah_capabilities :: "capability list"
  ah_resume_after_sequence :: u64
  ah_configuration_revision :: string

record server_hello =
  sh_session_id :: string
  sh_selected_protocol_version :: "protocol_version option"
  sh_accepted_through_sequence :: u64
  sh_max_batch_records :: u32
  sh_max_batch_bytes :: u64
  sh_heartbeat_interval :: duration
  sh_configuration_revision :: string
  sh_server_time :: gotime

record sequence_range =
  sr_first_sequence :: u64
  sr_last_sequence :: u64

datatype rejection_code =
  REJECTION_UNSPECIFIED | INVALID_RECORD | UNSUPPORTED_PAYLOAD | UNSUPPORTED_VERSION
| IDENTITY_MISMATCH | TOO_OLD | TOO_LARGE | REJECTION_INTERNAL | REJECTION_OTHER int

record record_rejection =
  rr_sequence :: u64
  rr_code :: rejection_code
  rr_detail :: string
  rr_retryable :: bool

record batch_acknowledgement =
  ba_batch_id :: string
  ba_received_through_sequence :: u64
  ba_persisted_through_sequence :: u64
  ba_retry_ranges :: "sequence_range list"
  ba_rejections :: "record_rejection list"
  ba_acknowledged_at :: gotime

record agent_heartbeat =
  hb_sent_at :: gotime
  hb_highest_sequence_created :: u64
  hb_highest_sequence_persisted_by_server :: u64

record flow_control =
  fc_retry_after :: "duration option"
  fc_max_in_flight_batches :: u32
  fc_reason :: string

record stream_error =
  se_code :: int
  se_detail :: string
  se_reconnect_allowed :: bool

datatype agent_frame =
  AgentHello agent_hello
| AgentBatch observation_batch
| AgentHeartbeat agent_heartbeat
| AgentFrameNone

datatype server_frame =
  ServerHello server_hello
| Acknowledgement batch_acknowledgement
| Configuration opaque_message
| FlowControl flow_control
| StreamError stream_error
| ServerFrameNone

section \<open>Lemmas\<close>

lemma optN_simps [simp, go_simps]:
  "optN f None = 0"
  "optN f (Some m) = (case f m of None \<Rightarrow> 0 | Some v \<Rightarrow> v)"
  by (simp_all add: optN_def)

lemma timestamp_AsTime_New [simp]: "timestamp_AsTime (timestamp_New t) = t"
  by (simp add: timestamp_AsTime_def timestamp_New_def)

lemma timestamp_New_AsTime:
  "timestamp_IsValid t \<Longrightarrow> timestamp_New (timestamp_AsTime t) = t"
  by (cases t) (simp add: timestamp_AsTime_def timestamp_New_def timestamp_IsValid_def)

end
