(* ===== verification/Ingestion_Queue.thy ===== *)
theory Ingestion_Queue
  imports Agent_Proto "HOL-Library.Multiset"
begin

text \<open>
  The bounded in-memory queue between the stream handlers and the persistence
  worker (\<^verbatim>\<open>services/ingestion/queue/queue.go\<close>).  Every exported method runs
  under the queue's mutex, so an operation is a function from the state before
  to the state after; the buffered channel \<^verbatim>\<open>ready\<close> of size one is a flag, and the
  channel \<^verbatim>\<open>persisted\<close> of a batch is an address whose closed state is a set the
  operations thread through.  Closing a closed channel and dereferencing nil
  panic in Go; an operation that would do so returns \<^const>\<open>None\<close>.

  The step relation \<^verbatim>\<open>qstep\<close> interleaves the operations of any number of goroutines,
  those blocked in \<^verbatim>\<open>Acquire\<close> included.  The locale \<^verbatim>\<open>lease_queue\<close> is what the worker
  relies on.
\<close>

section \<open>State\<close>

record queue_batch =
  qb_TenantID :: string
  qb_ClusterID :: string
  qb_AgentInstance :: string
  qb_SessionID :: string
  qb_ReceivedAt :: gotime
  qb_ObservationSet :: "observation_batch option"
  qb_persisted :: "nat option"

record queue =
  q_items :: "queue_batch option list"
  q_capacity :: int
  q_inFlight :: int
  q_ready :: bool

record lease =
  l_items :: "queue_batch option list"
  l_once :: bool

definition ErrFull :: error where
  "ErrFull = ''ingestion queue is full''"

section \<open>Operations\<close>

definition queue_New :: "int \<Rightarrow> queue" where
  "queue_New cap =
     \<lparr> q_items = [], q_capacity = (if cap < 1 then 1 else cap), q_inFlight = 0, q_ready = False \<rparr>"

text \<open>\<^verbatim>\<open>proto.Clone\<close> copies a message; on values it is the identity.\<close>

definition cloneBatch :: "queue_batch option \<Rightarrow> queue_batch option" where
  "cloneBatch batch = (case batch of
       None \<Rightarrow> None
     | Some b \<Rightarrow> (case qb_ObservationSet b of
           None \<Rightarrow> Some b
         | Some os \<Rightarrow> Some (b\<lparr> qb_ObservationSet := Some os \<rparr>)))"

definition signalLocked :: "queue \<Rightarrow> queue" where
  "signalLocked q = q\<lparr> q_ready := True \<rparr>"

definition TryEnqueue :: "queue \<Rightarrow> queue_batch option \<Rightarrow> queue \<times> error option" where
  "TryEnqueue q batch =
     (if int (length (q_items q)) + q_inFlight q \<ge> q_capacity q then (q, Some ErrFull)
      else (signalLocked (q\<lparr> q_items := q_items q @ [cloneBatch batch] \<rparr>), None))"

definition take_count :: "int \<Rightarrow> queue \<Rightarrow> nat" where
  "take_count mx q = nat (min (if mx < 1 then 1 else mx) (int (length (q_items q))))"

text \<open>One turn of the loop of \<^verbatim>\<open>Acquire\<close> under the lock; \<^const>\<open>None\<close> sends the caller
  to the select on \<^verbatim>\<open>ctx.Done()\<close> and \<^verbatim>\<open>ready\<close>.\<close>

definition Acquire :: "queue \<Rightarrow> int \<Rightarrow> (lease \<times> queue) option" where
  "Acquire q mx =
     (if q_items q \<noteq> [] then
        let count = take_count mx q in
        Some (\<lparr> l_items = take count (q_items q), l_once = False \<rparr>,
              signalLocked (q\<lparr> q_items := drop count (q_items q),
                               q_inFlight := q_inFlight q + int count \<rparr>))
      else None)"

text \<open>The case \<^verbatim>\<open><-q.ready\<close> of that select, possible only when a token is there.\<close>

definition recv_ready :: "queue \<Rightarrow> queue option" where
  "recv_ready q = (if q_ready q then Some (q\<lparr> q_ready := False \<rparr>) else None)"

definition lease_Items :: "lease \<Rightarrow> queue_batch option list" where
  "lease_Items l = l_items l"

definition EnablePersistenceNotification :: "nat \<Rightarrow> queue_batch \<Rightarrow> queue_batch \<times> nat" where
  "EnablePersistenceNotification fresh b =
     (if qb_persisted b = None then (b\<lparr> qb_persisted := Some fresh \<rparr>, Suc fresh) else (b, fresh))"

text \<open>Whether a receive from the channel \<^verbatim>\<open>Persisted\<close> returns goes through.\<close>

definition Persisted :: "nat set \<Rightarrow> queue_batch \<Rightarrow> bool" where
  "Persisted closed b = (case qb_persisted b of None \<Rightarrow> True | Some c \<Rightarrow> c \<in> closed)"

definition markPersisted :: "queue_batch option \<Rightarrow> nat set \<Rightarrow> nat set option" where
  "markPersisted batch closed = (case batch of
       None \<Rightarrow> None
     | Some b \<Rightarrow> (case qb_persisted b of
           None \<Rightarrow> Some closed
         | Some c \<Rightarrow> if c \<in> closed then None else Some (insert c closed)))"

fun markAll :: "queue_batch option list \<Rightarrow> nat set \<Rightarrow> nat set option" where
  "markAll [] closed = Some closed"
| "markAll (b # bs) closed =
     (case markPersisted b closed of None \<Rightarrow> None | Some closed' \<Rightarrow> markAll bs closed')"

definition lease_Commit :: "lease \<Rightarrow> queue \<Rightarrow> nat set \<Rightarrow> (lease \<times> queue \<times> nat set) option" where
  "lease_Commit l q closed =
     (if l_once l then Some (l, q, closed)
      else case markAll (l_items l) closed of
        None \<Rightarrow> None
      | Some closed' \<Rightarrow>
          Some (l\<lparr> l_once := True \<rparr>,
                signalLocked (q\<lparr> q_inFlight := q_inFlight q - int (length (l_items l)) \<rparr>),
                closed'))"

definition lease_Retry :: "lease \<Rightarrow> queue \<Rightarrow> lease \<times> queue" where
  "lease_Retry l q =
     (if l_once l then (l, q)
      else (l\<lparr> l_once := True \<rparr>,
            signalLocked (q\<lparr> q_items := l_items l @ q_items q,
                             q_inFlight := q_inFlight q - int (length (l_items l)) \<rparr>)))"

definition Dequeue :: "queue \<Rightarrow> int \<Rightarrow> (queue_batch option list \<times> queue) option" where
  "Dequeue q mx =
     (if q_items q \<noteq> [] then
        let count = take_count mx q;
            q' = q\<lparr> q_items := drop count (q_items q) \<rparr>
        in Some (take count (q_items q), if q_items q' \<noteq> [] then signalLocked q' else q')
      else None)"

definition Depth :: "queue \<Rightarrow> int" where
  "Depth q = int (length (q_items q))"

definition InFlight :: "queue \<Rightarrow> int" where
  "InFlight q = q_inFlight q"

definition Capacity :: "queue \<Rightarrow> int" where
  "Capacity q = q_capacity q"

section \<open>Interleavings\<close>

text \<open>Where a goroutine stands in \<^verbatim>\<open>Acquire\<close>: outside, about to look at the items, or
  blocked in the select.\<close>

datatype acquirer = Outside | Looking | Parked

record qsys =
  qs_queue :: queue
  qs_closed :: "nat set"
  qs_fresh :: nat
  qs_leases :: "lease list"
  qs_callers :: "acquirer list"
  qs_enqueued :: "queue_batch option list"
  qs_committed :: "queue_batch option list"
  qs_dequeued :: "queue_batch option list"

definition qsys_init :: "int \<Rightarrow> nat \<Rightarrow> qsys" where
  "qsys_init cap n =
     \<lparr> qs_queue = queue_New cap, qs_closed = {}, qs_fresh = 0, qs_leases = [],
       qs_callers = replicate n Outside, qs_enqueued = [], qs_committed = [], qs_dequeued = [] \<rparr>"

text \<open>An enqueue makes a batch with a notification channel of its own, as the stream
  handler does.  The last three fields record what was enqueued, committed and
  dequeued; no operation reads them.\<close>

inductive qstep :: "qsys \<Rightarrow> qsys \<Rightarrow> bool" where
  enqueue:
    "EnablePersistenceNotification (qs_fresh s) b = (b', fresh') \<Longrightarrow> qb_persisted b = None \<Longrightarrow>
     TryEnqueue (qs_queue s) (Some b') = (q', None) \<Longrightarrow>
     qstep s (s\<lparr> qs_queue := q', qs_fresh := fresh', qs_enqueued := qs_enqueued s @ [Some b'] \<rparr>)"
| enqueue_full:
    "TryEnqueue (qs_queue s) b = (q', Some e) \<Longrightarrow> qstep s (s\<lparr> qs_queue := q' \<rparr>)"
| call:
    "i < length (qs_callers s) \<Longrightarrow> qs_callers s ! i = Outside \<Longrightarrow>
     qstep s (s\<lparr> qs_callers := (qs_callers s)[i := Looking] \<rparr>)"
| acquire:
    "i < length (qs_callers s) \<Longrightarrow> qs_callers s ! i = Looking \<Longrightarrow>
     Acquire (qs_queue s) mx = Some (l, q') \<Longrightarrow>
     qstep s (s\<lparr> qs_queue := q', qs_leases := qs_leases s @ [l],
                 qs_callers := (qs_callers s)[i := Outside] \<rparr>)"
| dequeue:
    "i < length (qs_callers s) \<Longrightarrow> qs_callers s ! i = Looking \<Longrightarrow>
     Dequeue (qs_queue s) mx = Some (bs, q') \<Longrightarrow>
     qstep s (s\<lparr> qs_queue := q', qs_dequeued := qs_dequeued s @ bs,
                 qs_callers := (qs_callers s)[i := Outside] \<rparr>)"
| park:
    "i < length (qs_callers s) \<Longrightarrow> qs_callers s ! i = Looking \<Longrightarrow> q_items (qs_queue s) = [] \<Longrightarrow>
     qstep s (s\<lparr> qs_callers := (qs_callers s)[i := Parked] \<rparr>)"
| wake:
    "i < length (qs_callers s) \<Longrightarrow> qs_callers s ! i = Parked \<Longrightarrow>
     recv_ready (qs_queue s) = Some q' \<Longrightarrow>
     qstep s (s\<lparr> qs_queue := q', qs_callers := (qs_callers s)[i := Looking] \<rparr>)"
| cancel:
    "i < length (qs_callers s) \<Longrightarrow> qs_callers s ! i = Parked \<Longrightarrow>
     qstep s (s\<lparr> qs_callers := (qs_callers s)[i := Outside] \<rparr>)"
| commit:
    "j < length (qs_leases s) \<Longrightarrow>
     lease_Commit (qs_leases s ! j) (qs_queue s) (qs_closed s) = Some (l, q', closed') \<Longrightarrow>
     qstep s (s\<lparr> qs_queue := q', qs_closed := closed', qs_leases := (qs_leases s)[j := l],
                 qs_committed := qs_committed s @
                   (if l_once (qs_leases s ! j) then [] else l_items (qs_leases s ! j)) \<rparr>)"
| retry:
    "j < length (qs_leases s) \<Longrightarrow> lease_Retry (qs_leases s ! j) (qs_queue s) = (l, q') \<Longrightarrow>
     qstep s (s\<lparr> qs_queue := q', qs_leases := (qs_leases s)[j := l] \<rparr>)"

inductive qreach :: "int \<Rightarrow> nat \<Rightarrow> qsys \<Rightarrow> bool" for cap n where
  init: "qreach cap n (qsys_init cap n)"
| step: "qreach cap n s \<Longrightarrow> qstep s s' \<Longrightarrow> qreach cap n s'"

section \<open>Invariant\<close>

definition open_items :: "lease list \<Rightarrow> queue_batch option list" where
  "open_items ls = concat (map l_items (filter (\<lambda>l. \<not> l_once l) ls))"

definition chans :: "queue_batch option list \<Rightarrow> nat list" where
  "chans bs = List.map_filter (\<lambda>b. case b of None \<Rightarrow> None | Some x \<Rightarrow> qb_persisted x) bs"

definition live_items :: "qsys \<Rightarrow> queue_batch option list" where
  "live_items s = open_items (qs_leases s) @ q_items (qs_queue s)"

definition capacity_inv :: "qsys \<Rightarrow> bool" where
  "capacity_inv s = (q_inFlight (qs_queue s) = int (length (open_items (qs_leases s)))
     \<and> int (length (live_items s)) \<le> q_capacity (qs_queue s))"

definition chan_inv :: "qsys \<Rightarrow> bool" where
  "chan_inv s = (None \<notin> set (live_items s) \<and> distinct (chans (live_items s))
     \<and> set (chans (live_items s)) \<inter> qs_closed s = {}
     \<and> (\<forall>c \<in> set (chans (live_items s)) \<union> qs_closed s. c < qs_fresh s))"

definition wakeup_inv :: "qsys \<Rightarrow> bool" where
  "wakeup_inv s = (q_items (qs_queue s) \<noteq> [] \<and> Parked \<in> set (qs_callers s) \<longrightarrow>
     q_ready (qs_queue s) \<or> Looking \<in> set (qs_callers s))"

definition conservation_inv :: "qsys \<Rightarrow> bool" where
  "conservation_inv s = (mset (qs_enqueued s) =
     mset (live_items s) + mset (qs_committed s) + mset (qs_dequeued s))"

definition closed_inv :: "qsys \<Rightarrow> bool" where
  "closed_inv s = (qs_closed s = set (chans (qs_committed s)))"

section \<open>Lemmas\<close>

lemma cloneBatch_id [simp]: "cloneBatch b = b"
  by (cases b) (auto simp: cloneBatch_def split: option.splits)

lemma signalLocked_simps [simp]:
  "q_items (signalLocked q) = q_items q" "q_capacity (signalLocked q) = q_capacity q"
  "q_inFlight (signalLocked q) = q_inFlight q" "q_ready (signalLocked q)"
  by (simp_all add: signalLocked_def)

lemma chans_simps [simp]:
  "chans [] = []"
  "chans (None # bs) = chans bs"
  "chans (Some b # bs) = (case qb_persisted b of None \<Rightarrow> chans bs | Some c \<Rightarrow> c # chans bs)"
  by (simp_all add: chans_def List.map_filter_simps split: option.splits)

lemma chans_append [simp]: "chans (xs @ ys) = chans xs @ chans ys"
  by (simp add: chans_def List.map_filter_def)

lemma mset_chans_cong: "mset xs = mset ys \<Longrightarrow> mset (chans xs) = mset (chans ys)"
  by (simp add: chans_def List.map_filter_def mset_map mset_filter)

lemma open_items_simps [simp]:
  "open_items [] = []"
  "open_items (l # ls) = (if l_once l then [] else l_items l) @ open_items ls"
  "open_items (ls @ ls') = open_items ls @ open_items ls'"
  by (simp_all add: open_items_def)

lemma open_items_at:
  assumes "j < length ls" "\<not> l_once (ls ! j)"
  shows "open_items ls = open_items (take j ls) @ l_items (ls ! j) @ open_items (drop (Suc j) ls)"
  using assms by (subst id_take_nth_drop [OF assms(1)]) (simp del: append_take_drop_id)

lemma open_items_close:
  assumes "j < length ls" "\<not> l_once (ls ! j)" "l_once l"
  shows "mset (open_items ls) = mset (l_items (ls ! j)) + mset (open_items (ls[j := l]))"
  using open_items_at [OF assms(1,2)] assms by (simp add: upd_conv_take_nth_drop)

lemma take_count_bounds: "q_items q \<noteq> [] \<Longrightarrow> 0 < take_count mx q \<and> take_count mx q \<le> length (q_items q)"
  by (cases "q_items q") (auto simp: take_count_def)

lemma AcquireE:
  assumes "Acquire q mx = Some (l, q')"
  shows "q_items q \<noteq> []" "l_items l @ q_items q' = q_items q" "l_items l \<noteq> []" "\<not> l_once l"
    "q_inFlight q' = q_inFlight q + int (length (l_items l))" "q_capacity q' = q_capacity q" "q_ready q'"
  using assms take_count_bounds [of q mx] by (auto simp: Acquire_def Let_def split: if_splits)

lemma DequeueE:
  assumes "Dequeue q mx = Some (bs, q')"
  shows "q_items q \<noteq> []" "bs @ q_items q' = q_items q" "bs \<noteq> []"
    "q_inFlight q' = q_inFlight q" "q_capacity q' = q_capacity q" "q_items q' \<noteq> [] \<longrightarrow> q_ready q'"
  using assms take_count_bounds [of q mx] by (auto simp: Dequeue_def Let_def split: if_splits)

lemma TryEnqueue_okE:
  assumes "TryEnqueue q b = (q', None)"
  shows "int (length (q_items q)) + q_inFlight q < q_capacity q" "q_items q' = q_items q @ [b]"
    "q_inFlight q' = q_inFlight q" "q_capacity q' = q_capacity q" "q_ready q'"
  using assms by (auto simp: TryEnqueue_def split: if_splits)

lemma TryEnqueue_fullE:
  assumes "TryEnqueue q b = (q', Some e)"
  shows "q' = q" "e = ErrFull" "int (length (q_items q)) + q_inFlight q \<ge> q_capacity q"
  using assms by (auto simp: TryEnqueue_def split: if_splits)

lemma markAll_fresh:
  assumes "None \<notin> set bs" "distinct (chans bs)" "set (chans bs) \<inter> closed = {}"
  shows "markAll bs closed = Some (closed \<union> set (chans bs))"
  using assms
proof (induction bs arbitrary: closed)
  case (Cons b bs)
  then obtain x where "b = Some x" by (cases b) auto
  with Cons show ?case by (cases "qb_persisted x") (auto simp: markPersisted_def)
qed simp

lemma markAll_Some:
  "markAll bs closed = Some closed' \<Longrightarrow> closed' = closed \<union> set (chans bs)"
proof (induction bs arbitrary: closed)
  case (Cons b bs)
  then obtain x where "b = Some x" by (cases b) (auto simp: markPersisted_def)
  with Cons show ?case
    by (cases "qb_persisted x") (auto simp: markPersisted_def split: if_splits)
qed simp

lemma lease_CommitE:
  assumes "lease_Commit l q closed = Some (l', q', closed')"
  shows "l_once l \<Longrightarrow> l' = l \<and> q' = q \<and> closed' = closed"
    and "\<not> l_once l \<Longrightarrow> l_once l' \<and> q_items q' = q_items q \<and> q_capacity q' = q_capacity q \<and> q_ready q'
          \<and> q_inFlight q' = q_inFlight q - int (length (l_items l)) \<and> closed' = closed \<union> set (chans (l_items l))"
  using assms by (auto simp: lease_Commit_def dest: markAll_Some split: if_splits option.splits)

lemma lease_RetryE:
  assumes "lease_Retry l q = (l', q')"
  shows "l_once l \<Longrightarrow> l' = l \<and> q' = q"
    and "\<not> l_once l \<Longrightarrow> l_once l' \<and> q_items q' = l_items l @ q_items q \<and> q_capacity q' = q_capacity q
          \<and> q_ready q' \<and> q_inFlight q' = q_inFlight q - int (length (l_items l))"
  using assms by (auto simp: lease_Retry_def split: if_splits)

section \<open>Every step keeps the invariants\<close>

text \<open>What each step does to the batches that are waiting or leased.\<close>

lemma live_commit:
  assumes "j < length (qs_leases s)" "\<not> l_once (qs_leases s ! j)" "l_once l"
    "q_items q' = q_items (qs_queue s)"
  shows "mset (live_items s) = mset (l_items (qs_leases s ! j))
    + mset (live_items (s\<lparr> qs_queue := q', qs_closed := c, qs_leases := (qs_leases s)[j := l], qs_committed := d \<rparr>))"
  using open_items_close [OF assms(1,2,3)] assms(4) by (simp add: live_items_def)

lemma live_retry:
  assumes "j < length (qs_leases s)" "\<not> l_once (qs_leases s ! j)" "l_once l"
    "q_items q' = l_items (qs_leases s ! j) @ q_items (qs_queue s)"
  shows "mset (live_items (s\<lparr> qs_queue := q', qs_leases := (qs_leases s)[j := l] \<rparr>)) = mset (live_items s)"
  using open_items_close [OF assms(1,2,3)] assms(4) by (simp add: live_items_def)

lemma live_acquire:
  "Acquire (qs_queue s) mx = Some (l, q') \<Longrightarrow>
   live_items (s\<lparr> qs_queue := q', qs_leases := qs_leases s @ [l], qs_callers := cs \<rparr>) = live_items s"
  using AcquireE(2,4) by (simp add: live_items_def)

lemma chan_inv_mono:
  assumes "chan_inv s" "mset (live_items s) = mset xs + mset (live_items s')" "qs_fresh s' = qs_fresh s"
    "qs_closed s' \<subseteq> qs_closed s \<union> set (chans xs)"
  shows "chan_inv s'"
proof -
  have m: "mset (live_items s) = mset (xs @ live_items s')" using assms(2) by simp
  have c: "mset (chans (live_items s)) = mset (chans (xs @ live_items s'))" by (rule mset_chans_cong [OF m])
  have d: "distinct (chans xs @ chans (live_items s'))"
    using assms(1) mset_eq_imp_distinct_iff [OF c] by (simp add: chan_inv_def)
  have e: "set (chans (live_items s)) = set (chans xs) \<union> set (chans (live_items s'))"
    using mset_eq_setD [OF c] by simp
  have f: "set (live_items s) = set xs \<union> set (live_items s')"
    using mset_eq_setD [OF m] by simp
  show ?thesis
    using assms(1,3,4) d unfolding chan_inv_def e f by auto
qed

lemma chan_inv_add:
  assumes "chan_inv s" "live_items s' = live_items s @ [Some b]" "qs_closed s' = qs_closed s"
    "qb_persisted b = Some (qs_fresh s)" "qs_fresh s' = Suc (qs_fresh s)"
  shows "chan_inv s'"
  using assms unfolding chan_inv_def by (auto simp: less_Suc_eq)

text \<open>A step either touches neither the items nor the leases, or is one of the six
  below; the lemmas on steps reduce to them.\<close>

lemma commit_capacity:
  assumes "capacity_inv s" "j < length (qs_leases s)"
    "lease_Commit (qs_leases s ! j) (qs_queue s) (qs_closed s) = Some (l, q', closed')"
  shows "capacity_inv (s\<lparr> qs_queue := q', qs_closed := closed', qs_leases := (qs_leases s)[j := l], qs_committed := d \<rparr>)"
proof (cases "l_once (qs_leases s ! j)")
  case True
  with lease_CommitE(1) [OF assms(3)] assms(1) show ?thesis
    by (simp add: capacity_inv_def live_items_def)
next
  case False
  note * = lease_CommitE(2) [OF assms(3) False]
  from open_items_close [OF assms(2) False, of l] * have
    "length (open_items (qs_leases s)) = length (l_items (qs_leases s ! j)) + length (open_items ((qs_leases s)[j := l]))"
    by (metis size_mset size_union)
  with * assms(1) show ?thesis by (simp add: capacity_inv_def live_items_def)
qed

lemma retry_capacity:
  assumes "capacity_inv s" "j < length (qs_leases s)" "lease_Retry (qs_leases s ! j) (qs_queue s) = (l, q')"
  shows "capacity_inv (s\<lparr> qs_queue := q', qs_leases := (qs_leases s)[j := l] \<rparr>)"
proof (cases "l_once (qs_leases s ! j)")
  case True
  with lease_RetryE(1) [OF assms(3)] assms(1) show ?thesis
    by (simp add: capacity_inv_def live_items_def)
next
  case False
  note * = lease_RetryE(2) [OF assms(3) False]
  from open_items_close [OF assms(2) False, of l] * have
    "length (open_items (qs_leases s)) = length (l_items (qs_leases s ! j)) + length (open_items ((qs_leases s)[j := l]))"
    by (metis size_mset size_union)
  with * assms(1) show ?thesis by (simp add: capacity_inv_def live_items_def)
qed

lemma qstep_capacity: "qstep s s' \<Longrightarrow> capacity_inv s \<Longrightarrow> capacity_inv s'"
proof (induction rule: qstep.induct)
  case (enqueue s b b' fresh' q')
  then show ?case using TryEnqueue_okE [OF enqueue(3)] by (simp add: capacity_inv_def live_items_def)
next
  case (enqueue_full s b q' e)
  then show ?case using TryEnqueue_fullE [OF enqueue_full(1)] by (simp add: capacity_inv_def live_items_def)
next
  case (acquire i s mx l q')
  have "length (q_items (qs_queue s)) = length (l_items l) + length (q_items q')"
    using AcquireE(2) [OF acquire(3)] by (metis length_append)
  with acquire AcquireE [OF acquire(3)] show ?case by (simp add: capacity_inv_def live_items_def)
next
  case (dequeue i s mx bs q')
  have "length (q_items (qs_queue s)) = length bs + length (q_items q')"
    using DequeueE(2) [OF dequeue(3)] by (metis length_append)
  with dequeue DequeueE [OF dequeue(3)] show ?case by (simp add: capacity_inv_def live_items_def)
next
  case (commit j s l q' closed')
  then show ?case by (intro commit_capacity)
next
  case (retry j s l q')
  then show ?case by (intro retry_capacity)
qed (auto simp: capacity_inv_def live_items_def recv_ready_def split: if_splits)

lemma qstep_chan: "qstep s s' \<Longrightarrow> chan_inv s \<Longrightarrow> chan_inv s'"
proof (induction rule: qstep.induct)
  case (enqueue s b b' fresh' q')
  then have "qb_persisted b' = Some (qs_fresh s)" "fresh' = Suc (qs_fresh s)"
    by (auto simp: EnablePersistenceNotification_def)
  then show ?case using TryEnqueue_okE [OF enqueue(3)] enqueue(4)
    by - (rule chan_inv_add [of s _ b'], (simp_all add: live_items_def))
next
  case (acquire i s mx l q')
  then show ?case by - (rule chan_inv_mono [of s "[]"], (simp_all add: live_acquire))
next
  case (dequeue i s mx bs q')
  have "mset (q_items (qs_queue s)) = mset bs + mset (q_items q')"
    using DequeueE(2) [OF dequeue(3)] by (metis mset_append)
  with dequeue(4) show ?case by - (rule chan_inv_mono [of s bs], (simp_all add: live_items_def))
next
  case (commit j s l q' closed')
  show ?case
  proof (cases "l_once (qs_leases s ! j)")
    case True
    with lease_CommitE(1) [OF commit(2)] commit show ?thesis
      by - (rule chan_inv_mono [of s "[]"], (simp_all add: live_items_def))
  next
    case False
    note * = lease_CommitE(2) [OF commit(2) False]
    with live_commit [OF commit(1) False] commit(3) show ?thesis
      by - (rule chan_inv_mono [of s "l_items (qs_leases s ! j)"], simp_all)
  qed
next
  case (retry j s l q')
  show ?case
  proof (cases "l_once (qs_leases s ! j)")
    case True
    with lease_RetryE(1) [OF retry(2)] retry show ?thesis
      by - (rule chan_inv_mono [of s "[]"], (simp_all add: live_items_def))
  next
    case False
    note * = lease_RetryE(2) [OF retry(2) False]
    with live_retry [OF retry(1) False] retry(3) show ?thesis
      by - (rule chan_inv_mono [of s "[]"], simp_all)
  qed
qed (auto simp: chan_inv_def live_items_def recv_ready_def dest: TryEnqueue_fullE split: if_splits)

lemma in_set_update_other:
  "i < length xs \<Longrightarrow> x \<in> set xs \<Longrightarrow> xs ! i \<noteq> x \<Longrightarrow> x \<in> set (xs[i := y])"
  by (metis in_set_conv_nth length_list_update nth_list_update_neq)

lemma in_set_update_new: "i < length xs \<Longrightarrow> y \<in> set (xs[i := y])"
  by (rule set_update_memI)

lemma in_set_updateD: "x \<in> set (xs[i := y]) \<Longrightarrow> x \<noteq> y \<Longrightarrow> x \<in> set xs"
  using set_update_subset_insert by fastforce

lemmas caller_updates = in_set_update_other in_set_update_new

lemma qstep_wakeup: "qstep s s' \<Longrightarrow> wakeup_inv s \<Longrightarrow> wakeup_inv s'"
proof (induction rule: qstep.induct)
  case (acquire i s mx l q')
  then show ?case using AcquireE(7) by (simp add: wakeup_inv_def)
next
  case (dequeue i s mx bs q')
  then show ?case using DequeueE(6) by (simp add: wakeup_inv_def)
next
  case (commit j s l q' closed')
  then show ?case using lease_CommitE [OF commit(2)]
    by (cases "l_once (qs_leases s ! j)") (auto simp: wakeup_inv_def)
next
  case (retry j s l q')
  then show ?case using lease_RetryE [OF retry(2)]
    by (cases "l_once (qs_leases s ! j)") (auto simp: wakeup_inv_def)
qed (auto simp: wakeup_inv_def recv_ready_def intro: caller_updates
       dest: TryEnqueue_okE(5) TryEnqueue_fullE(1) in_set_updateD split: if_splits)

lemma qstep_conservation: "qstep s s' \<Longrightarrow> conservation_inv s \<Longrightarrow> conservation_inv s'"
proof (induction rule: qstep.induct)
  case (enqueue s b b' fresh' q')
  then show ?case using TryEnqueue_okE(2) [OF enqueue(3)] by (simp add: conservation_inv_def live_items_def)
next
  case (acquire i s mx l q')
  then show ?case by (simp add: conservation_inv_def live_acquire)
next
  case (dequeue i s mx bs q')
  have "mset (q_items (qs_queue s)) = mset bs + mset (q_items q')"
    using DequeueE(2) [OF dequeue(3)] by (metis mset_append)
  with dequeue show ?case by (simp add: conservation_inv_def live_items_def)
next
  case (commit j s l q' closed')
  let ?s' = "s\<lparr> qs_queue := q', qs_closed := closed', qs_leases := (qs_leases s)[j := l],
               qs_committed := qs_committed s @
                 (if l_once (qs_leases s ! j) then [] else l_items (qs_leases s ! j)) \<rparr>"
  show ?case
  proof (cases "l_once (qs_leases s ! j)")
    case True
    with lease_CommitE(1) [OF commit(2)] commit show ?thesis by (simp add: conservation_inv_def live_items_def)
  next
    case False
    note * = lease_CommitE(2) [OF commit(2) False]
    have "mset (live_items s) = mset (l_items (qs_leases s ! j)) + mset (live_items ?s')"
      using * by (intro live_commit commit(1) False) simp_all
    with commit(3) False show ?thesis by (simp add: conservation_inv_def)
  qed
next
  case (retry j s l q')
  show ?case
  proof (cases "l_once (qs_leases s ! j)")
    case True
    with lease_RetryE(1) [OF retry(2)] retry show ?thesis by (simp add: conservation_inv_def live_items_def)
  next
    case False
    note * = lease_RetryE(2) [OF retry(2) False]
    with live_retry [OF retry(1) False] retry(3) show ?thesis by (simp add: conservation_inv_def)
  qed
qed (auto simp: conservation_inv_def live_items_def recv_ready_def dest: TryEnqueue_fullE split: if_splits)

lemma qstep_closed: "qstep s s' \<Longrightarrow> closed_inv s \<Longrightarrow> closed_inv s'"
proof (induction rule: qstep.induct)
  case (commit j s l q' closed')
  then show ?case using lease_CommitE [OF commit(2)]
    by (cases "l_once (qs_leases s ! j)") (auto simp: closed_inv_def)
qed (simp_all add: closed_inv_def)

lemma qreach_invs:
  "qreach cap n s \<Longrightarrow>
   capacity_inv s \<and> chan_inv s \<and> wakeup_inv s \<and> conservation_inv s \<and> closed_inv s
   \<and> q_capacity (qs_queue s) = max 1 cap"
proof (induction rule: qreach.induct)
  case init
  then show ?case
    by (auto simp: qsys_init_def queue_New_def capacity_inv_def chan_inv_def wakeup_inv_def
        conservation_inv_def closed_inv_def live_items_def)
next
  case (step s s')
  have "q_capacity (qs_queue s') = q_capacity (qs_queue s)"
    using step.hyps(2)
    by (cases rule: qstep.cases)
      (auto simp: TryEnqueue_def Acquire_def Dequeue_def recv_ready_def lease_Commit_def lease_Retry_def Let_def
        split: if_splits option.splits)
  with step show ?case
    using qstep_capacity qstep_chan qstep_wakeup qstep_conservation qstep_closed by auto
qed

section \<open>The interface of the worker\<close>

text \<open>What the worker relies on: the waiting batches as a list, a lease as a non-empty
  prefix of it that is set aside, a commit that drops the lease and a retry that
  puts it back in front.\<close>

locale lease_queue =
  fixes waiting :: "'q \<Rightarrow> 'b list"
    and enq :: "'q \<Rightarrow> 'b \<Rightarrow> 'q option"
    and acq :: "'q \<Rightarrow> int \<Rightarrow> ('b list \<times> 'q) option"
    and done_with :: "'b list \<Rightarrow> 'q \<Rightarrow> 'q"
    and give_back :: "'b list \<Rightarrow> 'q \<Rightarrow> 'q"
  assumes enq_waiting: "enq q b = Some q' \<Longrightarrow> waiting q' = waiting q @ [b]"
    and acq_prefix: "acq q mx = Some (bs, q') \<Longrightarrow> bs \<noteq> [] \<and> bs @ waiting q' = waiting q"
    and acq_blocks: "acq q mx = None \<longleftrightarrow> waiting q = []"
    and done_waiting: "waiting (done_with bs q) = waiting q"
    and back_waiting: "waiting (give_back bs q) = bs @ waiting q"
begin

lemma retry_restores:
  "acq q mx = Some (bs, q') \<Longrightarrow> waiting (give_back bs q') = waiting q"
  by (simp add: acq_prefix back_waiting)

lemma retry_keeps_order:
  "acq q mx = Some (bs, q') \<Longrightarrow> enq q' b = Some q'' \<Longrightarrow>
   waiting (give_back bs q'') = waiting q @ [b]"
  using acq_prefix back_waiting enq_waiting by (metis append_assoc)

lemma commit_removes_prefix:
  "acq q mx = Some (bs, q') \<Longrightarrow> bs @ waiting (done_with bs q') = waiting q"
  by (simp add: acq_prefix done_waiting)

lemma commit_shrinks:
  "acq q mx = Some (bs, q') \<Longrightarrow> length (waiting (done_with bs q')) < length (waiting q)"
  using commit_removes_prefix acq_prefix by (metis length_append length_greater_0_conv less_add_same_cancel2)

lemma served_in_order:
  assumes "acq q mx = Some (bs, q1)" "acq (done_with bs q1) mx' = Some (cs, q2)"
  shows "prefix (bs @ cs) (waiting q)"
  using commit_removes_prefix [OF assms(1)] acq_prefix [OF assms(2)] by (metis append_assoc prefixI)

end

definition enq_op :: "queue \<Rightarrow> queue_batch option \<Rightarrow> queue option" where
  "enq_op q b = (case TryEnqueue q b of (q', None) \<Rightarrow> Some q' | (_, Some _) \<Rightarrow> None)"

definition acq_op :: "queue \<Rightarrow> int \<Rightarrow> (queue_batch option list \<times> queue) option" where
  "acq_op q mx = map_option (\<lambda>(l, q'). (lease_Items l, q')) (Acquire q mx)"

text \<open>\<^verbatim>\<open>Commit\<close> as the queue sees it; the notifications are the other half.\<close>

definition done_op :: "queue_batch option list \<Rightarrow> queue \<Rightarrow> queue" where
  "done_op bs q = signalLocked (q\<lparr> q_inFlight := q_inFlight q - int (length bs) \<rparr>)"

definition back_op :: "queue_batch option list \<Rightarrow> queue \<Rightarrow> queue" where
  "back_op bs q = snd (lease_Retry \<lparr> l_items = bs, l_once = False \<rparr> q)"

lemma acq_op_Acquire: "acq_op q mx = Some (bs, q') \<longleftrightarrow>
   Acquire q mx = Some (\<lparr> l_items = bs, l_once = False \<rparr>, q')"
  by (auto simp: acq_op_def Acquire_def lease_Items_def Let_def)

lemma lease_Commit_done:
  "lease_Commit l q closed = Some (l', q', closed') \<Longrightarrow> \<not> l_once l \<Longrightarrow> q' = done_op (l_items l) q"
  by (auto simp: lease_Commit_def done_op_def split: if_splits option.splits)

interpretation iq: lease_queue q_items enq_op acq_op done_op back_op
proof
  fix q b q'
  show "enq_op q b = Some q' \<Longrightarrow> q_items q' = q_items q @ [b]"
    by (auto simp: enq_op_def dest: TryEnqueue_okE(2) split: prod.splits option.splits)
next
  fix q mx bs q'
  show "acq_op q mx = Some (bs, q') \<Longrightarrow> bs \<noteq> [] \<and> bs @ q_items q' = q_items q"
    using AcquireE(2,3) by (fastforce simp: acq_op_Acquire)
qed (auto simp: acq_op_def Acquire_def done_op_def back_op_def lease_Retry_def Let_def)

section \<open>Properties\<close>

lemma chans_member: "Some b \<in> set bs \<Longrightarrow> qb_persisted b = Some c \<Longrightarrow> c \<in> set (chans bs)"
  by (force simp: chans_def List.map_filter_def)

lemma commit_total:
  assumes "chan_inv s" "j < length (qs_leases s)"
  shows "lease_Commit (qs_leases s ! j) (qs_queue s) (qs_closed s) \<noteq> None"
proof (cases "l_once (qs_leases s ! j)")
  case True
  then show ?thesis by (simp add: lease_Commit_def)
next
  case False
  from open_items_at [OF assms(2) False] assms(1) have "markAll (l_items (qs_leases s ! j)) (qs_closed s) \<noteq> None"
    by (subst markAll_fresh) (auto simp: chan_inv_def live_items_def)
  with False show ?thesis by (auto simp: lease_Commit_def)
qed

lemma chan_not_closed:
  "chan_inv s \<Longrightarrow> Some b \<in> set (live_items s) \<Longrightarrow> qb_persisted b = Some c \<Longrightarrow> c \<notin> qs_closed s"
  using chans_member by (fastforce simp: chan_inv_def)

text \<open>A run for the examples: two enqueues into a queue of capacity two, then a lease
  on both, taken by the only caller.\<close>

definition sample_batch :: queue_batch where
  "sample_batch = \<lparr> qb_TenantID = ''t'', qb_ClusterID = ''c'', qb_AgentInstance = ''a'',
     qb_SessionID = ''s'', qb_ReceivedAt = 0, qb_ObservationSet = None, qb_persisted = None \<rparr>"

definition sample_items :: "queue_batch option list" where
  "sample_items = [Some (sample_batch\<lparr> qb_persisted := Some 0 \<rparr>), Some (sample_batch\<lparr> qb_persisted := Some 1 \<rparr>)]"

definition sample_waiting :: "acquirer \<Rightarrow> qsys" where
  "sample_waiting a = \<lparr> qs_queue = \<lparr> q_items = sample_items, q_capacity = 2, q_inFlight = 0, q_ready = True \<rparr>,
     qs_closed = {}, qs_fresh = 2, qs_leases = [], qs_callers = [a],
     qs_enqueued = sample_items, qs_committed = [], qs_dequeued = [] \<rparr>"

definition sample_leased :: qsys where
  "sample_leased = \<lparr> qs_queue = \<lparr> q_items = [], q_capacity = 2, q_inFlight = 2, q_ready = True \<rparr>,
     qs_closed = {}, qs_fresh = 2, qs_leases = [\<lparr> l_items = sample_items, l_once = False \<rparr>],
     qs_callers = [Outside], qs_enqueued = sample_items, qs_committed = [], qs_dequeued = [] \<rparr>"

lemmas sample_defs = sample_batch_def sample_items_def sample_waiting_def sample_leased_def

lemma qreach_enqueue:
  assumes "qreach cap n s" "qb_persisted b = None"
    "int (length (q_items (qs_queue s))) + q_inFlight (qs_queue s) < q_capacity (qs_queue s)"
    "b' = b\<lparr> qb_persisted := Some (qs_fresh s) \<rparr>"
  shows "qreach cap n (s\<lparr> qs_queue := (qs_queue s)\<lparr> q_items := q_items (qs_queue s) @ [Some b'], q_ready := True \<rparr>,
     qs_fresh := Suc (qs_fresh s), qs_enqueued := qs_enqueued s @ [Some b'] \<rparr>)"
  by (rule qreach.step [OF assms(1)], rule qstep.enqueue)
    (use assms in \<open>auto simp: EnablePersistenceNotification_def TryEnqueue_def signalLocked_def\<close>)

lemma sample_waiting_reach: "qreach 2 1 (sample_waiting Outside)"
proof -
  have "qreach 2 1 (qsys_init 2 1)" by (rule qreach.init)
  from qreach_enqueue [OF this, of sample_batch] have
    "qreach 2 1 (sample_waiting Outside\<lparr> qs_queue := \<lparr> q_items = [sample_items ! 0], q_capacity = 2, q_inFlight = 0, q_ready = True \<rparr>,
       qs_fresh := 1, qs_enqueued := [sample_items ! 0] \<rparr>)"
    by (simp add: qsys_init_def queue_New_def sample_defs)
  from qreach_enqueue [OF this, of sample_batch] show ?thesis
    by (simp add: sample_defs numeral_2_eq_2)
qed

lemma sample_looking_reach: "qreach 2 1 (sample_waiting Looking)"
  using qreach.step [OF sample_waiting_reach qstep.call [of 0]] by (simp add: sample_defs)

lemma sample_acquire:
  "Acquire (qs_queue (sample_waiting Looking)) 5 =
   Some (\<lparr> l_items = sample_items, l_once = False \<rparr>, qs_queue sample_leased)"
  by (simp add: Acquire_def take_count_def signalLocked_def sample_waiting_def sample_leased_def)
    (simp add: sample_items_def)

lemma sample_leased_reach: "qreach 2 1 sample_leased"
  using qreach.step [OF sample_looking_reach qstep.acquire [OF _ _ sample_acquire, of 0]]
  by (simp add: sample_waiting_def sample_leased_def)

text \<open>Another run: the caller finds the queue empty and blocks, then a batch arrives.\<close>

definition sample_parked :: qsys where
  "sample_parked = \<lparr> qs_queue = \<lparr> q_items = take 1 sample_items, q_capacity = 2, q_inFlight = 0, q_ready = True \<rparr>,
     qs_closed = {}, qs_fresh = 1, qs_leases = [], qs_callers = [Parked],
     qs_enqueued = take 1 sample_items, qs_committed = [], qs_dequeued = [] \<rparr>"

lemma sample_parked_reach: "qreach 2 1 sample_parked"
proof -
  have "qreach 2 1 (qsys_init 2 1\<lparr> qs_callers := [Looking] \<rparr>)"
    using qreach.step [OF qreach.init [of 2 1] qstep.call [of 0]] by (simp add: qsys_init_def)
  from qreach.step [OF this qstep.park [of 0]] have "qreach 2 1 (qsys_init 2 1\<lparr> qs_callers := [Parked] \<rparr>)"
    by (simp add: qsys_init_def queue_New_def)
  from qreach_enqueue [OF this, of sample_batch] show ?thesis
    by (simp add: qsys_init_def queue_New_def sample_defs sample_parked_def)
qed

text \<open>C19: In every interleaving of enqueues, leases, commits, retries and dequeues by any
  number of goroutines, the batches that wait and the batches on lease together
  never exceed the capacity the queue was made with (at least one), and
  \<^verbatim>\<open>inFlight\<close> counts exactly the batches on leases not yet ended.\<close>

theorem queue_capacity_respected:
  assumes "qreach cap n s"
  shows "Depth (qs_queue s) + InFlight (qs_queue s) \<le> max 1 cap
     \<and> InFlight (qs_queue s) = int (length (open_items (qs_leases s)))"
  using qreach_invs [OF assms] by (auto simp: Depth_def InFlight_def capacity_inv_def live_items_def)

theorem queue_capacity_respected_witness:
  "Depth (qs_queue sample_leased) + InFlight (qs_queue sample_leased) \<le> 2
   \<and> InFlight (qs_queue sample_leased) = 2"
  using queue_capacity_respected [OF sample_leased_reach]
  by (simp add: sample_defs open_items_def)

text \<open>C18: A lease ends once and \<^verbatim>\<open>Commit\<close> never panics: at every reachable state, committing
  any lease ever handed out (ended or not) finds no nil batch and closes no
  channel twice.  A batch's notification fires exactly when the batch is
  committed: the closed channels are those of the committed batches, and no
  batch that still waits or is on lease has its channel closed.\<close>

theorem commit_notifies_exactly_once:
  assumes "qreach cap n s" "j < length (qs_leases s)"
  shows "lease_Commit (qs_leases s ! j) (qs_queue s) (qs_closed s) \<noteq> None
     \<and> qs_closed s = set (chans (qs_committed s))
     \<and> (\<forall>b. Some b \<in> set (live_items s) \<and> qb_persisted b \<noteq> None \<longrightarrow> \<not> Persisted (qs_closed s) b)"
proof (intro conjI allI impI)
  have inv: "chan_inv s" "closed_inv s" using qreach_invs [OF assms(1)] by auto
  show "lease_Commit (qs_leases s ! j) (qs_queue s) (qs_closed s) \<noteq> None"
    by (rule commit_total [OF inv(1) assms(2)])
  show "qs_closed s = set (chans (qs_committed s))" using inv(2) by (simp add: closed_inv_def)
  show "\<not> Persisted (qs_closed s) b" if "Some b \<in> set (live_items s) \<and> qb_persisted b \<noteq> None" for b
    using that chan_not_closed [OF inv(1)] by (auto simp: Persisted_def)
qed

theorem commit_notifies_exactly_once_witness:
  "lease_Commit \<lparr> l_items = sample_items, l_once = False \<rparr> (qs_queue sample_leased) {} \<noteq> None
   \<and> \<not> Persisted {} (sample_batch\<lparr> qb_persisted := Some 0 \<rparr>)"
  using commit_notifies_exactly_once [OF sample_leased_reach, of 0]
  by (auto simp: sample_leased_def live_items_def sample_items_def)

text \<open>C20: No wake-up is lost: whenever batches wait and some goroutine is blocked in the select
  of \<^verbatim>\<open>Acquire\<close> or \<^verbatim>\<open>Dequeue\<close>, then either a token is in the channel \<^verbatim>\<open>ready\<close>, so a
  blocked goroutine can be woken, or another goroutine is about to look at the items.\<close>

theorem no_lost_wakeup:
  assumes "qreach cap n s" "q_items (qs_queue s) \<noteq> []" "Parked \<in> set (qs_callers s)"
  shows "recv_ready (qs_queue s) \<noteq> None \<or> Looking \<in> set (qs_callers s)"
  using qreach_invs [OF assms(1)] assms(2,3) by (auto simp: wakeup_inv_def recv_ready_def)

theorem no_lost_wakeup_witness: "recv_ready (qs_queue sample_parked) \<noteq> None"
  using no_lost_wakeup [OF sample_parked_reach] by (simp add: sample_parked_def sample_items_def)

text \<open>C17: No batch is lost or duplicated: what was enqueued is, as a multiset, what waits plus
  what is on lease plus what was committed or dequeued, at every reachable state.\<close>

theorem queue_conserves_batches:
  assumes "qreach cap n s"
  shows "mset (qs_enqueued s) = mset (q_items (qs_queue s)) + mset (open_items (qs_leases s))
     + mset (qs_committed s) + mset (qs_dequeued s)"
  using qreach_invs [OF assms] by (simp add: conservation_inv_def live_items_def add_ac)

theorem queue_conserves_batches_witness: "mset (qs_enqueued sample_leased) = mset sample_items"
  using queue_conserves_batches [OF sample_leased_reach] by (simp add: sample_leased_def open_items_def)

end
