(* ===== verification/Go_Path.thy ===== *)
theory Go_Path
  imports Prelude
begin

text \<open>
  Package \<^verbatim>\<open>path/filepath\<close> on Unix as the sources use it (\<^verbatim>\<open>Clean\<close>, \<^verbatim>\<open>Join\<close>, \<^verbatim>\<open>Dir\<close> is
  only passed to \<^verbatim>\<open>MkdirAll\<close>), the date fields of \<^verbatim>\<open>time.Format\<close>, zero-padded
  decimals, and a file system as a map from cleaned paths to contents.
\<close>

section \<open>Paths\<close>

abbreviation slash :: char where "slash \<equiv> CHR ''/''"

text \<open>The lexical processing of \<^verbatim>\<open>Clean\<close>: the accumulator holds the components kept so
  far, last one first.\<close>

fun clean_comps :: "bool \<Rightarrow> string list \<Rightarrow> string list \<Rightarrow> string list" where
  "clean_comps rooted acc [] = acc"
| "clean_comps rooted acc (c # cs) =
     (if c = [] \<or> c = ''.'' then clean_comps rooted acc cs
      else if c = ''..'' then
        (case acc of
           a # as \<Rightarrow> if a \<noteq> ''..'' then clean_comps rooted as cs
                    else if rooted then clean_comps rooted acc cs
                    else clean_comps rooted (''..'' # acc) cs
         | [] \<Rightarrow> if rooted then clean_comps rooted acc cs else clean_comps rooted [''..''] cs)
      else clean_comps rooted (c # acc) cs)"

definition is_rooted :: "string \<Rightarrow> bool" where
  "is_rooted p = (case p of [] \<Rightarrow> False | c # _ \<Rightarrow> c = slash)"

definition path_comps :: "string \<Rightarrow> string list" where
  "path_comps p = rev (clean_comps (is_rooted p) [] (Split1 slash p))"

definition render :: "bool \<Rightarrow> string list \<Rightarrow> string" where
  "render rooted cs =
     (if rooted then slash # Join cs [slash] else if cs = [] then ''.'' else Join cs [slash])"

definition filepath_Clean :: "string \<Rightarrow> string" where
  "filepath_Clean p = render (is_rooted p) (path_comps p)"

definition filepath_Join :: "string list \<Rightarrow> string" where
  "filepath_Join es = (case dropWhile (\<lambda>e. e = []) es of
       [] \<Rightarrow> []
     | es' \<Rightarrow> filepath_Clean (Join es' [slash]))"

section \<open>Numbers and dates in names\<close>

definition pad_zero :: "nat \<Rightarrow> string \<Rightarrow> string" where
  "pad_zero w s = replicate (w - length s) (CHR ''0'') @ s"

text \<open>The proleptic Gregorian date of a day count since 1970-01-01.\<close>

definition civil_from_days :: "int \<Rightarrow> int \<times> int \<times> int" where
  "civil_from_days days =
     (let z = days + 719468;
          era = z div 146097;
          doe = z mod 146097;
          yoe = (doe - doe div 1460 + doe div 36524 - doe div 146096) div 365;
          doy = doe - (365 * yoe + yoe div 4 - yoe div 100);
          mp = (5 * doy + 2) div 153;
          d = doy - (153 * mp + 2) div 5 + 1;
          m = (if mp < 10 then mp + 3 else mp - 9);
          y = yoe + era * 400 + (if m \<le> 2 then 1 else 0)
      in (y, m, d))"

definition date_of :: "gotime \<Rightarrow> int \<times> int \<times> int" where
  "date_of t = civil_from_days (t div (86400 * Second))"

definition format_int :: "nat \<Rightarrow> int \<Rightarrow> string" where
  "format_int w n = (if n < 0 then ''-'' @ pad_zero w (itoa (nat (- n))) else pad_zero w (itoa (nat n)))"

definition format_2006 :: "gotime \<Rightarrow> string" where
  "format_2006 t = (case date_of t of (y, m, d) \<Rightarrow> format_int 4 y)"

definition format_01 :: "gotime \<Rightarrow> string" where
  "format_01 t = (case date_of t of (y, m, d) \<Rightarrow> format_int 2 m)"

definition format_02 :: "gotime \<Rightarrow> string" where
  "format_02 t = (case date_of t of (y, m, d) \<Rightarrow> format_int 2 d)"

section \<open>Lemmas on paths\<close>

lemma Split1_append_sep: "Split1 c (a @ c # b) = Split1 c a @ Split1 c b"
proof (induction a)
  case (Cons x a)
  obtain p ps where "Split1 c a = p # ps" by (cases "Split1 c a") auto
  with Cons show ?case by simp
qed simp

lemma Split1_no_sep_id [simp]: "c \<notin> set s \<Longrightarrow> Split1 c s = [s]"
  by (induction s) auto

lemma Join_Cons: "ps \<noteq> [] \<Longrightarrow> Join (p # ps) sep = p @ sep @ Join ps sep"
  by (cases ps) auto

lemma Join_append: "ps \<noteq> [] \<Longrightarrow> qs \<noteq> [] \<Longrightarrow> Join (ps @ qs) sep = Join ps sep @ sep @ Join qs sep"
proof (induction ps)
  case (Cons p ps)
  then show ?case by (cases "ps = []") (simp_all add: Join_Cons)
qed simp

lemma Split1_Join:
  "ps \<noteq> [] \<Longrightarrow> \<forall>p \<in> set ps. c \<notin> set p \<Longrightarrow> Split1 c (Join ps [c]) = ps"
proof (induction ps)
  case (Cons p ps)
  then show ?case
    by (cases "ps = []") (simp_all add: Join_Cons Split1_append_sep)
qed simp

lemma clean_comps_append:
  "clean_comps r acc (xs @ ys) = clean_comps r (clean_comps r acc xs) ys"
  by (induction r acc xs rule: clean_comps.induct) (auto split: list.splits)

definition plain_comp :: "string \<Rightarrow> bool" where
  "plain_comp c = (c \<noteq> [] \<and> c \<noteq> ''.'' \<and> c \<noteq> ''..'' \<and> slash \<notin> set c)"

lemma clean_comps_plain:
  "\<forall>c \<in> set cs. plain_comp c \<Longrightarrow> clean_comps r acc cs = rev cs @ acc"
  by (induction cs arbitrary: acc) (auto simp: plain_comp_def)

lemma clean_comps_set: "set (clean_comps r acc cs) \<subseteq> set acc \<union> set cs"
proof (induction cs arbitrary: acc)
  case (Cons c cs)
  show ?case
    using Cons [of acc] Cons [of "c # acc"] Cons [of "tl acc"]
    by (cases acc) (auto split: if_splits)
qed simp

lemma path_comps_no_slash: "c \<in> set (path_comps p) \<Longrightarrow> slash \<notin> set c"
  using clean_comps_set [of _ "[]" "Split1 slash p"] Split1_no_sep [of c slash p]
  by (auto simp: path_comps_def)

lemma filepath_Join_root:
  "root \<noteq> [] \<Longrightarrow> filepath_Join (root # es) = filepath_Clean (Join (root # es) [slash])"
  by (simp add: filepath_Join_def)

lemma is_rooted_append [simp]: "p \<noteq> [] \<Longrightarrow> is_rooted (p @ q) = is_rooted p"
  by (cases p) (simp_all add: is_rooted_def)

text \<open>Joining components that are names of their own to a root appends them.\<close>

lemma path_comps_Join:
  assumes "root \<noteq> []" "es \<noteq> []" "\<forall>e \<in> set es. slash \<notin> set e"
  shows "path_comps (Join (root # es) [slash]) =
    rev (clean_comps (is_rooted root) (rev (path_comps root)) es)"
proof -
  have "Split1 slash (Join (root # es) [slash]) = Split1 slash root @ es"
    using assms by (simp add: Join_Cons Split1_append_sep Split1_Join)
  moreover have "is_rooted (Join (root # es) [slash]) = is_rooted root"
    using assms by (simp add: Join_Cons)
  ultimately show ?thesis by (simp add: path_comps_def clean_comps_append)
qed

lemma filepath_Join_plain:
  assumes "root \<noteq> []" "es \<noteq> []" "\<forall>e \<in> set es. plain_comp e"
  shows "filepath_Join (root # es) = render (is_rooted root) (path_comps root @ es)"
proof -
  have ns: "\<forall>e \<in> set es. slash \<notin> set e" using assms(3) by (simp add: plain_comp_def)
  have "is_rooted (Join (root # es) [slash]) = is_rooted root"
    using assms by (simp add: Join_Cons)
  then show ?thesis
    using path_comps_Join [OF assms(1,2) ns] assms
    by (simp add: filepath_Join_root filepath_Clean_def clean_comps_plain)
qed

lemma render_inject:
  assumes "cs \<noteq> []" "ds \<noteq> []" "\<forall>c \<in> set cs \<union> set ds. slash \<notin> set c" "render r cs = render r ds"
  shows "cs = ds"
proof -
  have "Join cs [slash] = Join ds [slash]" using assms by (auto simp: render_def split: if_splits)
  then show ?thesis using Split1_Join assms by (metis UnI1 UnI2)
qed

lemma render_snoc: "suffix c (render r (cs @ [c]))"
proof -
  have "suffix c (Join (cs @ [c]) [slash])"
    by (cases "cs = []") (simp_all add: Join_append suffix_def)
  then show ?thesis by (auto simp: render_def suffix_Cons)
qed

lemma filepath_Join_suffix:
  assumes "root \<noteq> []" "\<forall>e \<in> set es. slash \<notin> set e" "plain_comp f"
  shows "suffix f (filepath_Join (root # es @ [f]))"
proof -
  have ns: "\<forall>e \<in> set (es @ [f]). slash \<notin> set e" using assms by (simp add: plain_comp_def)
  have "path_comps (Join (root # es @ [f]) [slash]) = rev (clean_comps (is_rooted root) (rev (path_comps root)) es) @ [f]"
    using path_comps_Join [OF assms(1) _ ns] assms(3)
    by (simp add: clean_comps_append plain_comp_def)
  then show ?thesis
    using assms(1) by (simp add: filepath_Join_root filepath_Clean_def render_snoc)
qed

lemma pad_zero_length: "length s \<le> w \<Longrightarrow> length (pad_zero w s) = w"
  by (simp add: pad_zero_def)

end
