(* ===== verification/Ingestion_Files.thy ===== *)
theory Ingestion_Files
  imports Go_Path Agent_Proto
begin

text \<open>
  The two file-backed collaborators of the ingestion server: the sequence
  checkpoint store (\<^verbatim>\<open>services/ingestion/server/checkpoint.go\<close>) and the raw batch
  archiver (\<^verbatim>\<open>archive.go\<close>).  A file system maps paths to contents.  Every system
  call may fail: the record \<^verbatim>\<open>io_env\<close> says which do in one call of an operation, and what a
  failed write leaves behind (\<^verbatim>\<open>io_readErr\<close> is an error other than a missing file).  A checkpoint file holds the value whose JSON form
  the code writes and reads back.
\<close>

section \<open>File system\<close>

record checkpointFile =
  cf_TenantID :: string
  cf_ClusterID :: string
  cf_PersistedThrough :: u64

datatype content = CheckpointJSON checkpointFile | RawBytes bytes

type_synonym fs = "string \<Rightarrow> content option"

record io_env =
  io_ctxErr :: "error option"
  io_mkdirErr :: "error option"
  io_writeErr :: "error option"
  io_partial :: "content option"
  io_renameErr :: "error option"
  io_readErr :: "error option"

definition io_ok :: io_env where
  "io_ok = \<lparr> io_ctxErr = None, io_mkdirErr = None, io_writeErr = None, io_partial = None,
             io_renameErr = None, io_readErr = None \<rparr>"

text \<open>\<^verbatim>\<open>os.WriteFile\<close>: a failed call may leave a truncated or partial file.\<close>

definition os_WriteFile :: "io_env \<Rightarrow> fs \<Rightarrow> string \<Rightarrow> content \<Rightarrow> fs \<times> error option" where
  "os_WriteFile io fs p c = (case io_writeErr io of
       None \<Rightarrow> (fs(p \<mapsto> c), None)
     | Some e \<Rightarrow> (case io_partial io of None \<Rightarrow> fs | Some g \<Rightarrow> fs(p \<mapsto> g), Some e))"

definition os_Rename :: "io_env \<Rightarrow> fs \<Rightarrow> string \<Rightarrow> string \<Rightarrow> fs \<times> error option" where
  "os_Rename io fs old new = (case io_renameErr io of
       None \<Rightarrow> (fs(new := fs old, old := None), None)
     | Some e \<Rightarrow> (fs, Some e))"

section \<open>Sanitising path elements\<close>

definition replaced_chars :: "char set" where
  "replaced_chars = {CHR ''/'', CHR 0x5C, CHR '':'', CHR 0x00}"

definition safePathElement :: "string \<Rightarrow> string" where
  "safePathElement value =
     (let v = TrimSpace value in
      if v = [] then ''_''
      else map (\<lambda>c. if c \<in> replaced_chars then CHR ''_'' else c) v)"

section \<open>Checkpoints\<close>

datatype checkpoint_store = MemoryCheckpointStore | FileCheckpointStore string

definition NewFileCheckpointStore :: "io_env \<Rightarrow> string \<Rightarrow> checkpoint_store result" where
  "NewFileCheckpointStore io root =
     (let root = TrimSpace root in
      if root = [] then Inl ''checkpoint root is required''
      else case io_mkdirErr io of
        Some e \<Rightarrow> Inl (''create checkpoint root: '' @ e)
      | None \<Rightarrow> Inr (FileCheckpointStore root))"

definition checkpoint_path :: "string \<Rightarrow> string \<Rightarrow> string \<Rightarrow> string" where
  "checkpoint_path root tenantID clusterID =
     filepath_Join [root, safePathElement tenantID, safePathElement clusterID, ''checkpoint.json'']"

text \<open>\<^verbatim>\<open>decode\<close> stands for \<^verbatim>\<open>json.Unmarshal\<close> on bytes this program did not write.\<close>

definition file_Load :: "(bytes \<Rightarrow> u64 result) \<Rightarrow> io_env \<Rightarrow> string \<Rightarrow> fs \<Rightarrow> string \<Rightarrow> string \<Rightarrow> u64 result" where
  "file_Load decode io root fs tenantID clusterID =
     (case io_ctxErr io of
        Some e \<Rightarrow> Inl e
      | None \<Rightarrow>
          (case io_readErr io of
             Some e \<Rightarrow> Inl (''read checkpoint: '' @ e)
           | None \<Rightarrow>
               (case fs (checkpoint_path root tenantID clusterID) of
                  None \<Rightarrow> Inr 0
                | Some (CheckpointJSON c) \<Rightarrow> Inr (cf_PersistedThrough c)
                | Some (RawBytes b) \<Rightarrow>
                    (case decode b of
                       Inl e \<Rightarrow> Inl (''decode checkpoint: '' @ e)
                     | Inr v \<Rightarrow> Inr v))))"

definition file_Save :: "io_env \<Rightarrow> string \<Rightarrow> fs \<Rightarrow> string \<Rightarrow> string \<Rightarrow> u64 \<Rightarrow> fs \<times> error option" where
  "file_Save io root fs tenantID clusterID seq =
     (case io_ctxErr io of
        Some e \<Rightarrow> (fs, Some e)
      | None \<Rightarrow>
          (let path = checkpoint_path root tenantID clusterID in
           case io_mkdirErr io of
             Some e \<Rightarrow> (fs, Some (''create checkpoint partition: '' @ e))
           | None \<Rightarrow>
               (let data = CheckpointJSON \<lparr> cf_TenantID = tenantID, cf_ClusterID = clusterID,
                                            cf_PersistedThrough = seq \<rparr>;
                    temp = path @ ''.tmp'' in
                case os_WriteFile io fs temp data of
                  (fs', Some e) \<Rightarrow> (fs', Some (''write checkpoint: '' @ e))
                | (fs', None) \<Rightarrow>
                    (case os_Rename io fs' temp path of
                       (fs'', Some e) \<Rightarrow> (fs'', Some (''replace checkpoint: '' @ e))
                     | (fs'', None) \<Rightarrow> (fs'', None)))))"

definition checkpoint_Load ::
  "(bytes \<Rightarrow> u64 result) \<Rightarrow> io_env \<Rightarrow> checkpoint_store \<Rightarrow> fs \<Rightarrow> string \<Rightarrow> string \<Rightarrow> u64 result" where
  "checkpoint_Load decode io store fs tenantID clusterID = (case store of
       MemoryCheckpointStore \<Rightarrow> Inr 0
     | FileCheckpointStore root \<Rightarrow> file_Load decode io root fs tenantID clusterID)"

definition checkpoint_Save ::
  "io_env \<Rightarrow> checkpoint_store \<Rightarrow> fs \<Rightarrow> string \<Rightarrow> string \<Rightarrow> u64 \<Rightarrow> fs \<times> error option" where
  "checkpoint_Save io store fs tenantID clusterID seq = (case store of
       MemoryCheckpointStore \<Rightarrow> (fs, None)
     | FileCheckpointStore root \<Rightarrow> file_Save io root fs tenantID clusterID seq)"

section \<open>Archive\<close>

record archive_record =
  ar_TenantID :: string
  ar_ClusterID :: string
  ar_AgentInstance :: string
  ar_SessionID :: string
  ar_ReceivedAt :: gotime
  ar_Batch :: "observation_batch option"

datatype archiver = NoopArchiver | FileArchiver string

definition NewFileArchiver :: "io_env \<Rightarrow> string \<Rightarrow> archiver result" where
  "NewFileArchiver io root =
     (let root = TrimSpace root in
      if root = [] then Inl ''archive root is required''
      else case io_mkdirErr io of
        Some e \<Rightarrow> Inl (''create archive root: '' @ e)
      | None \<Rightarrow> Inr (FileArchiver root))"

definition archive_fileName :: "archive_record \<Rightarrow> string" where
  "archive_fileName r =
     pad_zero 20 (itoa (unat (getN bt_first_sequence (ar_Batch r)))) @ ''-''
     @ pad_zero 20 (itoa (unat (getN bt_last_sequence (ar_Batch r)))) @ ''-''
     @ safePathElement (getS bt_batch_id (ar_Batch r)) @ ''.pb''"

definition archive_path :: "string \<Rightarrow> archive_record \<Rightarrow> string" where
  "archive_path root r =
     filepath_Join [root, safePathElement (ar_TenantID r), safePathElement (ar_ClusterID r),
       format_2006 (ar_ReceivedAt r), format_01 (ar_ReceivedAt r), format_02 (ar_ReceivedAt r),
       archive_fileName r]"

definition file_Archive ::
  "(observation_batch \<Rightarrow> bytes result) \<Rightarrow> io_env \<Rightarrow> string \<Rightarrow> fs \<Rightarrow> archive_record \<Rightarrow> fs \<times> error option" where
  "file_Archive marshal io root fs r =
     (case io_ctxErr io of
        Some e \<Rightarrow> (fs, Some e)
      | None \<Rightarrow>
          (case ar_Batch r of
             None \<Rightarrow> (fs, Some ''archive batch is required'')
           | Some batch \<Rightarrow>
               (case marshal batch of
                  Inl e \<Rightarrow> (fs, Some (''marshal archive batch: '' @ e))
                | Inr data \<Rightarrow>
                    (case io_mkdirErr io of
                       Some e \<Rightarrow> (fs, Some (''create archive partition: '' @ e))
                     | None \<Rightarrow>
                         (case os_WriteFile io fs (archive_path root r) (RawBytes data) of
                            (fs', Some e) \<Rightarrow> (fs', Some (''write archive batch: '' @ e))
                          | (fs', None) \<Rightarrow> (fs', None))))))"

definition Archive ::
  "(observation_batch \<Rightarrow> bytes result) \<Rightarrow> io_env \<Rightarrow> archiver \<Rightarrow> fs \<Rightarrow> archive_record \<Rightarrow> fs \<times> error option" where
  "Archive marshal io a fs r = (case a of
       NoopArchiver \<Rightarrow> (fs, None)
     | FileArchiver root \<Rightarrow> file_Archive marshal io root fs r)"

section \<open>Lemmas on paths\<close>

lemma safePathElement_no_slash [simp]: "slash \<notin> set (safePathElement v)"
  by (auto simp: safePathElement_def replaced_chars_def Let_def)

lemma safePathElement_nonempty [simp]: "safePathElement v \<noteq> []"
  by (simp add: safePathElement_def Let_def)

lemma checkpoint_json_plain [simp]: "plain_comp ''checkpoint.json''"
  by (simp add: plain_comp_def)

lemma checkpoint_path_suffix:
  "root \<noteq> [] \<Longrightarrow> suffix ''checkpoint.json'' (checkpoint_path root t c)"
  using filepath_Join_suffix [of root "[safePathElement t, safePathElement c]" "''checkpoint.json''"]
  by (simp add: checkpoint_path_def)

lemma temp_not_checkpoint:
  assumes "root \<noteq> []"
  shows "checkpoint_path root t c @ ''.tmp'' \<noteq> checkpoint_path root t' c'"
proof
  assume "checkpoint_path root t c @ ''.tmp'' = checkpoint_path root t' c'"
  then have "last (checkpoint_path root t' c') = CHR ''p''" by (metis last_appendR last_ConsR last_ConsL list.distinct(1))
  moreover have "last (checkpoint_path root t' c') = CHR ''n''"
    using checkpoint_path_suffix [OF assms, of t' c'] by (auto simp: suffix_def)
  ultimately show False by simp
qed

text \<open>Identifiers that sanitising leaves alone and that name a directory of their own.\<close>

definition path_safe :: "string \<Rightarrow> bool" where
  "path_safe v = (v \<noteq> [] \<and> v \<noteq> ''.'' \<and> v \<noteq> ''..'' \<and> TrimSpace v = v \<and> set v \<inter> replaced_chars = {})"

lemma safePathElement_id: "path_safe v \<Longrightarrow> safePathElement v = v"
  unfolding path_safe_def safePathElement_def Let_def by (auto intro!: map_idI)

lemma path_safe_plain: "path_safe v \<Longrightarrow> plain_comp v"
  by (auto simp: path_safe_def plain_comp_def replaced_chars_def)

lemma checkpoint_path_inject:
  assumes "root \<noteq> []" "path_safe t" "path_safe c" "path_safe t'" "path_safe c'"
    "checkpoint_path root t c = checkpoint_path root t' c'"
  shows "t = t' \<and> c = c'"
proof -
  have eq: "render (is_rooted root) (path_comps root @ [t, c, ''checkpoint.json''])
      = render (is_rooted root) (path_comps root @ [t', c', ''checkpoint.json''])"
    using assms path_safe_plain
    by (simp add: checkpoint_path_def safePathElement_id filepath_Join_plain)
  have "path_comps root @ [t, c, ''checkpoint.json''] = path_comps root @ [t', c', ''checkpoint.json'']"
    by (rule render_inject [OF _ _ _ eq])
      (use assms path_safe_plain path_comps_no_slash in \<open>auto simp: plain_comp_def\<close>)
  then show ?thesis by simp
qed

text \<open>An archive file is never a checkpoint: the one ends in \<^verbatim>\<open>.pb\<close>, the other in \<^verbatim>\<open>.json\<close>.\<close>

lemma no_slash_itoa [simp]: "slash \<notin> set (itoa n)"
proof -
  have "slash \<notin> digit ` {..< 10}" by (auto dest!: arg_cong [where f = "of_char :: char \<Rightarrow> nat"])
  then show ?thesis using itoa_digits by blast
qed

lemma no_slash_pad_zero [simp]: "slash \<notin> set s \<Longrightarrow> slash \<notin> set (pad_zero n s)"
  by (simp add: pad_zero_def)

lemma no_slash_format [simp]: "slash \<notin> set (format_2006 t)" "slash \<notin> set (format_01 t)" "slash \<notin> set (format_02 t)"
  by (auto simp: format_2006_def format_01_def format_02_def format_int_def split: prod.splits)

lemma archive_fileName_plain: "plain_comp (archive_fileName r)"
proof -
  have "slash \<notin> set (archive_fileName r)" by (simp add: archive_fileName_def)
  moreover have "length (archive_fileName r) > 2" by (simp add: archive_fileName_def)
  ultimately show ?thesis unfolding plain_comp_def by fastforce
qed

lemma archive_not_checkpoint:
  assumes "root \<noteq> []" "root' \<noteq> []"
  shows "archive_path root r \<noteq> checkpoint_path root' t c"
proof
  assume eq: "archive_path root r = checkpoint_path root' t c"
  have "suffix (archive_fileName r) (archive_path root r)"
    using filepath_Join_suffix [OF assms(1) _ archive_fileName_plain, of
      "[safePathElement (ar_TenantID r), safePathElement (ar_ClusterID r),
        format_2006 (ar_ReceivedAt r), format_01 (ar_ReceivedAt r), format_02 (ar_ReceivedAt r)]" r]
    by (simp add: archive_path_def)
  then have "last (archive_path root r) = CHR ''b''" by (auto simp: suffix_def archive_fileName_def)
  moreover have "last (checkpoint_path root' t c) = CHR ''n''"
    using checkpoint_path_suffix [OF assms(2), of t c] by (auto simp: suffix_def)
  ultimately show False using eq by simp
qed

lemma Archive_keeps_checkpoints:
  assumes "Archive marshal io a fs r = (fs', e)" "\<forall>root. a = FileArchiver root \<longrightarrow> root \<noteq> []" "root' \<noteq> []"
  shows "fs' (checkpoint_path root' t c) = fs (checkpoint_path root' t c)"
proof (cases a)
  case (FileArchiver root)
  then have "archive_path root r \<noteq> checkpoint_path root' t c" using assms(2,3) archive_not_checkpoint by simp
  with assms(1) FileArchiver show ?thesis
    by (auto simp: Archive_def file_Archive_def os_WriteFile_def split: option.splits sum.splits)
qed (use assms(1) in \<open>simp add: Archive_def\<close>)

section \<open>The contract of a checkpoint store\<close>

text \<open>What the server relies on: an attempt to save touches no other cluster's
  checkpoint and leaves its own at the old value or the new one; a store is durable
  when a save that reports success is the value later loaded.\<close>

locale checkpoint_safe =
  fixes valid :: "'k \<Rightarrow> bool"
    and load :: "'s \<Rightarrow> 'k \<Rightarrow> u64 option"
    and save :: "'e \<Rightarrow> 's \<Rightarrow> 'k \<Rightarrow> u64 \<Rightarrow> 's \<times> bool"
  assumes other_kept: "valid k \<Longrightarrow> valid k' \<Longrightarrow> k' \<noteq> k \<Longrightarrow> save e s k n = (s', ok) \<Longrightarrow> load s' k' = load s k'"
    and own_old_or_new: "valid k \<Longrightarrow> save e s k n = (s', ok) \<Longrightarrow> load s' k = load s k \<or> load s' k = Some n"
begin

lemma load_after_saves:
  assumes "valid k" "\<forall>(e, k', n) \<in> set ops. valid k'"
  shows "load (foldl (\<lambda>s (e, k', n). fst (save e s k' n)) s ops) k = load s k
    \<or> (\<exists>e n. (e, k, n) \<in> set ops \<and> load (foldl (\<lambda>s (e, k', n). fst (save e s k' n)) s ops) k = Some n)"
  using assms
proof (induction ops arbitrary: s)
  case (Cons op ops)
  obtain e k' n where op: "op = (e, k', n)" by (cases op)
  obtain s' ok where s': "save e s k' n = (s', ok)" by (cases "save e s k' n")
  have "valid k'" using Cons.prems op by simp
  then have "load s' k = load s k \<or> k' = k \<and> load s' k = Some n"
    using other_kept [OF _ Cons.prems(1) _ s'] own_old_or_new [OF _ s'] by (cases "k' = k") auto
  moreover have "\<forall>(e, k', n) \<in> set ops. valid k'" using Cons.prems by simp
  note Cons.IH [OF Cons.prems(1) this, of s']
  ultimately show ?case using op s' by auto
qed simp

end

locale checkpoint_durable = checkpoint_safe +
  assumes own_new: "valid k \<Longrightarrow> save e s k n = (s', True) \<Longrightarrow> load s' k = Some n"
begin

lemma last_success_loaded:
  assumes "valid k" "save e s k n = (s', True)" "\<forall>(e, k', n) \<in> set ops. valid k' \<and> k' \<noteq> k"
  shows "load (foldl (\<lambda>s (e, k', n). fst (save e s k' n)) s' ops) k = Some n"
proof -
  have "\<forall>(e, k', n) \<in> set ops. valid k'" using assms(3) by auto
  from load_after_saves [OF assms(1) this, of s'] show ?thesis
    using own_new [OF assms(1,2)] assms(3) by auto
qed

end

definition store_save :: "checkpoint_store \<Rightarrow> io_env \<Rightarrow> fs \<Rightarrow> string \<times> string \<Rightarrow> u64 \<Rightarrow> fs \<times> bool" where
  "store_save st io fs k n = (case checkpoint_Save io st fs (fst k) (snd k) n of (fs', e) \<Rightarrow> (fs', e = None))"

definition disk_load :: "(bytes \<Rightarrow> u64 result) \<Rightarrow> checkpoint_store \<Rightarrow> fs \<Rightarrow> string \<times> string \<Rightarrow> u64 option" where
  "disk_load decode st fs k = (case checkpoint_Load decode io_ok st fs (fst k) (snd k) of
     Inl _ \<Rightarrow> None | Inr n \<Rightarrow> Some n)"

definition safe_key :: "string \<times> string \<Rightarrow> bool" where
  "safe_key k = (path_safe (fst k) \<and> path_safe (snd k))"

lemma file_Save_cases:
  assumes "file_Save io root fs t c n = (fs', err)" "root \<noteq> []"
  shows "(err = None \<and> fs' (checkpoint_path root t c) =
            Some (CheckpointJSON \<lparr> cf_TenantID = t, cf_ClusterID = c, cf_PersistedThrough = n \<rparr>)
          \<or> err \<noteq> None \<and> fs' (checkpoint_path root t c) = fs (checkpoint_path root t c))"
    and "p \<noteq> checkpoint_path root t c \<Longrightarrow> p \<noteq> checkpoint_path root t c @ ''.tmp'' \<Longrightarrow> fs' p = fs p"
  using assms temp_not_checkpoint [OF assms(2), of t c t c]
  by (auto simp: file_Save_def os_WriteFile_def os_Rename_def Let_def split: option.splits)

lemma file_Save_other:
  assumes "file_Save io root fs t c n = (fs', err)" "root \<noteq> []" "safe_key (t, c)" "safe_key (t', c')" "(t', c') \<noteq> (t, c)"
  shows "fs' (checkpoint_path root t' c') = fs (checkpoint_path root t' c')"
proof (rule file_Save_cases(2) [OF assms(1,2)])
  show "checkpoint_path root t' c' \<noteq> checkpoint_path root t c"
    using checkpoint_path_inject [OF assms(2)] assms(3,4,5) by (auto simp: safe_key_def)
  show "checkpoint_path root t' c' \<noteq> checkpoint_path root t c @ ''.tmp''"
    using temp_not_checkpoint [OF assms(2)] by metis
qed

lemma disk_load_cong:
  "fs' (checkpoint_path root t c) = fs (checkpoint_path root t c) \<Longrightarrow>
   disk_load decode (FileCheckpointStore root) fs' (t, c) = disk_load decode (FileCheckpointStore root) fs (t, c)"
  by (simp add: disk_load_def checkpoint_Load_def file_Load_def io_ok_def)

lemma disk_load_json:
  "fs (checkpoint_path root t c) = Some (CheckpointJSON f) \<Longrightarrow>
   disk_load decode (FileCheckpointStore root) fs (t, c) = Some (cf_PersistedThrough f)"
  by (simp add: disk_load_def checkpoint_Load_def file_Load_def io_ok_def)

text \<open>The root of a file store is never empty: its constructor refuses that.\<close>

definition rooted_store :: "checkpoint_store \<Rightarrow> bool" where
  "rooted_store st = (case st of MemoryCheckpointStore \<Rightarrow> True | FileCheckpointStore root \<Rightarrow> root \<noteq> [])"

lemma NewFileCheckpointStore_rooted: "NewFileCheckpointStore io root = Inr st \<Longrightarrow> rooted_store st"
  by (auto simp: NewFileCheckpointStore_def rooted_store_def Let_def split: if_splits option.splits)

definition rooted_save :: "checkpoint_store \<Rightarrow> io_env \<Rightarrow> fs \<Rightarrow> string \<times> string \<Rightarrow> u64 \<Rightarrow> fs \<times> bool" where
  "rooted_save st io fs k n = (if rooted_store st then store_save st io fs k n else (fs, False))"

interpretation ckpt: checkpoint_safe safe_key "disk_load decode st" "rooted_save st" for decode st
proof
  fix k k' :: "string \<times> string" and io fs n fs' ok
  assume k: "safe_key k" "safe_key k'" "k' \<noteq> k" and save: "rooted_save st io fs k n = (fs', ok)"
  show "disk_load decode st fs' k' = disk_load decode st fs k'"
  proof (cases st)
    case (FileCheckpointStore root)
    show ?thesis
    proof (cases "root = []")
      case False
      then obtain err where "file_Save io root fs (fst k) (snd k) n = (fs', err)"
        using save FileCheckpointStore
        by (auto simp: rooted_save_def rooted_store_def store_save_def checkpoint_Save_def split: prod.splits)
      from file_Save_other [OF this False] k have
        "fs' (checkpoint_path root (fst k') (snd k')) = fs (checkpoint_path root (fst k') (snd k'))"
        by (metis prod.collapse)
      then show ?thesis
        using disk_load_cong [of fs' root "fst k'" "snd k'" fs decode] FileCheckpointStore by simp
    qed (use save FileCheckpointStore in \<open>simp add: rooted_save_def rooted_store_def\<close>)
  qed (simp add: disk_load_def checkpoint_Load_def)
next
  fix k :: "string \<times> string" and io fs n fs' ok
  assume k: "safe_key k" and save: "rooted_save st io fs k n = (fs', ok)"
  show "disk_load decode st fs' k = disk_load decode st fs k \<or> disk_load decode st fs' k = Some n"
  proof (cases st)
    case (FileCheckpointStore root)
    show ?thesis
    proof (cases "root = []")
      case False
      then obtain err where s: "file_Save io root fs (fst k) (snd k) n = (fs', err)"
        using save FileCheckpointStore
        by (auto simp: rooted_save_def rooted_store_def store_save_def checkpoint_Save_def split: prod.splits)
      show ?thesis
        using file_Save_cases(1) [OF s False] FileCheckpointStore
          disk_load_cong [of fs' root "fst k" "snd k" fs decode] disk_load_json [of fs' root "fst k" "snd k"]
        by auto
    qed (use save FileCheckpointStore in \<open>simp add: rooted_save_def rooted_store_def\<close>)
  qed (simp add: disk_load_def checkpoint_Load_def)
qed

interpretation disk: checkpoint_durable safe_key "disk_load decode (FileCheckpointStore root)"
  "rooted_save (FileCheckpointStore root)" for decode root
proof
  fix k :: "string \<times> string" and io fs n fs'
  assume k: "safe_key k" and save: "rooted_save (FileCheckpointStore root) io fs k n = (fs', True)"
  then have root: "root \<noteq> []" by (auto simp: rooted_save_def rooted_store_def split: if_splits)
  with save obtain s: "file_Save io root fs (fst k) (snd k) n = (fs', None)"
    by (auto simp: rooted_save_def rooted_store_def store_save_def checkpoint_Save_def split: prod.splits)
  show "disk_load decode (FileCheckpointStore root) fs' k = Some n"
    using file_Save_cases(1) [OF s root] disk_load_json [of fs' root "fst k" "snd k"] by auto
qed

section \<open>Properties\<close>

text \<open>C25: Saving a checkpoint is atomic.  Whatever system call fails, an attempt to save leaves the
  cluster's checkpoint readable, at its old value or, when the save reports
  success, at the new one; the checkpoint of every other cluster is unchanged.  The temporary file
  never is a cluster's checkpoint.  Tenant and cluster identifiers are assumed to
  be directory names that sanitising leaves alone.\<close>

theorem checkpoint_save_atomic:
  assumes "root \<noteq> []" "safe_key (t, c)" "checkpoint_Save io (FileCheckpointStore root) fs t c n = (fs', err)"
  shows "disk_load decode (FileCheckpointStore root) fs' (t, c) =
           (if err = None then Some n else disk_load decode (FileCheckpointStore root) fs (t, c))
     \<and> (\<forall>t' c'. safe_key (t', c') \<and> (t', c') \<noteq> (t, c) \<longrightarrow>
           disk_load decode (FileCheckpointStore root) fs' (t', c') = disk_load decode (FileCheckpointStore root) fs (t', c'))"
proof -
  have s: "file_Save io root fs t c n = (fs', err)" using assms(3) by (simp add: checkpoint_Save_def)
  have own: "disk_load decode (FileCheckpointStore root) fs' (t, c) =
      (if err = None then Some n else disk_load decode (FileCheckpointStore root) fs (t, c))"
    using file_Save_cases(1) [OF s assms(1)] disk_load_cong [of fs' root t c fs decode]
      disk_load_json [of fs' root t c] by auto
  show ?thesis
    using own file_Save_other [OF s assms(1,2)] by (auto intro!: disk_load_cong simp del: split_paired_All)
qed

lemma path_safe_sample: "safe_key (''t'', ''c'')" "safe_key (''u'', ''c'')"
  by (simp_all add: safe_key_def path_safe_def TrimSpace_printable printable_def ascii_space_def wide_spaces_def replaced_chars_def)

lemma save_sample:
  obtains fs' where "checkpoint_Save io_ok (FileCheckpointStore ''/d'') Map.empty ''t'' ''c'' 7 = (fs', None)"
  by (simp add: checkpoint_Save_def file_Save_def io_ok_def os_WriteFile_def os_Rename_def Let_def)

theorem checkpoint_save_atomic_witness:
  "\<exists>fs'. checkpoint_Save io_ok (FileCheckpointStore ''/d'') Map.empty ''t'' ''c'' 7 = (fs', None)
     \<and> disk_load Inl (FileCheckpointStore ''/d'') fs' (''t'', ''c'') = Some 7
     \<and> disk_load Inl (FileCheckpointStore ''/d'') fs' (''u'', ''c'') = disk_load Inl (FileCheckpointStore ''/d'') Map.empty (''u'', ''c'')"
proof -
  obtain fs' where s: "checkpoint_Save io_ok (FileCheckpointStore ''/d'') Map.empty ''t'' ''c'' 7 = (fs', None)"
    by (rule save_sample)
  show ?thesis
    using s path_safe_sample(2) checkpoint_save_atomic [OF _ path_safe_sample(1) s, of Inl] by auto
qed

text \<open>The saved value survives: after a save that reports success, any sequence of save attempts for
  other clusters, failing or not, leaves the cluster's checkpoint at the saved value.\<close>

theorem checkpoint_survives:
  assumes "safe_key k" "rooted_save (FileCheckpointStore root) io fs k n = (fs', True)"
    "\<forall>(io', k', n') \<in> set ops. safe_key k' \<and> k' \<noteq> k"
  shows "disk_load decode (FileCheckpointStore root)
    (foldl (\<lambda>fs (io', k', n'). fst (rooted_save (FileCheckpointStore root) io' fs k' n')) fs' ops) k = Some n"
  by (rule disk.last_success_loaded [OF assms])

theorem checkpoint_survives_witness:
  "\<exists>fs'. disk_load Inl (FileCheckpointStore ''/d'')
    (foldl (\<lambda>fs (io', k', n'). fst (rooted_save (FileCheckpointStore ''/d'') io' fs k' n')) fs'
       [(io_ok\<lparr> io_renameErr := Some ''x'' \<rparr>, (''u'', ''c''), 3), (io_ok, (''u'', ''c''), 9)]) (''t'', ''c'') = Some 7"
proof -
  let ?ops = "[(io_ok\<lparr> io_renameErr := Some ''x'' \<rparr>, (''u'', ''c''), 3), (io_ok, (''u'', ''c''), 9)]"
  obtain fs' where "checkpoint_Save io_ok (FileCheckpointStore ''/d'') Map.empty ''t'' ''c'' 7 = (fs', None)"
    by (rule save_sample)
  then have "rooted_save (FileCheckpointStore ''/d'') io_ok Map.empty (''t'', ''c'') 7 = (fs', True)"
    by (simp add: rooted_save_def rooted_store_def store_save_def)
  from checkpoint_survives [OF path_safe_sample(1) this, of ?ops Inl] path_safe_sample(2) show ?thesis
    by (intro exI [of _ fs']) simp
qed


end
