(* ===== verification/Ingestion_Auth.thy ===== *)
theory Ingestion_Auth
  imports Agent_Proto Go_Crypto Go_Path
begin

text \<open>
  Authentication of agent streams (\<^verbatim>\<open>services/ingestion/server/auth.go\<close>): the
  identity of the verified client certificate, taken from its first URI SAN of
  the form \<^verbatim>\<open>spiffe://kube-cost/tenant/{tenant}/cluster/{cluster}\<close>, must be the one
  the hello claims.  The escaping rules of \<^verbatim>\<open>net/url\<close> are modelled on bytes.
\<close>

section \<open>Percent encoding of \<^verbatim>\<open>net/url\<close>\<close>

definition alnum :: "char \<Rightarrow> bool" where
  "alnum c = (let n = of_char c :: nat in 48 \<le> n \<and> n \<le> 57 \<or> 65 \<le> n \<and> n \<le> 90 \<or> 97 \<le> n \<and> n \<le> 122)"

text \<open>\<^verbatim>\<open>shouldEscape\<close> in the modes \<^verbatim>\<open>encodePath\<close> and \<^verbatim>\<open>encodePathSegment\<close>.\<close>

definition escape_path :: "char \<Rightarrow> bool" where
  "escape_path c = (\<not> alnum c \<and> c \<notin> set ''-_.~$&+,/:;=@'')"

definition escape_segment :: "char \<Rightarrow> bool" where
  "escape_segment c = (\<not> alnum c \<and> c \<notin> set ''-_.~$&+:=@'')"

definition upper_hex :: "nat \<Rightarrow> char" where
  "upper_hex d = (if d < 10 then char_of (48 + d) else char_of (55 + d))"

definition url_escape :: "(char \<Rightarrow> bool) \<Rightarrow> string \<Rightarrow> string" where
  "url_escape esc s = concat (map (\<lambda>c. if esc c
     then [CHR ''%'', upper_hex (of_char c div 16), upper_hex (of_char c mod 16)] else [c]) s)"

fun url_unescape :: "string \<Rightarrow> string option" where
  "url_unescape [] = Some []"
| "url_unescape (c # s) =
     (if c = CHR ''%'' then
        (case s of
           a # b # t \<Rightarrow>
             (case (hex_value a, hex_value b) of
                (Some x, Some y) \<Rightarrow> map_option ((#) (char_of (16 * x + y))) (url_unescape t)
              | _ \<Rightarrow> None)
         | _ \<Rightarrow> None)
      else map_option ((#) c) (url_unescape s))"

definition valid_encoded :: "string \<Rightarrow> bool" where
  "valid_encoded s = (\<forall>c \<in> set s.
     c \<in> set ''!$&()*+,;=:@[]%'' \<or> c = CHR 0x27 \<or> \<not> escape_path c)"

record url =
  url_Scheme :: string
  url_Host :: string
  url_Path :: string
  url_RawPath :: string

definition EscapedPath :: "url \<Rightarrow> string" where
  "EscapedPath u =
     (if url_RawPath u \<noteq> [] \<and> valid_encoded (url_RawPath u) \<and> url_unescape (url_RawPath u) = Some (url_Path u)
      then url_RawPath u
      else if url_Path u = ''*'' then ''*''
      else url_escape escape_path (url_Path u))"

section \<open>Certificates and authenticators\<close>

definition identityTrustDomain :: string where
  "identityTrustDomain = ''kube-cost''"

definition parseIdentityURI :: "url option \<Rightarrow> (string \<times> string) option" where
  "parseIdentityURI uri = (case uri of
       None \<Rightarrow> None
     | Some u \<Rightarrow>
         if url_Scheme u \<noteq> ''spiffe'' \<or> url_Host u \<noteq> identityTrustDomain then None
         else
           let parts = Split1 (CHR ''/'') (Trim1 (CHR ''/'') (EscapedPath u)) in
           if length parts \<noteq> 4 \<or> parts ! 0 \<noteq> ''tenant'' \<or> parts ! 2 \<noteq> ''cluster'' then None
           else case url_unescape (parts ! 1) of
             None \<Rightarrow> None
           | Some tenantID \<Rightarrow>
               if tenantID = [] then None
               else case url_unescape (parts ! 3) of
                 None \<Rightarrow> None
               | Some clusterID \<Rightarrow> if clusterID = [] then None else Some (tenantID, clusterID))"

record certificate =
  cert_URIs :: "url option list"

fun certificateIdentity :: "url option list \<Rightarrow> (string \<times> string) result" where
  "certificateIdentity [] = Inl (''client certificate must contain a spiffe://'' @ identityTrustDomain
     @ ''/tenant/{tenant}/cluster/{cluster} URI SAN'')"
| "certificateIdentity (uri # uris) = (case parseIdentityURI uri of
       Some p \<Rightarrow> Inr p
     | None \<Rightarrow> certificateIdentity uris)"

record tls_info =
  tls_VerifiedChains :: "certificate list list"
  tls_PeerCertificates :: "certificate list"

text \<open>What the transport tells the handler: no peer at all, a peer without TLS, or TLS state.\<close>

datatype peer = NoPeer | PlainPeer | TLSPeer tls_info

definition mtls_Authenticate :: "peer \<Rightarrow> agent_hello \<Rightarrow> error option" where
  "mtls_Authenticate p hello = (case p of
       NoPeer \<Rightarrow> Some ''transport peer information is missing''
     | PlainPeer \<Rightarrow> Some ''verified client certificate is required''
     | TLSPeer t \<Rightarrow>
         if tls_VerifiedChains t = [] then Some ''verified client certificate is required''
         else case tls_PeerCertificates t of
           [] \<Rightarrow> Some ''verified client certificate is required''
         | cert # _ \<Rightarrow>
             (case certificateIdentity (cert_URIs cert) of
                Inl e \<Rightarrow> Some e
              | Inr (tenantID, clusterID) \<Rightarrow>
                  if tenantID \<noteq> ah_tenant_id hello \<or> clusterID \<noteq> ah_cluster_id hello
                  then Some ''certificate identity does not match hello tenant and cluster''
                  else None))"

definition insecure_Authenticate :: "agent_hello \<Rightarrow> error option" where
  "insecure_Authenticate hello =
     (if TrimSpace (ah_tenant_id hello) = [] \<or> TrimSpace (ah_cluster_id hello) = []
      then Some ''tenant_id and cluster_id are required'' else None)"

datatype authenticator = MTLSAuthenticator | InsecureAuthenticator

definition Authenticate :: "authenticator \<Rightarrow> peer \<Rightarrow> agent_hello \<Rightarrow> error option" where
  "Authenticate a p hello = (case a of
       MTLSAuthenticator \<Rightarrow> mtls_Authenticate p hello
     | InsecureAuthenticator \<Rightarrow> insecure_Authenticate hello)"

section \<open>Lemmas\<close>

lemma of_char_less: "(of_char c :: nat) < 256"
  by (metis of_char_mod_256 mod_less_divisor zero_less_numeral)

lemma hex_value_upper: "d < 16 \<Longrightarrow> hex_value (upper_hex d) = Some d"
  by (auto simp: hex_value_def upper_hex_def of_char_of take_bit_nat_eq_self)

lemma upper_hex_alnum: "d < 16 \<Longrightarrow> alnum (upper_hex d)"
  by (auto simp: alnum_def upper_hex_def of_char_of take_bit_nat_eq_self Let_def)

lemma url_escape_simps [simp]:
  "url_escape esc [] = []"
  "url_escape esc (c # s) = (if esc c
     then [CHR ''%'', upper_hex (of_char c div 16), upper_hex (of_char c mod 16)] else [c]) @ url_escape esc s"
  by (simp_all add: url_escape_def)

lemma url_unescape_plain [simp]: "c \<noteq> CHR ''%'' \<Longrightarrow> url_unescape (c # s) = map_option ((#) c) (url_unescape s)"
  by simp

lemma url_unescape_hex [simp]:
  "hex_value a = Some x \<Longrightarrow> hex_value b = Some y \<Longrightarrow>
   url_unescape (CHR ''%'' # a # b # t) = map_option ((#) (char_of (16 * x + y))) (url_unescape t)"
  by simp

declare url_unescape.simps(2) [simp del]

lemma unescape_escape:
  assumes "esc (CHR ''%'')"
  shows "url_unescape (url_escape esc s) = Some s"
proof (induction s)
  case (Cons c s)
  have d: "(of_char c :: nat) div 16 < 16" "(of_char c :: nat) mod 16 < 16" using of_char_less [of c] by linarith+
  show ?case
  proof (cases "esc c")
    case True
    then show ?thesis using Cons d by (simp add: hex_value_upper)
  next
    case False
    then have "c \<noteq> CHR ''%''" using assms by metis
    then show ?thesis using Cons False by simp
  qed
qed simp

lemma alnum_not_escaped: "alnum x \<Longrightarrow> \<not> escape_segment x \<and> \<not> escape_path x"
  by (simp add: escape_segment_def escape_path_def)

lemma escape_path_segment: "escape_path x \<Longrightarrow> escape_segment x"
  by (simp add: escape_path_def escape_segment_def)

lemma escape_segment_chars:
  "x \<in> set (url_escape escape_segment s) \<Longrightarrow> x = CHR ''%'' \<or> \<not> escape_segment x"
proof (induction s)
  case (Cons c s)
  have "(of_char c :: nat) div 16 < 16" "(of_char c :: nat) mod 16 < 16" using of_char_less [of c] by linarith+
  then have "\<not> escape_segment (upper_hex (of_char c div 16))" "\<not> escape_segment (upper_hex (of_char c mod 16))"
    by (simp_all add: alnum_not_escaped upper_hex_alnum)
  with Cons show ?case by (cases "escape_segment c") auto
qed simp

lemma escape_segment_no_slash: "CHR ''/'' \<notin> set (url_escape escape_segment s)"
  using escape_segment_chars [of "CHR ''/''" s] by (auto simp: escape_segment_def alnum_def)

lemma url_escape_nonempty: "s \<noteq> [] \<Longrightarrow> url_escape esc s \<noteq> []"
  by (cases s) auto

lemma dropWhile_hd: "s \<noteq> [] \<Longrightarrow> hd s \<noteq> c \<Longrightarrow> dropWhile (\<lambda>x. x = c) s = s"
  by (cases s) auto

lemma Trim1_ends:
  "s \<noteq> [] \<Longrightarrow> hd s \<noteq> c \<Longrightarrow> last s \<noteq> c \<Longrightarrow> Trim1 c (c # s) = s"
  by (simp add: Trim1_def dropWhile_hd hd_rev)

text \<open>The raw path of the URI SAN the documentation prescribes.\<close>

definition identity_path :: "string \<Rightarrow> string \<Rightarrow> string" where
  "identity_path t c = ''/tenant/'' @ url_escape escape_segment t @ ''/cluster/'' @ url_escape escape_segment c"

definition identity_uri :: "string \<Rightarrow> string \<Rightarrow> url" where
  "identity_uri t c = \<lparr> url_Scheme = ''spiffe'', url_Host = ''kube-cost'',
     url_Path = ''/tenant/'' @ t @ ''/cluster/'' @ c, url_RawPath = identity_path t c \<rparr>"

lemma unescape_append:
  "CHR ''%'' \<notin> set p \<Longrightarrow> url_unescape (p @ s) = map_option ((@) p) (url_unescape s)"
proof (induction p)
  case Nil
  then show ?case by (cases "url_unescape s") simp_all
next
  case (Cons a p)
  then have "a \<noteq> CHR ''%''" by auto
  with Cons have "url_unescape ((a # p) @ s) = map_option ((#) a) (map_option ((@) p) (url_unescape s))" by simp
  then show ?case by (simp add: option.map_comp comp_def)
qed

lemma unescape_escape_append:
  assumes "esc (CHR ''%'')"
  shows "url_unescape (url_escape esc t @ s) = map_option ((@) t) (url_unescape s)"
proof (induction t)
  case (Cons c t)
  have d: "(of_char c :: nat) div 16 < 16" "(of_char c :: nat) mod 16 < 16" using of_char_less [of c] by linarith+
  show ?case
  proof (cases "esc c")
    case True
    then show ?thesis using Cons d by (cases "url_unescape s") (simp_all add: hex_value_upper)
  next
    case False
    then have "c \<noteq> CHR ''%''" using assms by metis
    then show ?thesis using Cons False by (cases "url_unescape s") simp_all
  qed
qed (cases "url_unescape s"; simp)

lemma escape_segment_percent [simp]: "escape_segment (CHR ''%'')"
  by (simp add: escape_segment_def alnum_def)

lemma identity_path_unescape: "url_unescape (identity_path t c) = Some (''/tenant/'' @ t @ ''/cluster/'' @ c)"
proof -
  have "url_unescape (identity_path t c) = map_option ((@) ''/tenant/'')
    (map_option ((@) t) (map_option ((@) ''/cluster/'') (url_unescape (url_escape escape_segment c))))"
    unfolding identity_path_def
    by (subst unescape_append, simp, subst unescape_escape_append, simp, subst unescape_append, simp, simp)
  then show ?thesis by (simp add: unescape_escape)
qed

lemma valid_encoded_append [simp]: "valid_encoded (a @ b) = (valid_encoded a \<and> valid_encoded b)"
  by (simp only: valid_encoded_def set_append ball_Un)

lemma valid_encoded_segment: "valid_encoded (url_escape escape_segment s)"
  unfolding valid_encoded_def
proof
  fix x assume "x \<in> set (url_escape escape_segment s)"
  then have "x = CHR ''%'' \<or> \<not> escape_segment x" by (rule escape_segment_chars)
  then show "x \<in> set ''!$&()*+,;=:@[]%'' \<or> x = CHR 0x27 \<or> \<not> escape_path x"
  proof
    assume "x = CHR ''%''"
    then show ?thesis by simp
  next
    assume "\<not> escape_segment x"
    then have "\<not> escape_path x" using escape_path_segment by metis
    then show ?thesis by (rule disjI2 [OF disjI2])
  qed
qed

lemma identity_path_valid: "valid_encoded (identity_path t c)"
proof -
  have "valid_encoded ''/tenant/''" "valid_encoded ''/cluster/''"
    by (simp_all add: valid_encoded_def escape_path_def alnum_def)
  then show ?thesis using valid_encoded_segment by (simp only: identity_path_def valid_encoded_append simp_thms)
qed

lemma EscapedPath_identity: "EscapedPath (identity_uri t c) = identity_path t c"
  by (simp add: EscapedPath_def identity_uri_def identity_path_valid identity_path_unescape)
    (simp add: identity_path_def)

lemma identity_parts:
  assumes "c \<noteq> []"
  shows "Split1 (CHR ''/'') (Trim1 (CHR ''/'') (identity_path t c)) =
    [''tenant'', url_escape escape_segment t, ''cluster'', url_escape escape_segment c]"
proof -
  let ?r = "''tenant'' @ CHR ''/'' # url_escape escape_segment t @ CHR ''/'' # ''cluster'' @ CHR ''/'' # url_escape escape_segment c"
  have last: "last ?r \<noteq> CHR ''/''"
    using url_escape_nonempty [OF assms, of escape_segment] escape_segment_no_slash [of c]
    by (simp) (metis last_in_set)
  have "Trim1 (CHR ''/'') (identity_path t c) = ?r"
    using Trim1_ends [of ?r "CHR ''/''"] last by (simp add: identity_path_def)
  then show ?thesis
    using escape_segment_no_slash by (simp only: Split1_append_sep) simp
qed

section \<open>Properties\<close>

text \<open>C27: Parsing the identity URI inverts building it: for every non-empty tenant and cluster, whatever
  bytes they contain, the URI whose path segments are their percent-encodings
  yields exactly that pair.\<close>

theorem identity_uri_roundtrip:
  assumes "t \<noteq> []" "c \<noteq> []"
  shows "parseIdentityURI (Some (identity_uri t c)) = Some (t, c)"
proof -
  have "url_Scheme (identity_uri t c) = ''spiffe''" "url_Host (identity_uri t c) = identityTrustDomain"
    by (simp_all add: identity_uri_def identityTrustDomain_def)
  then show ?thesis
    using assms by (simp add: parseIdentityURI_def EscapedPath_identity identity_parts unescape_escape Let_def)
qed

theorem identity_uri_roundtrip_witness:
  "parseIdentityURI (Some (identity_uri ''acme/eu'' ''prod 1'')) = Some (''acme/eu'', ''prod 1'')"
  using identity_uri_roundtrip [of "''acme/eu''" "''prod 1''"] by simp

lemma parseIdentityURI_nonempty: "parseIdentityURI u = Some (t, c) \<Longrightarrow> t \<noteq> [] \<and> c \<noteq> []"
  by (auto simp: parseIdentityURI_def Let_def split: option.splits if_splits)

lemma certificateIdentity_nonempty: "certificateIdentity us = Inr (t, c) \<Longrightarrow> t \<noteq> [] \<and> c \<noteq> []"
  by (induction us) (auto split: option.splits dest: parseIdentityURI_nonempty)

lemma mtls_AuthenticateE:
  assumes "mtls_Authenticate p hello = None"
  obtains t cert certs where "p = TLSPeer t" "tls_PeerCertificates t = cert # certs" "tls_VerifiedChains t \<noteq> []"
    "certificateIdentity (cert_URIs cert) = Inr (ah_tenant_id hello, ah_cluster_id hello)"
  using assms
  by (auto simp: mtls_Authenticate_def split: peer.splits list.splits sum.splits prod.splits if_splits)


definition sample_hello :: agent_hello where
  "sample_hello = \<lparr> ah_tenant_id = ''t'', ah_cluster_id = ''c'', ah_agent_instance_id = ''a'', ah_agent_version = [],
     ah_kubernetes_version = [], ah_supported_protocol_versions = [Some \<lparr> pv_major = 1, pv_minor = 0 \<rparr>],
     ah_capabilities = [], ah_resume_after_sequence = 0, ah_configuration_revision = [] \<rparr>"


end
