(* ===== verification/Ingestion_Server.thy ===== *)
theory Ingestion_Server
  imports Ingestion_Queue Ingestion_Files Ingestion_Auth
begin

text \<open>
  The stream server (\<^verbatim>\<open>services/ingestion/server/server.go\<close>): validation of hellos
  and batches, the acknowledgement protocol, the one-stream-per-cluster table and
  the batch handler.

  The protobuf runtime is a parameter: the record \<^verbatim>\<open>codec\<close> carries the size and the
  deterministic encoding of messages.  A stream collects the frames sent; each
  send may fail.  The handler of a batch holds the cluster's mutex from the
  duplicate check to its end but leaves the queue to others between looking at
  its depth, enqueueing and waiting for persistence, so it is split at these
  points into \<^verbatim>\<open>hb_admit\<close>, \<^verbatim>\<open>hb_archive\<close>, \<^verbatim>\<open>hb_enqueue\<close> and \<^verbatim>\<open>hb_finish\<close>;
  \<^verbatim>\<open>handleBatch\<close> runs them in sequence.
\<close>

section \<open>Configuration and state\<close>

record server_config =
  sc_MaxBatchRecords :: u32
  sc_MaxBatchBytes :: u64
  sc_HeartbeatInterval :: duration
  sc_BackpressureDelay :: duration
  sc_HighWatermarkPercent :: int

record codec =
  cd_size :: "observation_batch \<Rightarrow> nat"
  cd_marshal :: "observation option \<Rightarrow> bytes option"
  cd_marshal_batch :: "observation_batch \<Rightarrow> bytes result"

record clusterState =
  cs_persistedThrough :: u64
  cs_loaded :: bool

record server =
  sv_config :: server_config
  sv_authenticator :: authenticator
  sv_archiver :: archiver
  sv_checkpoints :: checkpoint_store
  sv_clusters :: "string \<Rightarrow> clusterState option"
  sv_active :: "string \<Rightarrow> string option"

datatype server_option = WithArchiver "archiver option" | WithCheckpointStore "checkpoint_store option"

fun apply_option :: "server_option option \<Rightarrow> archiver \<times> checkpoint_store \<Rightarrow> archiver \<times> checkpoint_store" where
  "apply_option None ac = ac"
| "apply_option (Some (WithArchiver a)) (ar, ck) = (case a of None \<Rightarrow> ar | Some a' \<Rightarrow> a', ck)"
| "apply_option (Some (WithCheckpointStore c)) (ar, ck) = (ar, case c of None \<Rightarrow> ck | Some c' \<Rightarrow> c')"

definition normalize_server_config :: "server_config \<Rightarrow> server_config" where
  "normalize_server_config c =
     \<lparr> sc_MaxBatchRecords = (if sc_MaxBatchRecords c = 0 then 500 else sc_MaxBatchRecords c),
       sc_MaxBatchBytes = (if sc_MaxBatchBytes c = 0 then 4 * 2 ^ 20 else sc_MaxBatchBytes c),
       sc_HeartbeatInterval = (if sc_HeartbeatInterval c \<le> 0 then 30 * Second else sc_HeartbeatInterval c),
       sc_BackpressureDelay = (if sc_BackpressureDelay c \<le> 0 then Second else sc_BackpressureDelay c),
       sc_HighWatermarkPercent =
         (if sc_HighWatermarkPercent c \<le> 0 \<or> sc_HighWatermarkPercent c > 100 then 80
          else sc_HighWatermarkPercent c) \<rparr>"

definition server_New :: "server_config \<Rightarrow> authenticator \<Rightarrow> server_option option list \<Rightarrow> server" where
  "server_New config auth options =
     (case fold apply_option options (NoopArchiver, MemoryCheckpointStore) of
        (ar, ck) \<Rightarrow>
          \<lparr> sv_config = normalize_server_config config, sv_authenticator = auth, sv_archiver = ar,
            sv_checkpoints = ck, sv_clusters = Map.empty, sv_active = Map.empty \<rparr>)"

section \<open>Validation\<close>

definition validateHello :: "agent_hello \<Rightarrow> error option" where
  "validateHello hello =
     (if ah_tenant_id hello = [] then Some ''tenant_id is required''
      else if ah_cluster_id hello = [] then Some ''cluster_id is required''
      else if ah_agent_instance_id hello = [] then Some ''agent_instance_id is required''
      else None)"

definition validateInventoryRecord :: "inventory_record option \<Rightarrow> error option" where
  "validateInventoryRecord r = (case getf ir_operation OPERATION_UNSPECIFIED r of
       UPSERT \<Rightarrow> None
     | DELETE \<Rightarrow> None
     | _ \<Rightarrow> Some ''inventory operation is required'')"

definition record_then :: "inventory_record option \<Rightarrow> bool \<Rightarrow> error \<Rightarrow> error option" where
  "record_then r missing e = (case validateInventoryRecord r of
       Some err \<Rightarrow> Some err
     | None \<Rightarrow> if missing then Some e else None)"

definition validateInventoryObservation :: "observation option \<Rightarrow> error option" where
  "validateInventoryObservation ob = (case getP ob_payload ob of
       Some (ClusterInventory p) \<Rightarrow> validateInventoryRecord (getP ci_record p)
     | Some (NodeInventory p) \<Rightarrow>
         record_then (getP ni_record p) (getS om_uid (getP ni_metadata p) = []) ''node UID is required''
     | Some (NamespaceInventory p) \<Rightarrow>
         record_then (getP nsi_record p) (getS om_uid (getP nsi_metadata p) = []) ''namespace UID is required''
     | Some (DeploymentInventory p) \<Rightarrow>
         record_then (getP di_record p) (getS om_uid (getP di_metadata p) = []) ''deployment UID is required''
     | Some (PodInventory p) \<Rightarrow>
         record_then (getP pi_record p) (getS om_uid (getP pi_metadata p) = []) ''pod UID is required''
     | Some (ContainerInventory p) \<Rightarrow>
         record_then (getP coi_record p) (getS coi_pod_uid p = [] \<or> getS coi_container_name p = [])
           ''container pod UID and name are required''
     | _ \<Rightarrow> None)"

definition batchChecksum :: "codec \<Rightarrow> observation option list \<Rightarrow> bytes" where
  "batchChecksum cd obs = sha256 (concat (List.map_filter (cd_marshal cd) obs))"

definition dec :: "'a::len word \<Rightarrow> string" where
  "dec w = itoa (unat w)"

fun validateObservations :: "u64 \<Rightarrow> observation option list \<Rightarrow> error option" where
  "validateObservations expected [] = None"
| "validateObservations expected (ob # obs) =
     (if getN ob_sequence ob \<noteq> expected
      then Some (''observation sequence '' @ dec (getN ob_sequence ob) @ '' is not expected sequence '' @ dec expected)
      else if getS ob_event_id ob = [] then Some (''observation '' @ dec expected @ '' has no event_id'')
      else if getP ob_payload ob = None then Some (''observation '' @ dec expected @ '' has no payload'')
      else case validateInventoryObservation ob of
        Some e \<Rightarrow> Some (''observation '' @ dec expected @ '': '' @ e)
      | None \<Rightarrow> validateObservations (expected + 1) obs)"

definition validateBatch :: "codec \<Rightarrow> server_config \<Rightarrow> observation_batch \<Rightarrow> error option" where
  "validateBatch cd config b =
     (if bt_batch_id b = [] then Some ''batch_id is required''
      else if length (bt_observations b) = 0 then Some ''batch must contain observations''
      else if (of_nat (length (bt_observations b)) :: u32) > sc_MaxBatchRecords config
      then Some (''batch contains '' @ itoa (length (bt_observations b)) @ '' records; maximum is ''
                 @ dec (sc_MaxBatchRecords config))
      else if (of_nat (cd_size cd b) :: u64) > sc_MaxBatchBytes config
      then Some (''batch size exceeds maximum of '' @ dec (sc_MaxBatchBytes config) @ '' bytes'')
      else if bt_first_sequence b = 0 \<or> bt_last_sequence b < bt_first_sequence b
      then Some ''batch sequence range is invalid''
      else if (of_nat (length (bt_observations b)) :: u64) \<noteq> bt_last_sequence b - bt_first_sequence b + 1
      then Some ''batch sequence range does not match observation count''
      else case validateObservations (bt_first_sequence b) (bt_observations b) of
        Some e \<Rightarrow> Some e
      | None \<Rightarrow>
          if bt_payload_checksum b \<noteq> batchChecksum cd (bt_observations b)
          then Some ''payload checksum does not match observations'' else None)"

definition suffixAfter :: "codec \<Rightarrow> observation_batch \<Rightarrow> u64 \<Rightarrow> observation_batch" where
  "suffixAfter cd b persisted =
     (if bt_first_sequence b > persisted then b
      else
        let offset = persisted + 1 - bt_first_sequence b;
            obs = drop (unat offset) (bt_observations b)
        in b\<lparr> bt_first_sequence := persisted + 1, bt_observations := obs,
              bt_payload_checksum := batchChecksum cd obs \<rparr>)"

fun supportsProtocol :: "protocol_version option list \<Rightarrow> bool" where
  "supportsProtocol [] = False"
| "supportsProtocol (v # vs) = (getN pv_major v = 1 \<or> supportsProtocol vs)"

section \<open>Frames\<close>

definition serverHello :: "gotime \<Rightarrow> string \<Rightarrow> u64 \<Rightarrow> server_config \<Rightarrow> server_frame" where
  "serverHello now sessionID persisted config = ServerHello
     \<lparr> sh_session_id = sessionID, sh_selected_protocol_version = Some \<lparr> pv_major = 1, pv_minor = 0 \<rparr>,
       sh_accepted_through_sequence = persisted, sh_max_batch_records = sc_MaxBatchRecords config,
       sh_max_batch_bytes = sc_MaxBatchBytes config, sh_heartbeat_interval = sc_HeartbeatInterval config,
       sh_configuration_revision = [], sh_server_time = now \<rparr>"

definition acknowledgement ::
  "gotime \<Rightarrow> string \<Rightarrow> u64 \<Rightarrow> u64 \<Rightarrow> sequence_range list \<Rightarrow> record_rejection list \<Rightarrow> server_frame" where
  "acknowledgement now batchID received persisted retry rejections = Acknowledgement
     \<lparr> ba_batch_id = batchID, ba_received_through_sequence = received,
       ba_persisted_through_sequence = persisted, ba_retry_ranges = retry,
       ba_rejections = rejections, ba_acknowledged_at = now \<rparr>"

definition flowControl :: "duration \<Rightarrow> string \<Rightarrow> server_frame" where
  "flowControl delay reason = FlowControl
     \<lparr> fc_retry_after = Some delay, fc_max_in_flight_batches = 1, fc_reason = reason \<rparr>"

definition rejectionCode :: "error option \<Rightarrow> rejection_code" where
  "rejectionCode err = (case err of
       Some e \<Rightarrow> if Contains e ''maximum'' then TOO_LARGE else INVALID_RECORD
     | None \<Rightarrow> INVALID_RECORD)"

definition rejectionsForBatch :: "observation_batch \<Rightarrow> rejection_code \<Rightarrow> string \<Rightarrow> record_rejection list" where
  "rejectionsForBatch b code detail =
     (if length (bt_observations b) = 0
      then [\<lparr> rr_sequence = bt_first_sequence b, rr_code = code, rr_detail = detail, rr_retryable = False \<rparr>]
      else map (\<lambda>ob. \<lparr> rr_sequence = getN ob_sequence ob, rr_code = code, rr_detail = detail,
                       rr_retryable = False \<rparr>) (bt_observations b))"

definition range_of :: "observation_batch \<Rightarrow> sequence_range list" where
  "range_of b = [\<lparr> sr_first_sequence = bt_first_sequence b, sr_last_sequence = bt_last_sequence b \<rparr>]"

section \<open>Streams\<close>

record stream =
  st_sent :: "server_frame list"
  st_sendErr :: "nat \<Rightarrow> error option"

definition Send :: "stream \<Rightarrow> server_frame \<Rightarrow> stream \<times> error option" where
  "Send st f = (case st_sendErr st (length (st_sent st)) of
       None \<Rightarrow> (st\<lparr> st_sent := st_sent st @ [f] \<rparr>, None)
     | Some e \<Rightarrow> (st, Some e))"

section \<open>Cluster table\<close>

definition clusterKey :: "string \<Rightarrow> string \<Rightarrow> string" where
  "clusterKey tenantID clusterID = tenantID @ [CHR 0x00] @ clusterID"

text \<open>The third component of the result is the error; on one, the table keeps the
  entry it may have made.\<close>

definition acquire ::
  "(bytes \<Rightarrow> u64 result) \<Rightarrow> io_env \<Rightarrow> fs \<Rightarrow> server \<Rightarrow> string \<Rightarrow> string \<Rightarrow> string \<Rightarrow> string
   \<Rightarrow> server \<times> (u64 \<times> bool) result" where
  "acquire decode io fs s tenantID clusterID key sessionID =
     (if sv_active s key \<noteq> None then (s, Inr (0, False))
      else
        let state = (case sv_clusters s key of
                       None \<Rightarrow> \<lparr> cs_persistedThrough = 0, cs_loaded = False \<rparr> | Some st \<Rightarrow> st) in
        if cs_loaded state
        then (s\<lparr> sv_clusters := (sv_clusters s)(key \<mapsto> state), sv_active := (sv_active s)(key \<mapsto> sessionID) \<rparr>,
              Inr (cs_persistedThrough state, True))
        else case checkpoint_Load decode io (sv_checkpoints s) fs tenantID clusterID of
            Inl e \<Rightarrow> (s\<lparr> sv_clusters := (sv_clusters s)(key \<mapsto> state) \<rparr>, Inl e)
          | Inr p \<Rightarrow>
              (s\<lparr> sv_clusters := (sv_clusters s)(key \<mapsto> \<lparr> cs_persistedThrough = p, cs_loaded = True \<rparr>),
                  sv_active := (sv_active s)(key \<mapsto> sessionID) \<rparr>, Inr (p, True)))"

definition release :: "server \<Rightarrow> string \<Rightarrow> string \<Rightarrow> server" where
  "release s key sessionID =
     (if sv_active s key = Some sessionID then s\<lparr> sv_active := (sv_active s)(key := None) \<rparr> else s)"

definition persisted :: "server \<Rightarrow> string \<Rightarrow> u64" where
  "persisted s key = (case sv_clusters s key of None \<Rightarrow> 0 | Some st \<Rightarrow> cs_persistedThrough st)"

definition highWatermark :: "server \<Rightarrow> queue \<Rightarrow> int" where
  "highWatermark s q = max 1 (Capacity q * sc_HighWatermarkPercent (sv_config s) div 100)"

section \<open>The batch handler\<close>

text \<open>How a part of the handler ends: the handler returns, it goes on with a value, or it
  dereferences the nil state of a cluster that was never acquired.\<close>

datatype 'a phase = Return "error option" | Continue 'a | Panic

definition send_return :: "stream \<Rightarrow> server_frame \<Rightarrow> stream \<times> 'a phase" where
  "send_return st f = (case Send st f of (st', e) \<Rightarrow> (st', Return e))"

text \<open>Validation, duplicate and gap: the suffix to accept, with the watermark it follows.\<close>

definition hb_admit ::
  "codec \<Rightarrow> gotime \<Rightarrow> server \<Rightarrow> string \<Rightarrow> stream \<Rightarrow> observation_batch \<Rightarrow> stream \<times> (observation_batch \<times> u64) phase" where
  "hb_admit cd now s key st b = (case validateBatch cd (sv_config s) b of
       Some err \<Rightarrow>
         (let p = persisted s key in
          send_return st (acknowledgement now (bt_batch_id b) p p []
            (rejectionsForBatch b (rejectionCode (Some err)) err)))
     | None \<Rightarrow>
         (case sv_clusters s key of
            None \<Rightarrow> (st, Panic)
          | Some state \<Rightarrow>
              (let p = cs_persistedThrough state in
               if bt_last_sequence b \<le> p
               then send_return st (acknowledgement now (bt_batch_id b) (bt_last_sequence b) p [] [])
               else if bt_first_sequence b > p + 1
               then send_return st (acknowledgement now (bt_batch_id b) (bt_last_sequence b) p
                 [\<lparr> sr_first_sequence = p + 1, sr_last_sequence = bt_first_sequence b - 1 \<rparr>] [])
               else (st, Continue (suffixAfter cd b p, p)))))"

definition retry_accepted :: "gotime \<Rightarrow> stream \<Rightarrow> observation_batch \<Rightarrow> observation_batch \<Rightarrow> u64 \<Rightarrow> stream \<times> 'a phase" where
  "retry_accepted now st b accepted p =
     send_return st (acknowledgement now (bt_batch_id b) (bt_last_sequence b) p (range_of accepted) [])"

text \<open>Flow control above the high watermark, then the raw archive; the value says whether
  flow control was sent.\<close>

definition hb_archive ::
  "codec \<Rightarrow> gotime \<Rightarrow> io_env \<Rightarrow> server \<Rightarrow> queue \<Rightarrow> fs \<Rightarrow> agent_hello \<Rightarrow> string \<Rightarrow> stream
   \<Rightarrow> observation_batch \<Rightarrow> observation_batch \<Rightarrow> u64 \<Rightarrow> stream \<times> fs \<times> bool phase" where
  "hb_archive cd now io s q fs hello sessionID st b accepted p =
     (let above = Depth q \<ge> highWatermark s q;
          (st1, sendErr) = (if above
             then Send st (flowControl (sc_BackpressureDelay (sv_config s)) ''ingestion queue is above its high watermark'')
             else (st, None))
      in case sendErr of
           Some e \<Rightarrow> (st1, fs, Return (Some e))
         | None \<Rightarrow>
             (case Archive (cd_marshal_batch cd) io (sv_archiver s) fs
                 \<lparr> ar_TenantID = ah_tenant_id hello, ar_ClusterID = ah_cluster_id hello,
                   ar_AgentInstance = ah_agent_instance_id hello, ar_SessionID = sessionID,
                   ar_ReceivedAt = now, ar_Batch = Some accepted \<rparr> of
                (fs', Some e) \<Rightarrow> (case retry_accepted now st1 b accepted p of (st2, r) \<Rightarrow> (st2, fs', r))
              | (fs', None) \<Rightarrow> (st1, fs', Continue above)))"

definition hb_enqueue ::
  "gotime \<Rightarrow> server \<Rightarrow> queue \<Rightarrow> nat \<Rightarrow> agent_hello \<Rightarrow> string \<Rightarrow> stream \<Rightarrow> observation_batch
   \<Rightarrow> observation_batch \<Rightarrow> u64 \<Rightarrow> bool \<Rightarrow> stream \<times> queue \<times> nat \<times> queue_batch phase" where
  "hb_enqueue now s q fresh hello sessionID st b accepted p flowControlSent =
     (let (queued, fresh') = EnablePersistenceNotification fresh
            \<lparr> qb_TenantID = ah_tenant_id hello, qb_ClusterID = ah_cluster_id hello,
              qb_AgentInstance = ah_agent_instance_id hello, qb_SessionID = sessionID,
              qb_ReceivedAt = now, qb_ObservationSet = Some accepted, qb_persisted = None \<rparr>
      in case TryEnqueue q (Some queued) of
           (q', None) \<Rightarrow> (st, q', fresh', Continue queued)
         | (q', Some e) \<Rightarrow>
             if e \<noteq> ErrFull then (st, q', fresh', Return (Some (''enqueue batch: '' @ e)))
             else
               let (st1, sendErr) = (if flowControlSent then (st, None)
                     else Send st (flowControl (sc_BackpressureDelay (sv_config s)) ''ingestion queue is full''))
               in case sendErr of
                    Some e' \<Rightarrow> (st1, q', fresh', Return (Some e'))
                  | None \<Rightarrow> (case retry_accepted now st1 b accepted p of (st2, r) \<Rightarrow> (st2, q', fresh', r)))"

text \<open>Which case of the select fires: the persistence notification or the stream's end.\<close>

datatype wait = WaitPersisted | WaitCancelled error

definition hb_finish ::
  "gotime \<Rightarrow> io_env \<Rightarrow> wait \<Rightarrow> server \<Rightarrow> string \<Rightarrow> fs \<Rightarrow> agent_hello \<Rightarrow> stream \<Rightarrow> observation_batch
   \<Rightarrow> observation_batch \<Rightarrow> u64 \<Rightarrow> stream \<times> server \<times> fs \<times> error option" where
  "hb_finish now io w s key fs hello st b accepted p = (case w of
       WaitCancelled e \<Rightarrow> (st, s, fs, Some e)
     | WaitPersisted \<Rightarrow>
         (case checkpoint_Save io (sv_checkpoints s) fs (ah_tenant_id hello) (ah_cluster_id hello) (bt_last_sequence b) of
            (fs', Some e) \<Rightarrow>
              (case Send st (acknowledgement now (bt_batch_id b) (bt_last_sequence b) p (range_of accepted) []) of
                 (st', err) \<Rightarrow> (st', s, fs', err))
          | (fs', None) \<Rightarrow>
              (let s' = s\<lparr> sv_clusters := (sv_clusters s)(key := map_option
                          (\<lambda>state. state\<lparr> cs_persistedThrough := bt_last_sequence b \<rparr>) (sv_clusters s key)) \<rparr>
               in case Send st (acknowledgement now (bt_batch_id b) (bt_last_sequence b) (bt_last_sequence b) [] []) of
                    (st', err) \<Rightarrow> (st', s', fs', err))))"

text \<open>The whole handler with no other goroutine between its parts; the queue worker acts
  only through the wait.\<close>

record hb_env =
  he_now :: gotime
  he_archive_io :: io_env
  he_save_io :: io_env
  he_wait :: wait

definition handleBatch ::
  "codec \<Rightarrow> hb_env \<Rightarrow> server \<Rightarrow> queue \<Rightarrow> nat \<Rightarrow> fs \<Rightarrow> string \<Rightarrow> string \<Rightarrow> agent_hello \<Rightarrow> stream
   \<Rightarrow> observation_batch \<Rightarrow> (stream \<times> server \<times> queue \<times> nat \<times> fs \<times> error option) option" where
  "handleBatch cd env s q fresh fs key sessionID hello st b =
     (case hb_admit cd (he_now env) s key st b of
        (st1, Panic) \<Rightarrow> None
      | (st1, Return e) \<Rightarrow> Some (st1, s, q, fresh, fs, e)
      | (st1, Continue (accepted, p)) \<Rightarrow>
          (case hb_archive cd (he_now env) (he_archive_io env) s q fs hello sessionID st1 b accepted p of
             (st2, fs2, Panic) \<Rightarrow> None
           | (st2, fs2, Return e) \<Rightarrow> Some (st2, s, q, fresh, fs2, e)
           | (st2, fs2, Continue sent) \<Rightarrow>
               (case hb_enqueue (he_now env) s q fresh hello sessionID st2 b accepted p sent of
                  (st3, q3, fresh3, Panic) \<Rightarrow> None
                | (st3, q3, fresh3, Return e) \<Rightarrow> Some (st3, s, q3, fresh3, fs2, e)
                | (st3, q3, fresh3, Continue queued) \<Rightarrow>
                    (case hb_finish (he_now env) (he_save_io env) (he_wait env) s key fs2 hello st3 b accepted p of
                       (st4, s4, fs4, e) \<Rightarrow> Some (st4, s4, q3, fresh3, fs4, e)))))"

section \<open>The stream handler\<close>

text \<open>What a receive yields: a frame, or the error that ends the stream; \<^const>\<open>None\<close> is
  \<^verbatim>\<open>io.EOF\<close>.\<close>

datatype recv = Frame agent_frame | RecvErr "error option"

definition receiveError :: "error option \<Rightarrow> error option" where
  "receiveError e = e"

datatype grpc_code = InvalidArgument | Unauthenticated | FailedPrecondition | Unavailable | AlreadyExists | Plain

text \<open>The handshake of \<^verbatim>\<open>Connect\<close>: it ends with a status, or leaves a session behind.\<close>

datatype handshake = Refused grpc_code error | StreamEnded "error option" | Session string string agent_hello

definition connect_open ::
  "(bytes \<Rightarrow> u64 result) \<Rightarrow> io_env \<Rightarrow> gotime \<Rightarrow> string \<Rightarrow> peer \<Rightarrow> fs \<Rightarrow> server \<Rightarrow> stream \<Rightarrow> recv
   \<Rightarrow> server \<times> stream \<times> handshake" where
  "connect_open decode io now sessionID peer fs s st first = (case first of
       RecvErr e \<Rightarrow> (s, st, StreamEnded (receiveError e))
     | Frame (AgentHello hello) \<Rightarrow>
         (case validateHello hello of
            Some e \<Rightarrow> (s, st, Refused InvalidArgument e)
          | None \<Rightarrow>
              (case Authenticate (sv_authenticator s) peer hello of
                 Some e \<Rightarrow> (s, st, Refused Unauthenticated e)
               | None \<Rightarrow>
                   if \<not> supportsProtocol (ah_supported_protocol_versions hello)
                   then (s, st, Refused FailedPrecondition ''agent does not support protocol major version 1'')
                   else
                     let key = clusterKey (ah_tenant_id hello) (ah_cluster_id hello) in
                     case acquire decode io fs s (ah_tenant_id hello) (ah_cluster_id hello) key sessionID of
                       (s1, Inl e) \<Rightarrow> (s1, st, Refused Unavailable (''load sequence checkpoint: '' @ e))
                     | (s1, Inr (p, acquired)) \<Rightarrow>
                         if \<not> acquired
                         then (s1, st, Refused AlreadyExists ''another stream is active for this tenant and cluster'')
                         else case Send st (serverHello now sessionID p (sv_config s1)) of
                             (st1, Some e) \<Rightarrow> (release s1 key sessionID, st1, Refused Unavailable (''send server hello: '' @ e))
                           | (st1, None) \<Rightarrow> (s1, st1, Session key sessionID hello)))
     | Frame _ \<Rightarrow> (s, st, Refused InvalidArgument ''first stream frame must be AgentHello''))"

text \<open>What the loop of \<^verbatim>\<open>Connect\<close> does with the next receive: handle a batch, go on, or end
  (releasing the cluster).\<close>

datatype loop_action = HandleBatch observation_batch | Heartbeat | EndStream "(grpc_code \<times> error) option"

definition connect_next :: "recv \<Rightarrow> loop_action" where
  "connect_next r = (case r of
       RecvErr None \<Rightarrow> EndStream None
     | RecvErr (Some e) \<Rightarrow> EndStream (Some (Plain, e))
     | Frame (AgentBatch b) \<Rightarrow> HandleBatch b
     | Frame (AgentHeartbeat _) \<Rightarrow> Heartbeat
     | Frame (AgentHello _) \<Rightarrow> EndStream (Some (InvalidArgument, ''AgentHello may only be sent as the first frame''))
     | Frame AgentFrameNone \<Rightarrow> EndStream (Some (InvalidArgument, ''stream frame has no supported payload'')))"

section \<open>Lemmas on validation\<close>

text \<open>The length of a Go slice is an \<^verbatim>\<open>int\<close>.\<close>

definition go_len :: "'a list \<Rightarrow> bool" where
  "go_len xs = (length xs < 2 ^ 63)"

abbreviation seqs :: "observation option list \<Rightarrow> nat list" where
  "seqs obs \<equiv> map (\<lambda>ob. unat (getN ob_sequence ob)) obs"

text \<open>An observation that passes the checks of the loop, its sequence number apart.\<close>

definition valid_observation :: "observation option \<Rightarrow> bool" where
  "valid_observation ob = (getS ob_event_id ob \<noteq> [] \<and> getP ob_payload ob \<noteq> None
     \<and> validateInventoryObservation ob = None)"

lemma validateObservations_None:
  "validateObservations e obs = None \<longleftrightarrow>
   (\<forall>ob \<in> set obs. valid_observation ob)
   \<and> map (getN ob_sequence) obs = map (\<lambda>i. e + of_nat i) [0 ..< length obs]"
proof (induction obs arbitrary: e)
  case (Cons ob obs)
  have "map (\<lambda>i. e + of_nat i) [0 ..< length (ob # obs)] = e # map (\<lambda>i. (e + 1) + of_nat i) [0 ..< length obs]"
    by (simp add: upt_conv_Cons map_Suc_upt [symmetric] comp_def add_ac del: upt_Suc)
  with Cons show ?case
    by (auto simp: valid_observation_def split: option.splits)
qed simp

lemma range_count:
  fixes f l :: u64
  assumes "f \<noteq> 0" "f \<le> l" "n < 2 ^ 63" "of_nat n = l - f + 1"
  shows "unat l + 1 = unat f + n"
proof -
  have f: "0 < unat f" using assms(1) by (simp add: u64_positive)
  have "unat (l - f) + 1 < 2 ^ 64"
    using f unsigned_less [of l, where ?'a = nat] assms(2) by (simp add: unat_diff_le word_le_nat_alt)
  then have "unat (l - f + 1) = unat l - unat f + 1"
    using assms(2) by (simp add: unat_word_ariths unat_diff_le)
  moreover have "unat (of_nat n :: u64) = n" using assms(3) by (simp add: unat_of_nat)
  ultimately show ?thesis using assms(2,4) by (simp add: word_le_nat_alt)
qed

lemma validateBatchD:
  assumes "validateBatch cd cfg b = None"
  shows "bt_batch_id b \<noteq> []" "bt_observations b \<noteq> []" "bt_first_sequence b \<noteq> 0"
    "bt_first_sequence b \<le> bt_last_sequence b"
    "(of_nat (length (bt_observations b)) :: u64) = bt_last_sequence b - bt_first_sequence b + 1"
    "validateObservations (bt_first_sequence b) (bt_observations b) = None"
    "bt_payload_checksum b = batchChecksum cd (bt_observations b)"
  using assms by (auto simp: validateBatch_def not_less split: if_splits option.splits)

lemma validateBatch_range:
  assumes "validateBatch cd cfg b = None" "go_len (bt_observations b)"
  shows "unat (bt_last_sequence b) + 1 = unat (bt_first_sequence b) + length (bt_observations b)"
  using range_count [OF validateBatchD(3,4) _ validateBatchD(5)] assms by (simp add: go_len_def)

lemma seqs_upt:
  fixes f :: u64
  assumes "map (getN ob_sequence) obs = map (\<lambda>i. f + of_nat i) [0 ..< length obs]"
    "unat f + length obs \<le> 2 ^ 64"
  shows "seqs obs = [unat f ..< unat f + length obs]"
proof (rule nth_equalityI)
  fix i assume i: "i < length (seqs obs)"
  have "getN ob_sequence (obs ! i) = f + of_nat i"
    using arg_cong [OF assms(1), of "\<lambda>xs. xs ! i"] i by simp
  moreover have "unat (f + of_nat i) = unat f + i" using i assms(2) by (intro unat_add_of_nat) simp
  ultimately show "seqs obs ! i = [unat f ..< unat f + length obs] ! i" using i by simp
qed simp

lemma validateBatch_seqs:
  assumes "validateBatch cd cfg b = None" "go_len (bt_observations b)"
  shows "seqs (bt_observations b) = [unat (bt_first_sequence b) ..< unat (bt_last_sequence b) + 1]"
proof -
  have r: "unat (bt_last_sequence b) + 1 = unat (bt_first_sequence b) + length (bt_observations b)"
    by (rule validateBatch_range [OF assms])
  have "unat (bt_last_sequence b) + 1 \<le> 2 ^ 64"
    using unsigned_less [of "bt_last_sequence b", where ?'a = nat] by simp
  with r have "seqs (bt_observations b) =
      [unat (bt_first_sequence b) ..< unat (bt_first_sequence b) + length (bt_observations b)]"
    using validateBatchD(6) [OF assms(1)] by (intro seqs_upt) (auto simp: validateObservations_None)
  with r show ?thesis by simp
qed

lemma validateBatch_observations:
  "validateBatch cd cfg b = None \<Longrightarrow> ob \<in> set (bt_observations b) \<Longrightarrow> valid_observation ob"
  using validateBatchD(6) by (auto simp: validateObservations_None)

text \<open>The suffix the handler accepts.\<close>

lemma suffixAfter_spec:
  assumes "validateBatch cd cfg b = None" "go_len (bt_observations b)"
    "p < bt_last_sequence b" "bt_first_sequence b \<le> p + 1"
  shows "bt_first_sequence (suffixAfter cd b p) = p + 1"
    and "bt_last_sequence (suffixAfter cd b p) = bt_last_sequence b"
    and "bt_batch_id (suffixAfter cd b p) = bt_batch_id b"
    and "bt_observations (suffixAfter cd b p) = drop (unat p + 1 - unat (bt_first_sequence b)) (bt_observations b)"
    and "seqs (bt_observations (suffixAfter cd b p)) = [unat p + 1 ..< unat (bt_last_sequence b) + 1]"
    and "bt_payload_checksum (suffixAfter cd b p) = batchChecksum cd (bt_observations (suffixAfter cd b p))"
proof -
  have p1: "unat (p + 1) = unat p + 1" by (rule unat_Suc_less [OF assms(3)])
  have le: "unat (bt_first_sequence b) \<le> unat p + 1" using assms(4) p1 by (simp add: word_le_nat_alt)
  have off: "unat (p + 1 - bt_first_sequence b) = unat p + 1 - unat (bt_first_sequence b)"
    using unat_diff_le [OF assms(4)] p1 by simp
  have gt: "bt_first_sequence b > p \<longleftrightarrow> unat (bt_first_sequence b) = unat p + 1"
    using le by (auto simp: word_less_nat_alt)
  have eq: "bt_first_sequence b > p \<Longrightarrow> bt_first_sequence b = p + 1"
    using gt p1 by (metis word_unat_eq_iff)
  show 1: "bt_first_sequence (suffixAfter cd b p) = p + 1"
    "bt_last_sequence (suffixAfter cd b p) = bt_last_sequence b"
    "bt_batch_id (suffixAfter cd b p) = bt_batch_id b"
    using eq by (simp_all add: suffixAfter_def Let_def)
  show 2: "bt_observations (suffixAfter cd b p) = drop (unat p + 1 - unat (bt_first_sequence b)) (bt_observations b)"
    using off gt by (simp add: suffixAfter_def Let_def)
  show "seqs (bt_observations (suffixAfter cd b p)) = [unat p + 1 ..< unat (bt_last_sequence b) + 1]"
    using le by (simp add: 2 drop_map [symmetric] validateBatch_seqs [OF assms(1,2)] drop_upt del: upt_Suc)
  show "bt_payload_checksum (suffixAfter cd b p) = batchChecksum cd (bt_observations (suffixAfter cd b p))"
    using validateBatchD(7) [OF assms(1)] by (simp add: suffixAfter_def Let_def)
qed

section \<open>Lemmas on rejection codes\<close>

lemma no_maximum:
  "CHR ''m'' \<notin> set e \<or> CHR ''x'' \<notin> set e \<Longrightarrow> \<not> Contains e ''maximum''"
  using Contains_set [of e "''maximum''"] by auto

lemma dec_letters [simp]: "CHR ''m'' \<notin> set (dec w)" "CHR ''x'' \<notin> set (dec w)"
  "CHR ''m'' \<notin> set (itoa n)" "CHR ''x'' \<notin> set (itoa n)"
proof -
  have "CHR ''m'' \<notin> digit ` {..< 10}" "CHR ''x'' \<notin> digit ` {..< 10}"
    by (auto dest!: arg_cong [where f = "of_char :: char \<Rightarrow> nat"])
  then show "CHR ''m'' \<notin> set (dec w)" "CHR ''x'' \<notin> set (dec w)"
    "CHR ''m'' \<notin> set (itoa n)" "CHR ''x'' \<notin> set (itoa n)"
    by (auto simp: dec_def dest: subsetD [OF itoa_digits])
qed

lemma validateInventoryObservation_letters:
  "validateInventoryObservation ob = Some e \<Longrightarrow> CHR ''x'' \<notin> set e"
  by (auto simp: validateInventoryObservation_def record_then_def validateInventoryRecord_def
      split: option.splits payload.splits inventory_operation.splits if_splits)

lemma validateObservations_letters:
  "validateObservations x obs = Some e \<Longrightarrow> CHR ''m'' \<notin> set e \<or> CHR ''x'' \<notin> set e"
  by (induction obs arbitrary: x)
    (auto split: if_splits option.splits dest: validateInventoryObservation_letters)

section \<open>Lemmas on the handler\<close>

text \<open>\<^verbatim>\<open>sends P st st'\<close>: the stream grew by frames that all satisfy \<^verbatim>\<open>P\<close>.\<close>

definition sends :: "(server_frame \<Rightarrow> bool) \<Rightarrow> stream \<Rightarrow> stream \<Rightarrow> bool" where
  "sends P st st' = (\<exists>fs. st_sent st' = st_sent st @ fs \<and> (\<forall>f \<in> set fs. P f))"

definition claims :: "u64 \<Rightarrow> server_frame \<Rightarrow> bool" where
  "claims p f = (case f of Acknowledgement a \<Rightarrow> ba_persisted_through_sequence a = p
     | ServerHello h \<Rightarrow> sh_accepted_through_sequence h = p | _ \<Rightarrow> True)"

lemma sends_refl [simp]: "sends P st st"
  by (simp add: sends_def)

lemma sends_trans: "sends P a b \<Longrightarrow> sends P b c \<Longrightarrow> sends P a c"
  unfolding sends_def by (metis UnE append_assoc set_append)

lemma Send_sends: "Send st f = (st', e) \<Longrightarrow> P f \<Longrightarrow> sends P st st'"
  by (auto simp: Send_def sends_def split: option.splits)

lemma claims_simps [simp]:
  "claims p (acknowledgement now i r q rs js) = (q = p)"
  "claims p (flowControl d m)"
  "claims p (serverHello now sid q cfg) = (q = p)"
  by (simp_all add: claims_def acknowledgement_def flowControl_def serverHello_def)

lemma send_return_sends: "send_return st f = (st', r) \<Longrightarrow> P f \<Longrightarrow> sends P st st'"
  by (auto simp: send_return_def dest: Send_sends split: prod.splits)

lemma send_return_Return: "send_return st f = (st', r) \<Longrightarrow> \<exists>e. r = Return e"
  by (auto simp: send_return_def split: prod.splits)

lemma hb_admit_sends:
  assumes "hb_admit cd now s key st b = (st', r)"
  shows "sends (claims (persisted s key)) st st'"
proof (cases "validateBatch cd (sv_config s) b")
  case None
  show ?thesis
    using assms None by (cases "sv_clusters s key")
      (auto simp: hb_admit_def persisted_def Let_def split: if_splits intro: send_return_sends)
next
  case (Some e)
  then show ?thesis using assms by (auto simp: hb_admit_def Let_def intro: send_return_sends)
qed

lemma hb_admit_Continue:
  assumes "hb_admit cd now s key st b = (st', Continue (a, p))"
  shows "validateBatch cd (sv_config s) b = None" "p = persisted s key" "sv_clusters s key \<noteq> None" "st' = st"
    "p < bt_last_sequence b" "bt_first_sequence b \<le> p + 1" "a = suffixAfter cd b p"
  using assms by (auto simp: hb_admit_def persisted_def Let_def not_le not_less
      split: option.splits if_splits dest: send_return_Return)

lemma retry_accepted_sends: "retry_accepted now st b a p = (st', r) \<Longrightarrow> sends (claims p) st st'"
  by (auto simp: retry_accepted_def intro: send_return_sends)

lemma retry_accepted_Return: "retry_accepted now st b a p = (st', r) \<Longrightarrow> \<exists>e. r = Return e"
  by (auto simp: retry_accepted_def dest: send_return_Return)

lemma Send_ack: "Send st (acknowledgement now i r p rs js) = (st', e) \<Longrightarrow> sends (claims p) st st'"
  by (erule Send_sends) (simp only: claims_simps)

lemma Send_flow: "Send st (flowControl d m) = (st', e) \<Longrightarrow> sends (claims p) st st'"
  by (erule Send_sends) (simp only: claims_simps)

lemma Send_flow_retry:
  "Send st (flowControl d m) = (st1, e) \<Longrightarrow> retry_accepted now st1 b a p = (st2, r) \<Longrightarrow> sends (claims p) st st2"
  using sends_trans Send_flow retry_accepted_sends by blast

lemma hb_archive_sends:
  "hb_archive cd now io s q fs hello sid st b a p = (st', fs', r) \<Longrightarrow> sends (claims p) st st'"
  by (auto simp: hb_archive_def Let_def split: if_splits prod.splits option.splits
      intro: retry_accepted_sends Send_flow Send_flow_retry)

lemma hb_archive_Continue_sends:
  "hb_archive cd now io s q fs hello sid st b a p = (st', fs', Continue c) \<Longrightarrow> sends (claims n) st st'"
  by (auto simp: hb_archive_def Let_def split: if_splits prod.splits option.splits
      intro: Send_flow dest: retry_accepted_Return)

lemma hb_archive_no_panic: "hb_archive cd now io s q fs hello sid st b a p = (st', fs', r) \<Longrightarrow> r \<noteq> Panic"
  by (auto simp: hb_archive_def Let_def split: if_splits prod.splits option.splits dest: retry_accepted_Return)

lemma hb_enqueue_sends:
  "hb_enqueue now s q fresh hello sid st b a p sent = (st', q', fresh', r) \<Longrightarrow> sends (claims p) st st'"
  by (auto simp: hb_enqueue_def Let_def split: if_splits prod.splits option.splits
      intro: retry_accepted_sends Send_flow Send_flow_retry)

lemma hb_enqueue_Continue:
  assumes "hb_enqueue now s q fresh hello sid st b a p sent = (st', q', fresh', Continue qb)"
  shows "st' = st" "fresh' = Suc fresh" "TryEnqueue q (Some qb) = (q', None)"
    "qb = \<lparr> qb_TenantID = ah_tenant_id hello, qb_ClusterID = ah_cluster_id hello,
            qb_AgentInstance = ah_agent_instance_id hello, qb_SessionID = sid,
            qb_ReceivedAt = now, qb_ObservationSet = Some a, qb_persisted = Some fresh \<rparr>"
  using assms
  by (auto simp: hb_enqueue_def EnablePersistenceNotification_def Let_def
      split: if_splits prod.splits option.splits dest: retry_accepted_Return)

lemma hb_enqueue_Return:
  assumes "hb_enqueue now s q fresh hello sid st b a p sent = (st', q', fresh', r)" "\<forall>qb. r \<noteq> Continue qb"
  shows "q' = q" "r \<noteq> Panic"
  using assms
  by (auto simp: hb_enqueue_def EnablePersistenceNotification_def Let_def
      split: if_splits prod.splits option.splits dest: retry_accepted_Return TryEnqueue_fullE(1))

lemma hb_finish_cases:
  assumes "hb_finish now io w s key fs hello st b a p = (st', s', fs', err)"
  obtains (cancelled) e where "w = WaitCancelled e" "st' = st" "s' = s" "fs' = fs" "err = Some e"
  | (unsaved) e where "w = WaitPersisted" "s' = s" "sends (claims p) st st'"
      "checkpoint_Save io (sv_checkpoints s) fs (ah_tenant_id hello) (ah_cluster_id hello) (bt_last_sequence b) = (fs', Some e)"
  | (saved) "w = WaitPersisted" "sends (claims (bt_last_sequence b)) st st'"
      "checkpoint_Save io (sv_checkpoints s) fs (ah_tenant_id hello) (ah_cluster_id hello) (bt_last_sequence b) = (fs', None)"
      "s' = s\<lparr> sv_clusters := (sv_clusters s)(key := map_option
         (\<lambda>state. state\<lparr> cs_persistedThrough := bt_last_sequence b \<rparr>) (sv_clusters s key)) \<rparr>"
  using assms
  by (auto simp: hb_finish_def Let_def split: wait.splits prod.splits option.splits dest: Send_ack)

section \<open>Properties\<close>

lemma of_nat_unat_u64: "(of_nat (unat (w :: u64)) :: u64) = w"
  by simp

lemma seqs_of_upt:
  fixes f l :: u64
  assumes "seqs obs = [unat f ..< unat l + 1]" "obs \<noteq> []"
  shows "f \<le> l" "length obs = unat l + 1 - unat f"
    "(of_nat (length obs) :: u64) = l - f + 1"
    "map (getN ob_sequence) obs = map (\<lambda>i. f + of_nat i) [0 ..< length obs]"
proof -
  show len: "length obs = unat l + 1 - unat f"
    using arg_cong [OF assms(1), of length] by (simp del: upt_Suc)
  with assms(2) show le: "f \<le> l" by (cases obs) (auto simp: word_le_nat_alt)
  have "of_nat (length obs) = (of_nat (unat l - unat f) :: u64) + 1"
    using len le by (simp add: word_le_nat_alt Suc_diff_le)
  also have "(of_nat (unat l - unat f) :: u64) = l - f"
    using unat_diff_le [OF le] of_nat_unat_u64 by metis
  finally show "(of_nat (length obs) :: u64) = l - f + 1" .
  show "map (getN ob_sequence) obs = map (\<lambda>i. f + of_nat i) [0 ..< length obs]"
  proof (rule nth_equalityI)
    fix i assume "i < length (map (getN ob_sequence) obs)"
    then have i: "i < length obs" by simp
    have "unat (getN ob_sequence (obs ! i)) = [unat f ..< unat l + 1] ! i"
      using arg_cong [OF assms(1), of "\<lambda>xs. xs ! i"] i by simp
    also have "\<dots> = unat f + i" using i len by (simp del: upt_Suc)
    finally have "getN ob_sequence (obs ! i) = of_nat (unat f + i)" by (metis of_nat_unat_u64)
    then show "map (getN ob_sequence) obs ! i = map (\<lambda>i. f + of_nat i) [0 ..< length obs] ! i"
      using i by simp
  qed simp
qed

lemma batch_counters:
  assumes "length (bt_observations b) < 2 ^ 32" "cd_size cd b < 2 ^ 64"
  shows "(of_nat (length (bt_observations b)) :: u32) > sc_MaxBatchRecords cfg
      \<longleftrightarrow> length (bt_observations b) > unat (sc_MaxBatchRecords cfg)"
    "(of_nat (cd_size cd b) :: u64) > sc_MaxBatchBytes cfg \<longleftrightarrow> cd_size cd b > unat (sc_MaxBatchBytes cfg)"
  using assms by (simp_all add: word_less_nat_alt unat_of_nat)

lemma validateBatchI:
  assumes "length (bt_observations b) < 2 ^ 32" "cd_size cd b < 2 ^ 64"
    and c: "bt_batch_id b \<noteq> []" "bt_observations b \<noteq> []" "length (bt_observations b) \<le> unat (sc_MaxBatchRecords cfg)"
      "cd_size cd b \<le> unat (sc_MaxBatchBytes cfg)" "0 < bt_first_sequence b"
      "seqs (bt_observations b) = [unat (bt_first_sequence b) ..< unat (bt_last_sequence b) + 1]"
      "\<forall>ob \<in> set (bt_observations b). valid_observation ob"
      "bt_payload_checksum b = batchChecksum cd (bt_observations b)"
  shows "validateBatch cd cfg b = None"
proof -
  have "validateObservations (bt_first_sequence b) (bt_observations b) = None"
    using c(7) seqs_of_upt(4) [OF c(6,2)] by (auto simp: validateObservations_None)
  with c batch_counters [OF assms(1,2), of cfg] seqs_of_upt(1,3) [OF c(6,2)]
  show ?thesis by (auto simp: validateBatch_def not_less simp del: upt_Suc)
qed

text \<open>C16: What \<^verbatim>\<open>validateBatch\<close> accepts, for batches within the range of the length counters: a non-empty
  batch identifier, between one and the configured number of observations, within
  the configured size, whose sequence numbers are exactly the inclusive range from a positive
  \<^verbatim>\<open>first_sequence\<close> to \<^verbatim>\<open>last_sequence\<close> in order, each observation with an
  event identifier and a payload that passes the inventory checks, and with the
  SHA-256 checksum of the encoded observations.\<close>

theorem validateBatch_accepts_exactly:
  assumes "length (bt_observations b) < 2 ^ 32" "cd_size cd b < 2 ^ 64"
  shows "validateBatch cd cfg b = None \<longleftrightarrow>
    bt_batch_id b \<noteq> [] \<and> bt_observations b \<noteq> []
    \<and> length (bt_observations b) \<le> unat (sc_MaxBatchRecords cfg)
    \<and> cd_size cd b \<le> unat (sc_MaxBatchBytes cfg)
    \<and> 0 < bt_first_sequence b
    \<and> seqs (bt_observations b) = [unat (bt_first_sequence b) ..< unat (bt_last_sequence b) + 1]
    \<and> (\<forall>ob \<in> set (bt_observations b). valid_observation ob)
    \<and> bt_payload_checksum b = batchChecksum cd (bt_observations b)"
    (is "?v \<longleftrightarrow> ?c")
proof
  assume v: ?v
  have len: "go_len (bt_observations b)" using assms(1) by (simp add: go_len_def)
  have "\<not> (of_nat (length (bt_observations b)) :: u32) > sc_MaxBatchRecords cfg"
    "\<not> (of_nat (cd_size cd b) :: u64) > sc_MaxBatchBytes cfg"
    using v by (auto simp: validateBatch_def split: if_splits)
  with batch_counters [OF assms, of cfg] validateBatchD [OF v] validateBatch_seqs [OF v len] validateBatch_observations [OF v]
  show ?c by (auto simp: word_neq_0_conv)
next
  assume ?c
  then show ?v using validateBatchI [OF assms] by blast
qed

text \<open>A small batch for the examples: one snapshot marker, numbered \<^verbatim>\<open>n\<close>.\<close>

definition sample_observation :: "u64 \<Rightarrow> observation option" where
  "sample_observation n = Some \<lparr> ob_sequence = n, ob_event_id = ''e'', ob_observed_at = None, ob_collected_at = None,
     ob_source_resource_version = [], ob_payload = Some (InventorySnapshotMarker None) \<rparr>"

definition sample_codec :: codec where
  "sample_codec = \<lparr> cd_size = (\<lambda>b. 10 * length (bt_observations b)),
     cd_marshal = (\<lambda>ob. Some (itoa (unat (getN ob_sequence ob)))),
     cd_marshal_batch = (\<lambda>b. Inr (itoa (unat (bt_last_sequence b)))) \<rparr>"

definition sample_obatch :: "u64 list \<Rightarrow> observation_batch" where
  "sample_obatch ns = \<lparr> bt_batch_id = ''b'', bt_first_sequence = hd ns, bt_last_sequence = last ns, bt_created_at = None,
     bt_payload_checksum = batchChecksum sample_codec (map sample_observation ns),
     bt_observations = map sample_observation ns \<rparr>"

definition sample_config :: server_config where
  "sample_config = \<lparr> sc_MaxBatchRecords = 2, sc_MaxBatchBytes = 100, sc_HeartbeatInterval = Second,
     sc_BackpressureDelay = Second, sc_HighWatermarkPercent = 80 \<rparr>"

lemmas sample_batch_defs = sample_obatch_def sample_observation_def sample_codec_def sample_config_def
  valid_observation_def validateInventoryObservation_def

theorem validateBatch_accepts_exactly_witness:
  "validateBatch sample_codec sample_config (sample_obatch [4, 5]) = None"
  by (subst validateBatch_accepts_exactly) (simp_all add: sample_batch_defs upt_conv_Cons)

text \<open>The rejection code is read off the error text.  It is \<^verbatim>\<open>TOO_LARGE\<close> exactly when the
  batch has an identifier and observations but exceeds the configured number of records or bytes; no other
  validation error is misclassified, whatever numbers its text contains.\<close>

theorem rejection_code_classifies:
  assumes "validateBatch cd cfg b = Some e"
  shows "rejectionCode (Some e) = TOO_LARGE \<longleftrightarrow>
    bt_batch_id b \<noteq> [] \<and> bt_observations b \<noteq> []
    \<and> ((of_nat (length (bt_observations b)) :: u32) > sc_MaxBatchRecords cfg
       \<or> (of_nat (cd_size cd b) :: u64) > sc_MaxBatchBytes cfg)"
proof -
  have pos: "Contains (''batch contains '' @ n @ '' records; maximum is '' @ m) ''maximum''"
    "Contains (''batch size exceeds maximum of '' @ m) ''maximum''" for n m
    using Contains_append_right [of "'' records; maximum is '' @ m" "''maximum''" "''batch contains '' @ n"] by simp_all
  show ?thesis
    using assms pos no_maximum validateObservations_letters
    by (auto simp: validateBatch_def rejectionCode_def split: if_splits option.splits)
qed

theorem rejection_code_classifies_witness:
  "\<exists>e. validateBatch sample_codec sample_config (sample_obatch [4, 5, 6]) = Some e \<and> rejectionCode (Some e) = TOO_LARGE"
proof -
  obtain e where e: "validateBatch sample_codec sample_config (sample_obatch [4, 5, 6]) = Some e"
    by (simp add: validateBatch_def sample_batch_defs)
  with rejection_code_classifies [OF e] show ?thesis by (simp add: sample_batch_defs)
qed

text \<open>The handler either ends before anything is queued, or queues the suffix and finishes.\<close>

lemma handleBatch_cases:
  assumes "handleBatch cd env s q fresh fs key sid hello st b = Some (st', s', q', fresh', fs', err)"
  obtains (early) "s' = s" "q' = q" "sends (claims (persisted s key)) st st'"
  | (late) accepted qb fs1 st1 where
      "validateBatch cd (sv_config s) b = None" "sv_clusters s key \<noteq> None"
      "persisted s key < bt_last_sequence b" "bt_first_sequence b \<le> persisted s key + 1"
      "accepted = suffixAfter cd b (persisted s key)"
      "TryEnqueue q (Some qb) = (q', None)" "qb_ObservationSet qb = Some accepted"
      "qb_TenantID qb = ah_tenant_id hello" "qb_ClusterID qb = ah_cluster_id hello"
      "\<And>n. sends (claims n) st st1"
      "hb_finish (he_now env) (he_save_io env) (he_wait env) s key fs1 hello st1 b accepted (persisted s key)
         = (st', s', fs', err)"
proof -
  obtain st1 r1 where a: "hb_admit cd (he_now env) s key st b = (st1, r1)" by (cases "hb_admit cd (he_now env) s key st b")
  note ad = hb_admit_sends [OF a]
  show thesis
  proof (cases r1)
    case (Return e)
    with assms a ad show ?thesis by (intro early) (auto simp: handleBatch_def)
  next
    case C1: (Continue ap)
    obtain acc p where ap: "ap = (acc, p)" by (cases ap)
    note c = hb_admit_Continue [OF a [unfolded C1 ap]]
    obtain st2 fs2 r2 where ar: "hb_archive cd (he_now env) (he_archive_io env) s q fs hello sid st1 b acc p = (st2, fs2, r2)"
      by (metis prod_cases3)
    have s2: "sends (claims (persisted s key)) st st2"
      using sends_trans [OF ad] hb_archive_sends [OF ar] c(2) by simp
    show ?thesis
    proof (cases r2)
      case (Return e)
      with assms a ar C1 ap s2 show ?thesis by (intro early) (auto simp: handleBatch_def)
    next
      case C2: (Continue sent)
      obtain st3 q3 fresh3 r3 where en: "hb_enqueue (he_now env) s q fresh hello sid st2 b acc p sent = (st3, q3, fresh3, r3)"
        by (metis prod_cases4)
      have s3: "sends (claims (persisted s key)) st st3"
        using sends_trans [OF s2] hb_enqueue_sends [OF en] c(2) by simp
      show ?thesis
      proof (cases r3)
        case (Return e)
        with assms a ar en C1 C2 ap s3 hb_enqueue_Return(1) [OF en] show ?thesis
          by (intro early) (auto simp: handleBatch_def)
      next
        case C3: (Continue qb)
        note q = hb_enqueue_Continue [OF en [unfolded C3]]
        have "hb_finish (he_now env) (he_save_io env) (he_wait env) s key fs2 hello st3 b acc p = (st', s', fs', err)"
          "q' = q3" using assms a ar en C1 C2 C3 ap by (auto simp: handleBatch_def split: prod.splits)
        with c q hb_archive_Continue_sends [OF ar [unfolded C2]] show ?thesis
          by (intro late [of acc qb st3 fs2]) auto
      qed (use hb_enqueue_Return(2) [OF en] in simp)
    qed (use hb_archive_no_panic [OF ar] in simp)
  qed (use assms a in \<open>simp add: handleBatch_def\<close>)
qed

lemma persisted_update:
  "sv_clusters s key \<noteq> None \<Longrightarrow>
   persisted (s\<lparr> sv_clusters := (sv_clusters s)(key := map_option (\<lambda>state. state\<lparr> cs_persistedThrough := n \<rparr>) (sv_clusters s key)) \<rparr>) k
   = (if k = key then n else persisted s k)"
  by (auto simp: persisted_def)


lemma sample_valid: "validateBatch sample_codec sample_config (sample_obatch [4, 5]) = None"
  by (simp add: validateBatch_def sample_batch_defs)

definition sample_server :: server where
  "sample_server = \<lparr> sv_config = sample_config, sv_authenticator = InsecureAuthenticator, sv_archiver = NoopArchiver,
     sv_checkpoints = MemoryCheckpointStore,
     sv_clusters = [''k'' \<mapsto> \<lparr> cs_persistedThrough = 4, cs_loaded = True \<rparr>], sv_active = [''k'' \<mapsto> ''s''] \<rparr>"

definition sample_stream :: stream where
  "sample_stream = \<lparr> st_sent = [], st_sendErr = (\<lambda>_. None) \<rparr>"

definition sample_env :: hb_env where
  "sample_env = \<lparr> he_now = 0, he_archive_io = io_ok, he_save_io = io_ok, he_wait = WaitPersisted \<rparr>"

text \<open>The batch 4, 5 arrives at the watermark 4: the suffix 5 is queued and acknowledged.\<close>

lemma sample_server_fields:
  "sv_config sample_server = sample_config" "sv_archiver sample_server = NoopArchiver"
  "sv_checkpoints sample_server = MemoryCheckpointStore"
  "sv_clusters sample_server ''k'' = Some \<lparr> cs_persistedThrough = 4, cs_loaded = True \<rparr>"
  "bt_first_sequence (sample_obatch [4, 5]) = 4" "bt_last_sequence (sample_obatch [4, 5]) = 5"
  by (simp_all add: sample_server_def sample_obatch_def)

lemma sample_admit:
  "hb_admit sample_codec 0 sample_server ''k'' sample_stream (sample_obatch [4, 5]) =
   (sample_stream, Continue (suffixAfter sample_codec (sample_obatch [4, 5]) 4, 4))"
  by (simp add: hb_admit_def sample_valid sample_server_fields Let_def)

lemma sample_archive:
  "hb_archive sample_codec 0 io_ok sample_server (queue_New 4) Map.empty hello sid sample_stream b a p =
   (sample_stream, Map.empty, Continue False)"
  by (simp add: hb_archive_def sample_server_fields Archive_def queue_New_def Depth_def highWatermark_def
      Capacity_def Let_def)

lemma sample_enqueue:
  obtains q' qb where "hb_enqueue 0 sample_server (queue_New 4) 0 hello sid sample_stream b a p False =
    (sample_stream, q', 1, Continue qb)"
  by (simp add: hb_enqueue_def EnablePersistenceNotification_def TryEnqueue_def queue_New_def)

lemma sample_finish:
  obtains st' s' where "hb_finish 0 io_ok WaitPersisted sample_server ''k'' Map.empty hello sample_stream (sample_obatch [4, 5]) a p =
    (st', s', Map.empty, None)" "persisted s' ''k'' = 5" "length (st_sent st') = 1"
  by (simp add: hb_finish_def sample_server_fields checkpoint_Save_def Send_def sample_stream_def persisted_def Let_def)

lemma sample_handleBatch:
  obtains st' s' q' fresh' fs' where
    "handleBatch sample_codec sample_env sample_server (queue_New 4) 0 Map.empty ''k'' ''s'' sample_hello sample_stream
       (sample_obatch [4, 5]) = Some (st', s', q', fresh', fs', None)"
    "persisted s' ''k'' = 5" "length (st_sent st') = 1"
proof -
  let ?b = "sample_obatch [4, 5]" let ?a = "suffixAfter sample_codec ?b 4"
  obtain q' qb where q: "hb_enqueue 0 sample_server (queue_New 4) 0 sample_hello ''s'' sample_stream ?b ?a 4 False =
    (sample_stream, q', 1, Continue qb)" by (rule sample_enqueue)
  obtain st' s' where f: "hb_finish 0 io_ok WaitPersisted sample_server ''k'' Map.empty sample_hello sample_stream ?b ?a 4 =
    (st', s', Map.empty, None)" "persisted s' ''k'' = 5" "length (st_sent st') = 1" by (rule sample_finish)
  show thesis
    by (rule that [of st' s' q' 1 Map.empty])
      (use q f in \<open>simp_all add: handleBatch_def sample_env_def sample_admit sample_archive\<close>)
qed


text \<open>C15: The watermark advances only over observations that were queued, persisted and checkpointed.  If
  handling a batch changes the cluster's watermark from \<^verbatim>\<open>p\<close>, then the batch was valid and
  started no later than \<^verbatim>\<open>p + 1\<close>; its new part, with the sequence numbers
  \<^verbatim>\<open>p + 1\<close> to \<^verbatim>\<open>last_sequence\<close> without gap or duplicate, was enqueued under the hello's tenant and
  cluster; the persistence notification came, the checkpoint save succeeded, and the new watermark is
  \<^verbatim>\<open>last_sequence\<close>.\<close>

theorem handleBatch_advances_over_persisted:
  assumes "handleBatch cd env s q fresh fs key sid hello st b = Some (st', s', q', fresh', fs', err)"
    "persisted s' key \<noteq> persisted s key" "go_len (bt_observations b)"
  shows "validateBatch cd (sv_config s) b = None \<and> he_wait env = WaitPersisted
     \<and> persisted s' key = bt_last_sequence b
     \<and> (\<exists>qb accepted fs1. TryEnqueue q (Some qb) = (q', None) \<and> qb_ObservationSet qb = Some accepted
         \<and> qb_TenantID qb = ah_tenant_id hello \<and> qb_ClusterID qb = ah_cluster_id hello
         \<and> seqs (bt_observations accepted) = [unat (persisted s key) + 1 ..< unat (bt_last_sequence b) + 1]
         \<and> checkpoint_Save (he_save_io env) (sv_checkpoints s) fs1 (ah_tenant_id hello) (ah_cluster_id hello)
             (bt_last_sequence b) = (fs', None))"
  using assms(1)
proof (cases rule: handleBatch_cases)
  case early
  with assms(2) show ?thesis by simp
next
  case (late accepted qb fs1 st1)
  show ?thesis
    using late(11)
  proof (cases rule: hb_finish_cases)
    case saved
    then show ?thesis
      using late suffixAfter_spec(5) [OF late(1) assms(3) late(3,4)]
      by (auto simp: persisted_update simp del: upt_Suc)
  qed (use assms(2) in simp_all)
qed

theorem handleBatch_advances_over_persisted_witness:
  "\<exists>q'. \<exists>qb accepted. TryEnqueue (queue_New 4) (Some qb) = (q', None) \<and> qb_ObservationSet qb = Some accepted
     \<and> seqs (bt_observations accepted) = [5]"
proof -
  obtain st' s' q' fresh' fs' where r:
    "handleBatch sample_codec sample_env sample_server (queue_New 4) 0 Map.empty ''k'' ''s'' sample_hello sample_stream
       (sample_obatch [4, 5]) = Some (st', s', q', fresh', fs', None)"
    "persisted s' ''k'' = 5" by (rule sample_handleBatch)
  have p: "persisted sample_server ''k'' = 4" by (simp add: sample_server_def persisted_def)
  have "go_len (bt_observations (sample_obatch [4, 5]))" by (simp add: go_len_def sample_obatch_def)
  from handleBatch_advances_over_persisted [OF r(1) _ this] r(2) p
  obtain qb accepted where a: "TryEnqueue (queue_New 4) (Some qb) = (q', None)" "qb_ObservationSet qb = Some accepted"
    "seqs (bt_observations accepted) = [unat (4 :: u64) + 1 ..< unat (5 :: u64) + 1]"
    by (auto simp: sample_server_fields simp del: upt_Suc)
  have "seqs (bt_observations accepted) = [5]" using a(3) by (simp add: upt_conv_Cons)
  with a(1,2) show ?thesis by (intro exI [of _ q'] exI [of _ qb] exI [of _ accepted]) simp
qed

end
