(* ===== verification/Ingestion_Persistence.thy ===== *)
theory Ingestion_Persistence
  imports Ingestion_Server "HOL-Library.List_Lexorder" "HOL-Library.Char_ord"
begin

text \<open>
  Persistence of queued batches (\<^verbatim>\<open>services/ingestion/persistence\<close>): the mapping of
  inventory observations to table rows (\<^verbatim>\<open>repository.go\<close>), the insert into
  ClickHouse (\<^verbatim>\<open>store.go\<close>) and the worker that leases batches, persists them
  and commits or retries the lease (\<^verbatim>\<open>worker.go\<close>).

  The ClickHouse driver is a parameter: the record \<^verbatim>\<open>ch_env\<close> says which of its calls fail, and
  a successful send appends the rows to the database.  \<^verbatim>\<open>uuid\<close> is the name-based UUID function of
  \<^verbatim>\<open>google/uuid\<close>.
\<close>

section \<open>Rows\<close>

datatype cell =
  VString string | VTime gotime | VNil | VMap labels | VU64 u64 | VU32 u32 | VUUID string

record mappedRow =
  mr_table :: string
  mr_columns :: "string list"
  mr_values :: "cell list"

record row_insert =
  in_Table :: string
  in_Columns :: "string list"
  in_Rows :: "cell list list"

datatype persist_error = ErrInvalidInventory error | StoreError error

record rowBase =
  rb_tenantID :: string
  rb_clusterID :: string
  rb_observedAt :: gotime
  rb_eventID :: string
  rb_version :: u64

section \<open>Conversions\<close>

definition timestampValid :: "timestamp option \<Rightarrow> bool" where
  "timestampValid t = (case t of None \<Rightarrow> False | Some ts \<Rightarrow> timestamp_IsValid ts)"

definition nullableTime :: "timestamp option \<Rightarrow> cell" where
  "nullableTime t = (if \<not> timestampValid t then VNil
     else case t of None \<Rightarrow> VNil | Some ts \<Rightarrow> VTime (timestamp_AsTime ts))"

definition nonNegative :: "i64 \<Rightarrow> u64" where
  "nonNegative v = (if sint v \<le> 0 then 0 else v)"

definition nonNegative32 :: "i32 \<Rightarrow> u32" where
  "nonNegative32 v = (if sint v \<le> 0 then 0 else v)"

definition MaxUint64 :: nat where
  "MaxUint64 = 18446744073709551615"

definition gpuMilli :: "i64 \<Rightarrow> u64" where
  "gpuMilli v = (if sint v \<le> 0 then 0
     else if sint v > int (MaxUint64 div 1000) then of_nat MaxUint64
     else v * 1000)"

text \<open>\<^verbatim>\<open>cloneMap\<close> copies a map; the copy of a nil map is an empty one.\<close>

definition cloneMap :: "labels \<Rightarrow> labels" where
  "cloneMap m = m"

fun firstLabel :: "labels \<Rightarrow> string list \<Rightarrow> string" where
  "firstLabel m [] = []"
| "firstLabel m (k # ks) =
     (let v = TrimSpace (case m k of None \<Rightarrow> [] | Some v \<Rightarrow> v) in if v \<noteq> [] then v else firstLabel m ks)"

fun firstNonEmpty :: "string list \<Rightarrow> string" where
  "firstNonEmpty [] = []"
| "firstNonEmpty (v # vs) = (if TrimSpace v \<noteq> [] then v else firstNonEmpty vs)"

record dimensions =
  dm_team :: string
  dm_project :: string
  dm_environment :: string
  dm_costCenter :: string

definition promotedDimensions :: "labels \<Rightarrow> dimensions" where
  "promotedDimensions m =
     \<lparr> dm_team = firstLabel m [''team'', ''app.kubernetes.io/team''],
       dm_project = firstLabel m [''project'', ''app.kubernetes.io/part-of''],
       dm_environment = firstLabel m [''environment'', ''env''],
       dm_costCenter = firstLabel m [''cost-center'', ''cost_center''] \<rparr>"

definition operationName :: "inventory_record option \<Rightarrow> persist_error + string" where
  "operationName r = (case getf ir_operation OPERATION_UNSPECIFIED r of
       UPSERT \<Rightarrow> Inr ''upsert''
     | DELETE \<Rightarrow> Inr ''delete''
     | _ \<Rightarrow> Inl (ErrInvalidInventory ''inventory operation is required''))"

section \<open>The mappings\<close>

definition cluster_columns :: "string list" where
  "cluster_columns = [
     ''tenant_id'', ''cluster_id'', ''cluster_name'', ''provider'', ''account_id'', ''region'',
     ''kubernetes_version'', ''labels'', ''operation'', ''valid_from'', ''valid_to'',
     ''observed_at'', ''event_id'', ''version'']"

definition node_columns :: "string list" where
  "node_columns = [
     ''tenant_id'', ''cluster_id'', ''node_uid'', ''node_name'', ''provider_id'',
     ''instance_type'', ''architecture'', ''operating_system'', ''region'', ''zone'',
     ''purchase_option'', ''capacity_cpu_millicores'', ''allocatable_cpu_millicores'',
     ''capacity_memory_bytes'', ''allocatable_memory_bytes'', ''capacity_gpu_milli'',
     ''labels'', ''operation'', ''valid_from'', ''valid_to'', ''observed_at'', ''event_id'',
     ''version'']"

definition namespace_columns :: "string list" where
  "namespace_columns = [
     ''tenant_id'', ''cluster_id'', ''namespace_uid'', ''namespace_name'', ''phase'', ''team'',
     ''project'', ''environment'', ''cost_center'', ''labels'', ''operation'', ''valid_from'',
     ''valid_to'', ''observed_at'', ''event_id'', ''version'']"

definition deployment_columns :: "string list" where
  "deployment_columns = [
     ''tenant_id'', ''cluster_id'', ''namespace_uid'', ''deployment_uid'', ''namespace_name'',
     ''deployment_name'', ''desired_replicas'', ''available_replicas'', ''strategy'', ''team'',
     ''project'', ''environment'', ''cost_center'', ''labels'', ''operation'', ''valid_from'',
     ''valid_to'', ''observed_at'', ''event_id'', ''version'']"

definition pod_columns :: "string list" where
  "pod_columns = [
     ''tenant_id'', ''cluster_id'', ''namespace_uid'', ''deployment_uid'', ''pod_uid'',
     ''node_uid'', ''namespace_name'', ''deployment_name'', ''pod_name'', ''phase'',
     ''qos_class'', ''owner_kind'', ''owner_uid'', ''scheduled_at'', ''started_at'',
     ''finished_at'', ''labels'', ''operation'', ''valid_from'', ''valid_to'', ''observed_at'',
     ''event_id'', ''version'']"

definition container_columns :: "string list" where
  "container_columns = [
     ''tenant_id'', ''cluster_id'', ''namespace_uid'', ''deployment_uid'', ''pod_uid'',
     ''owner_kind'', ''owner_uid'', ''container_name'', ''container_id'', ''image'',
     ''image_id'', ''restart_count'', ''cpu_request_millicores'', ''cpu_limit_millicores'',
     ''memory_request_bytes'', ''memory_limit_bytes'', ''gpu_request_milli'', ''operation'',
     ''valid_from'', ''valid_to'', ''observed_at'', ''event_id'', ''version'']"

definition tail_cells :: "rowBase \<Rightarrow> string \<Rightarrow> cell list" where
  "tail_cells b op = [VString op, VTime (rb_observedAt b), VNil, VTime (rb_observedAt b),
     VUUID (rb_eventID b), VU64 (rb_version b)]"

definition mapCluster :: "rowBase \<Rightarrow> cluster_inventory option \<Rightarrow> persist_error + mappedRow" where
  "mapCluster b p = (case operationName (getP ci_record p) of
       Inl e \<Rightarrow> Inl e
     | Inr op \<Rightarrow> Inr
         \<lparr> mr_table = ''cluster'',
           mr_columns = cluster_columns,
           mr_values = [VString (rb_tenantID b), VString (rb_clusterID b), VString (getS ci_name p),
             VString (getS ci_provider p), VString (getS ci_account_id p), VString (getS ci_region p),
             VString (getS ci_kubernetes_version p), VMap (cloneMap (getM ci_labels p))] @ tail_cells b op \<rparr>)"

definition mapNode :: "rowBase \<Rightarrow> node_inventory option \<Rightarrow> persist_error + mappedRow" where
  "mapNode b p = (case operationName (getP ni_record p) of
       Inl e \<Rightarrow> Inl e
     | Inr op \<Rightarrow>
         (let md = getP ni_metadata p in
          if getS om_uid md = [] then Inl (ErrInvalidInventory ''node UID is required'')
          else Inr
            \<lparr> mr_table = ''node'',
              mr_columns = node_columns,
              mr_values = [VString (rb_tenantID b), VString (rb_clusterID b), VString (getS om_uid md),
                VString (getS om_name md), VString (getS ni_provider_id p), VString (getS ni_instance_type p),
                VString (getS ni_architecture p), VString (getS ni_operating_system p), VString (getS ni_region p),
                VString (getS ni_zone p), VString (getS ni_capacity_type p),
                VU64 (nonNegative (optN rv_cpu_millicores (getP ni_capacity p))),
                VU64 (nonNegative (optN rv_cpu_millicores (getP ni_allocatable p))),
                VU64 (nonNegative (optN rv_memory_bytes (getP ni_capacity p))),
                VU64 (nonNegative (optN rv_memory_bytes (getP ni_allocatable p))),
                VU64 (gpuMilli (optN rv_gpu_count (getP ni_capacity p))),
                VMap (cloneMap (getM om_labels md))] @ tail_cells b op \<rparr>))"

definition mapNamespace :: "rowBase \<Rightarrow> namespace_inventory option \<Rightarrow> persist_error + mappedRow" where
  "mapNamespace b p = (case operationName (getP nsi_record p) of
       Inl e \<Rightarrow> Inl e
     | Inr op \<Rightarrow>
         (let md = getP nsi_metadata p in
          if getS om_uid md = [] then Inl (ErrInvalidInventory ''namespace UID is required'')
          else let d = promotedDimensions (getM om_labels md) in Inr
            \<lparr> mr_table = ''namespace'',
              mr_columns = namespace_columns,
              mr_values = [VString (rb_tenantID b), VString (rb_clusterID b), VString (getS om_uid md),
                VString (getS om_name md), VString (getS nsi_phase p), VString (dm_team d), VString (dm_project d),
                VString (dm_environment d), VString (dm_costCenter d),
                VMap (cloneMap (getM om_labels md))] @ tail_cells b op \<rparr>))"

definition mapDeployment :: "rowBase \<Rightarrow> deployment_inventory option \<Rightarrow> persist_error + mappedRow" where
  "mapDeployment b p = (case operationName (getP di_record p) of
       Inl e \<Rightarrow> Inl e
     | Inr op \<Rightarrow>
         (let md = getP di_metadata p in
          if getS om_uid md = [] then Inl (ErrInvalidInventory ''deployment UID is required'')
          else let d = promotedDimensions (getM om_labels md) in Inr
            \<lparr> mr_table = ''deployment'',
              mr_columns = deployment_columns,
              mr_values = [VString (rb_tenantID b), VString (rb_clusterID b),
                VString (firstNonEmpty [getS di_namespace_uid p, getS om_namespace md]), VString (getS om_uid md),
                VString (getS om_namespace md), VString (getS om_name md),
                VU32 (nonNegative32 (getN di_desired_replicas p)), VU32 (nonNegative32 (getN di_available_replicas p)),
                VString (getS di_strategy p), VString (dm_team d), VString (dm_project d),
                VString (dm_environment d), VString (dm_costCenter d),
                VMap (cloneMap (getM om_labels md))] @ tail_cells b op \<rparr>))"

definition mapPod :: "rowBase \<Rightarrow> pod_inventory option \<Rightarrow> persist_error + mappedRow" where
  "mapPod b p = (case operationName (getP pi_record p) of
       Inl e \<Rightarrow> Inl e
     | Inr op \<Rightarrow>
         (let md = getP pi_metadata p in
          if getS om_uid md = [] then Inl (ErrInvalidInventory ''pod UID is required'')
          else Inr
            \<lparr> mr_table = ''pod'',
              mr_columns = pod_columns,
              mr_values = [VString (rb_tenantID b), VString (rb_clusterID b),
                VString (firstNonEmpty [getS pi_namespace_uid p, getS om_namespace md]), VString (getS pi_workload_uid p),
                VString (getS om_uid md), VString (getS pi_node_uid p), VString (getS om_namespace md), VString [],
                VString (getS om_name md), VString (getS pi_phase p), VString (getS pi_qos_class p),
                VString (getS pi_workload_kind p), VString (getS pi_workload_uid p),
                nullableTime (getP pi_scheduled_at p), nullableTime (getP pi_started_at p),
                nullableTime (getP om_deleted_at md),
                VMap (cloneMap (getM om_labels md))] @ tail_cells b op \<rparr>))"

definition mapContainer :: "rowBase \<Rightarrow> container_inventory option \<Rightarrow> persist_error + mappedRow" where
  "mapContainer b p = (case operationName (getP coi_record p) of
       Inl e \<Rightarrow> Inl e
     | Inr op \<Rightarrow>
         if getS coi_pod_uid p = [] \<or> getS coi_container_name p = []
         then Inl (ErrInvalidInventory ''container pod UID and name are required'')
         else Inr
            \<lparr> mr_table = ''container'',
              mr_columns = container_columns,
              mr_values = [VString (rb_tenantID b), VString (rb_clusterID b),
                VString (firstNonEmpty [getS coi_namespace_uid p, getS coi_namespace p]),
                VString (getS coi_workload_uid p), VString (getS coi_pod_uid p),
                VString (getS coi_workload_kind p), VString (getS coi_workload_uid p),
                VString (getS coi_container_name p), VString (getS coi_container_id p), VString (getS coi_image p),
                VString (getS coi_image_id p), VU32 (nonNegative32 (getN coi_restart_count p)),
                VU64 (nonNegative (optN rv_cpu_millicores (getP coi_requests p))),
                VU64 (nonNegative (optN rv_cpu_millicores (getP coi_limits p))),
                VU64 (nonNegative (optN rv_memory_bytes (getP coi_requests p))),
                VU64 (nonNegative (optN rv_memory_bytes (getP coi_limits p))),
                VU64 (gpuMilli (optN rv_gpu_count (getP coi_requests p)))] @ tail_cells b op \<rparr>)"

text \<open>The switch on the payload.  A result of \<^const>\<open>None\<close> on the right is \<^verbatim>\<open>ok = false\<close>: not an
  inventory payload.\<close>

definition map_payload :: "rowBase \<Rightarrow> payload option \<Rightarrow> persist_error + mappedRow option" where
  "map_payload base pl = (case pl of
       Some (ClusterInventory p) \<Rightarrow> map_sum id Some (mapCluster base p)
     | Some (NodeInventory p) \<Rightarrow> map_sum id Some (mapNode base p)
     | Some (NamespaceInventory p) \<Rightarrow> map_sum id Some (mapNamespace base p)
     | Some (DeploymentInventory p) \<Rightarrow> map_sum id Some (mapDeployment base p)
     | Some (PodInventory p) \<Rightarrow> map_sum id Some (mapPod base p)
     | Some (ContainerInventory p) \<Rightarrow> map_sum id Some (mapContainer base p)
     | _ \<Rightarrow> Inr None)"

definition mapObservation ::
  "(string \<Rightarrow> string) \<Rightarrow> queue_batch \<Rightarrow> observation option \<Rightarrow> persist_error + mappedRow option" where
  "mapObservation uuid batch observation = (case observation of
       None \<Rightarrow> Inl (ErrInvalidInventory ''observation is nil'')
     | Some ob \<Rightarrow>
         (let observedAt = (if timestampValid (ob_observed_at ob)
                then (case ob_observed_at ob of None \<Rightarrow> 0 | Some t \<Rightarrow> timestamp_AsTime t)
                else qb_ReceivedAt batch);
              base = \<lparr> rb_tenantID = qb_TenantID batch, rb_clusterID = qb_ClusterID batch,
                       rb_observedAt = observedAt, rb_eventID = uuid (ob_event_id ob),
                       rb_version = ob_sequence ob \<rparr>
          in if rb_tenantID base = [] \<or> rb_clusterID base = [] \<or> ob_event_id ob = [] \<or> rb_version base = 0
             then Inl (ErrInvalidInventory ''tenant, cluster, event ID, and sequence are required'')
             else map_payload base (ob_payload ob)))"

section \<open>Persist\<close>

text \<open>The grouping loop: inserts by table, and the tables in order of first appearance.\<close>

record grouping =
  gr_grouped :: "string \<Rightarrow> row_insert option"
  gr_order :: "string list"

definition group_row :: "grouping \<Rightarrow> mappedRow \<Rightarrow> grouping" where
  "group_row g row =
     (let (ins, g1) = (case gr_grouped g (mr_table row) of
            Some i \<Rightarrow> (i, g)
          | None \<Rightarrow> (\<lparr> in_Table = mr_table row, in_Columns = mr_columns row, in_Rows = [] \<rparr>,
                     g\<lparr> gr_order := gr_order g @ [mr_table row] \<rparr>))
      in g1\<lparr> gr_grouped := (gr_grouped g1)(mr_table row \<mapsto> ins\<lparr> in_Rows := in_Rows ins @ [mr_values row] \<rparr>) \<rparr>)"

fun group_observations ::
  "(string \<Rightarrow> string) \<Rightarrow> queue_batch \<Rightarrow> observation option list \<Rightarrow> grouping \<Rightarrow> persist_error + grouping" where
  "group_observations uuid batch [] g = Inr g"
| "group_observations uuid batch (ob # obs) g = (case mapObservation uuid batch ob of
       Inl e \<Rightarrow> Inl e
     | Inr None \<Rightarrow> group_observations uuid batch obs g
     | Inr (Some row) \<Rightarrow> group_observations uuid batch obs (group_row g row))"

fun group_batches ::
  "(string \<Rightarrow> string) \<Rightarrow> queue_batch option list \<Rightarrow> grouping \<Rightarrow> persist_error + grouping" where
  "group_batches uuid [] g = Inr g"
| "group_batches uuid (batch # batches) g = (case batch of
       None \<Rightarrow> group_batches uuid batches g
     | Some b \<Rightarrow>
         (case qb_ObservationSet b of
            None \<Rightarrow> group_batches uuid batches g
          | Some os \<Rightarrow>
              (case group_observations uuid b (bt_observations os) g of
                 Inl e \<Rightarrow> Inl e
               | Inr g' \<Rightarrow> group_batches uuid batches g')))"

text \<open>The outcomes of the driver's calls during one insert.\<close>

record ch_env =
  ch_prepareErr :: "error option"
  ch_appendErr :: "nat \<Rightarrow> error option"
  ch_sendErr :: "error option"

type_synonym db = "(string \<times> cell list list) list"

fun joinColumns :: "string list \<Rightarrow> string" where
  "joinColumns [] = []"
| "joinColumns [c] = c"
| "joinColumns (c # d # cs) = c @ '', '' @ joinColumns (d # cs)"

definition insert_query :: "row_insert \<Rightarrow> string" where
  "insert_query i = ''INSERT INTO kube_cost.'' @ in_Table i @ '' ('' @ joinColumns (in_Columns i) @ '')''"

fun append_rows :: "ch_env \<Rightarrow> row_insert \<Rightarrow> nat \<Rightarrow> cell list list \<Rightarrow> error option" where
  "append_rows env i n [] = None"
| "append_rows env i n (row # rows) =
     (if length row \<noteq> length (in_Columns i)
      then Some (in_Table i @ '' row has '' @ itoa (length row) @ '' values for '' @ itoa (length (in_Columns i)) @ '' columns'')
      else case ch_appendErr env n of
        Some e \<Rightarrow> Some (''append '' @ in_Table i @ '' row: '' @ e)
      | None \<Rightarrow> append_rows env i (Suc n) rows)"

definition store_Insert :: "ch_env \<Rightarrow> db \<Rightarrow> row_insert \<Rightarrow> db \<times> error option" where
  "store_Insert env db i =
     (if length (in_Rows i) = 0 then (db, None)
      else case ch_prepareErr env of
        Some e \<Rightarrow> (db, Some (''prepare '' @ in_Table i @ '' batch: '' @ e))
      | None \<Rightarrow>
          (case append_rows env i 0 (in_Rows i) of
             Some e \<Rightarrow> (db, Some e)
           | None \<Rightarrow>
               (case ch_sendErr env of
                  Some e \<Rightarrow> (db, Some (''send '' @ in_Table i @ '' batch: '' @ e))
                | None \<Rightarrow> (db @ [(insert_query i, in_Rows i)], None))))"

text \<open>The insert loop; the driver may behave differently for each table.\<close>

fun insert_tables :: "(string \<Rightarrow> ch_env) \<Rightarrow> (string \<Rightarrow> row_insert option) \<Rightarrow> db \<Rightarrow> string list \<Rightarrow> db \<times> error option" where
  "insert_tables env grouped db [] = (db, None)"
| "insert_tables env grouped db (t # ts) = (case grouped t of
       None \<Rightarrow> insert_tables env grouped db ts
     | Some i \<Rightarrow>
         (case store_Insert (env t) db i of
            (db', Some e) \<Rightarrow> (db', Some e)
          | (db', None) \<Rightarrow> insert_tables env grouped db' ts))"

definition empty_grouping :: grouping where
  "empty_grouping = \<lparr> gr_grouped = Map.empty, gr_order = [] \<rparr>"

definition Persist ::
  "(string \<Rightarrow> string) \<Rightarrow> (string \<Rightarrow> ch_env) \<Rightarrow> db \<Rightarrow> queue_batch option list \<Rightarrow> db \<times> persist_error option" where
  "Persist uuid env db batches = (case group_batches uuid batches empty_grouping of
       Inl e \<Rightarrow> (db, Some e)
     | Inr g \<Rightarrow>
         (case insert_tables env (gr_grouped g) db (sort (gr_order g)) of
            (db', e) \<Rightarrow> (db', map_option StoreError e)))"

section \<open>The worker\<close>

record worker_config =
  wc_BatchSize :: int
  wc_RetryInitial :: duration
  wc_RetryMaximum :: duration

definition NewWorker :: "worker_config \<Rightarrow> worker_config" where
  "NewWorker c =
     \<lparr> wc_BatchSize = (if wc_BatchSize c \<le> 0 then 20 else wc_BatchSize c),
       wc_RetryInitial = (if wc_RetryInitial c \<le> 0 then Second else wc_RetryInitial c),
       wc_RetryMaximum = (if wc_RetryMaximum c \<le> 0 then 30 * Second else wc_RetryMaximum c) \<rparr>"

text \<open>The state the worker's loop acts on, with the batches it committed so far, in order.
  What surrounds one turn: the batches the streams enqueue before it, the
  driver's behaviour, and whether the context ends during a back-off.\<close>

record worker_state =
  ws_queue :: queue
  ws_closed :: "nat set"
  ws_db :: db
  ws_backoff :: duration
  ws_committed :: "queue_batch option list"

record worker_env =
  we_arrivals :: "queue_batch option list"
  we_store :: "string \<Rightarrow> ch_env"
  we_ctxDone :: bool

datatype worker_result = Running worker_state | Blocked worker_state | Stopped worker_state "persist_error option" | WorkerPanic

fun arrive :: "queue \<Rightarrow> queue_batch option list \<Rightarrow> queue" where
  "arrive q [] = q"
| "arrive q (b # bs) = arrive (fst (TryEnqueue q b)) bs"

definition turn_failed ::
  "worker_config \<Rightarrow> worker_env \<Rightarrow> worker_state \<Rightarrow> lease \<Rightarrow> queue \<Rightarrow> db \<Rightarrow> persist_error \<Rightarrow> worker_result" where
  "turn_failed c env w l q1 db' err =
     (let w' = w\<lparr> ws_queue := snd (lease_Retry l q1), ws_db := db' \<rparr> in
      case err of
        ErrInvalidInventory e \<Rightarrow> Stopped w' (Some err)
      | StoreError e \<Rightarrow>
          if we_ctxDone env then Stopped w' None
          else Running (w'\<lparr> ws_backoff := min (ws_backoff w * 2) (wc_RetryMaximum c) \<rparr>))"

definition turn_persisted :: "worker_config \<Rightarrow> worker_state \<Rightarrow> lease \<Rightarrow> queue \<Rightarrow> db \<Rightarrow> worker_result" where
  "turn_persisted c w l q1 db' = (case lease_Commit l q1 (ws_closed w) of
       None \<Rightarrow> WorkerPanic
     | Some (l', q2, closed') \<Rightarrow>
         Running \<lparr> ws_queue = q2, ws_closed = closed', ws_db = db', ws_backoff = wc_RetryInitial c,
                   ws_committed = ws_committed w @ l_items l \<rparr>)"

definition worker_turn ::
  "(string \<Rightarrow> string) \<Rightarrow> worker_config \<Rightarrow> worker_env \<Rightarrow> worker_state \<Rightarrow> worker_result" where
  "worker_turn uuid c env w =
     (let q = arrive (ws_queue w) (we_arrivals env) in
      case Acquire q (wc_BatchSize c) of
        None \<Rightarrow> Blocked (w\<lparr> ws_queue := q \<rparr>)
      | Some (l, q1) \<Rightarrow>
          (case Persist uuid (we_store env) (ws_db w) (lease_Items l) of
             (db', Some err) \<Rightarrow> turn_failed c env w l q1 db' err
           | (db', None) \<Rightarrow> turn_persisted c w l q1 db'))"

text \<open>\<^verbatim>\<open>Run\<close> over a sequence of turns; a blocked worker waits for the next arrivals.\<close>

fun worker_Run :: "(string \<Rightarrow> string) \<Rightarrow> worker_config \<Rightarrow> worker_env list \<Rightarrow> worker_state \<Rightarrow> worker_result" where
  "worker_Run uuid c [] w = Running w"
| "worker_Run uuid c (env # envs) w = (case worker_turn uuid c env w of
       Running w' \<Rightarrow> worker_Run uuid c envs w'
     | Blocked w' \<Rightarrow> worker_Run uuid c envs w'
     | r \<Rightarrow> r)"

section \<open>Lemmas on the mappings\<close>

definition table_columns :: "string \<Rightarrow> string list" where
  "table_columns t = (if t = ''cluster'' then cluster_columns else if t = ''node'' then node_columns
     else if t = ''namespace'' then namespace_columns else if t = ''deployment'' then deployment_columns
     else if t = ''pod'' then pod_columns else container_columns)"

lemmas column_defs = cluster_columns_def node_columns_def namespace_columns_def deployment_columns_def
  pod_columns_def container_columns_def

lemmas mapping_defs = mapCluster_def mapNode_def mapNamespace_def mapDeployment_def mapPod_def mapContainer_def

lemma table_columns_simps [simp]:
  "table_columns ''cluster'' = cluster_columns" "table_columns ''node'' = node_columns"
  "table_columns ''namespace'' = namespace_columns" "table_columns ''deployment'' = deployment_columns"
  "table_columns ''pod'' = pod_columns" "table_columns ''container'' = container_columns"
  by (simp_all add: table_columns_def)

lemma column_lengths [simp]:
  "length cluster_columns = 14" "length node_columns = 23" "length namespace_columns = 16"
  "length deployment_columns = 20" "length pod_columns = 23" "length container_columns = 23"
  by (simp_all add: column_defs)

lemma tail_cells_length [simp]: "length (tail_cells b op) = 6"
  by (simp add: tail_cells_def)

lemma mapping_shape:
  "mapCluster b c = Inr r \<Longrightarrow> mr_columns r = table_columns (mr_table r) \<and> length (mr_values r) = length (mr_columns r)"
  "mapNode b n = Inr r \<Longrightarrow> mr_columns r = table_columns (mr_table r) \<and> length (mr_values r) = length (mr_columns r)"
  "mapNamespace b ns = Inr r \<Longrightarrow> mr_columns r = table_columns (mr_table r) \<and> length (mr_values r) = length (mr_columns r)"
  "mapDeployment b d = Inr r \<Longrightarrow> mr_columns r = table_columns (mr_table r) \<and> length (mr_values r) = length (mr_columns r)"
  "mapPod b p = Inr r \<Longrightarrow> mr_columns r = table_columns (mr_table r) \<and> length (mr_values r) = length (mr_columns r)"
  "mapContainer b ct = Inr r \<Longrightarrow> mr_columns r = table_columns (mr_table r) \<and> length (mr_values r) = length (mr_columns r)"
  by (auto simp: mapping_defs Let_def split: sum.splits if_splits)

lemma map_payload_shape:
  "map_payload b pl = Inr (Some r) \<Longrightarrow>
   mr_columns r = table_columns (mr_table r) \<and> length (mr_values r) = length (mr_columns r)"
  using mapping_shape by (cases pl) (auto simp: map_payload_def map_sum_def split: payload.splits sum.splits)

lemma mapObservation_shape:
  assumes "mapObservation uuid b ob = Inr (Some r)"
  shows "mr_columns r = table_columns (mr_table r)" "length (mr_values r) = length (mr_columns r)"
  using assms map_payload_shape by (auto simp: mapObservation_def Let_def split: option.splits if_splits)

lemma operationName_valid: "validateInventoryRecord r = None \<Longrightarrow> \<exists>op. operationName r = Inr op"
  by (auto simp: validateInventoryRecord_def operationName_def split: inventory_operation.splits)

lemma record_then_None: "record_then r m e = None \<longleftrightarrow> validateInventoryRecord r = None \<and> \<not> m"
  by (auto simp: record_then_def split: option.splits)

lemma mapping_total:
  "validateInventoryRecord (getP ci_record c) = None \<Longrightarrow> \<exists>r. mapCluster b c = Inr r"
  "validateInventoryRecord (getP ni_record n) = None \<Longrightarrow> getS om_uid (getP ni_metadata n) \<noteq> [] \<Longrightarrow> \<exists>r. mapNode b n = Inr r"
  "validateInventoryRecord (getP nsi_record ns) = None \<Longrightarrow> getS om_uid (getP nsi_metadata ns) \<noteq> [] \<Longrightarrow> \<exists>r. mapNamespace b ns = Inr r"
  "validateInventoryRecord (getP di_record d) = None \<Longrightarrow> getS om_uid (getP di_metadata d) \<noteq> [] \<Longrightarrow> \<exists>r. mapDeployment b d = Inr r"
  "validateInventoryRecord (getP pi_record p) = None \<Longrightarrow> getS om_uid (getP pi_metadata p) \<noteq> [] \<Longrightarrow> \<exists>r. mapPod b p = Inr r"
  "validateInventoryRecord (getP coi_record ct) = None \<Longrightarrow> getS coi_pod_uid ct \<noteq> [] \<Longrightarrow> getS coi_container_name ct \<noteq> [] \<Longrightarrow> \<exists>r. mapContainer b ct = Inr r"
  by (auto simp: mapping_defs Let_def dest!: operationName_valid)

lemma map_payload_valid:
  assumes "validateInventoryObservation ob = None" "getP ob_payload ob = Some pl"
  shows "\<exists>r. map_payload base (Some pl) = Inr r"
proof (cases pl)
  case (ClusterInventory x)
  with assms mapping_total(1) [of x base] show ?thesis
    by (auto simp: map_payload_def validateInventoryObservation_def record_then_None)
next
  case (NodeInventory x)
  with assms mapping_total(2) [of x base] show ?thesis
    by (auto simp: map_payload_def validateInventoryObservation_def record_then_None)
next
  case (NamespaceInventory x)
  with assms mapping_total(3) [of x base] show ?thesis
    by (auto simp: map_payload_def validateInventoryObservation_def record_then_None)
next
  case (DeploymentInventory x)
  with assms mapping_total(4) [of x base] show ?thesis
    by (auto simp: map_payload_def validateInventoryObservation_def record_then_None)
next
  case (PodInventory x)
  with assms mapping_total(5) [of x base] show ?thesis
    by (auto simp: map_payload_def validateInventoryObservation_def record_then_None)
next
  case (ContainerInventory x)
  with assms mapping_total(6) [of x base] show ?thesis
    by (auto simp: map_payload_def validateInventoryObservation_def record_then_None)
qed (simp_all add: map_payload_def)

lemma mapObservation_valid:
  assumes "valid_observation ob" "getN ob_sequence ob \<noteq> 0" "qb_TenantID b \<noteq> []" "qb_ClusterID b \<noteq> []"
  shows "\<exists>r. mapObservation uuid b ob = Inr r"
proof -
  obtain o' where o: "ob = Some o'" using assms(2) by (cases ob) auto
  obtain pl where pl: "ob_payload o' = Some pl" using assms(1) o by (auto simp: valid_observation_def)
  have v: "validateInventoryObservation ob = None" "ob_event_id o' \<noteq> []" using assms(1) o
    by (auto simp: valid_observation_def)
  show ?thesis
    using v(2) assms(2,3,4) o pl map_payload_valid [OF v(1)] by (simp add: mapObservation_def Let_def)
qed

section \<open>Lemmas on grouping\<close>

definition mapped_rows :: "(string \<Rightarrow> string) \<Rightarrow> queue_batch \<Rightarrow> observation option list \<Rightarrow> mappedRow list" where
  "mapped_rows uuid b obs = List.map_filter (\<lambda>ob. case mapObservation uuid b ob of Inr r \<Rightarrow> r | Inl _ \<Rightarrow> None) obs"

text \<open>All the rows a list of batches maps to, in order.\<close>

definition batch_rows :: "(string \<Rightarrow> string) \<Rightarrow> queue_batch option list \<Rightarrow> mappedRow list" where
  "batch_rows uuid bs = concat (map (\<lambda>b. case b of None \<Rightarrow> []
     | Some qb \<Rightarrow> (case qb_ObservationSet qb of None \<Rightarrow> [] | Some os \<Rightarrow> mapped_rows uuid qb (bt_observations os))) bs)"

definition rows_of :: "string \<Rightarrow> mappedRow list \<Rightarrow> cell list list" where
  "rows_of t rs = map mr_values (filter (\<lambda>r. mr_table r = t) rs)"

text \<open>The grouping holds exactly the rows seen so far, by table.\<close>

definition groups :: "grouping \<Rightarrow> mappedRow list \<Rightarrow> bool" where
  "groups g rs = (distinct (gr_order g) \<and> set (gr_order g) = mr_table ` set rs
     \<and> (\<forall>t. gr_grouped g t = (if t \<in> mr_table ` set rs
           then Some \<lparr> in_Table = t, in_Columns = table_columns t, in_Rows = rows_of t rs \<rparr> else None)))"

lemma groups_empty [simp]: "groups empty_grouping []"
  by (simp add: groups_def empty_grouping_def)

lemma rows_of_snoc: "rows_of t (rs @ [r]) = rows_of t rs @ (if mr_table r = t then [mr_values r] else [])"
  by (simp add: rows_of_def)

lemma rows_of_unseen: "t \<notin> mr_table ` set rs \<Longrightarrow> rows_of t rs = []"
  by (auto simp: rows_of_def filter_empty_conv)

lemma group_row_groups:
  assumes "groups g rs" "mr_columns r = table_columns (mr_table r)"
  shows "groups (group_row g r) (rs @ [r])"
proof (cases "mr_table r \<in> mr_table ` set rs")
  case True
  then show ?thesis using assms by (auto simp: groups_def group_row_def rows_of_snoc)
next
  case False
  then show ?thesis using assms rows_of_unseen [OF False] by (auto simp: groups_def group_row_def rows_of_snoc)
qed

lemma group_observations_groups:
  "group_observations uuid b obs g = Inr g' \<Longrightarrow> groups g rs \<Longrightarrow> groups g' (rs @ mapped_rows uuid b obs)"
proof (induction obs arbitrary: g rs)
  case (Cons ob obs)
  then obtain r where r: "mapObservation uuid b ob = Inr r" by (auto split: sum.splits)
  show ?case
  proof (cases r)
    case None
    with Cons r show ?thesis by (simp add: mapped_rows_def List.map_filter_simps)
  next
    case (Some row)
    with r have "groups (group_row g row) (rs @ [row])"
      using group_row_groups [OF Cons.prems(2)] mapObservation_shape by blast
    with Cons r Some show ?thesis by (fastforce simp: mapped_rows_def List.map_filter_simps)
  qed
qed (simp add: mapped_rows_def List.map_filter_simps)

lemma group_batches_groups:
  "group_batches uuid bs g = Inr g' \<Longrightarrow> groups g rs \<Longrightarrow> groups g' (rs @ batch_rows uuid bs)"
proof (induction bs arbitrary: g rs)
  case (Cons b bs)
  show ?case
  proof (cases "\<exists>qb os. b = Some qb \<and> qb_ObservationSet qb = Some os")
    case True
    then obtain qb os where b: "b = Some qb" "qb_ObservationSet qb = Some os" by blast
    then obtain g1 where g1: "group_observations uuid qb (bt_observations os) g = Inr g1"
      using Cons.prems(1) by (auto split: sum.splits)
    have "group_batches uuid bs g1 = Inr g'" using Cons.prems(1) b g1 by simp
    from Cons.IH [OF this group_observations_groups [OF g1 Cons.prems(2)]]
    have "groups g' ((rs @ mapped_rows uuid qb (bt_observations os)) @ batch_rows uuid bs)" .
    then show ?thesis using b by (simp add: batch_rows_def)
  next
    case False
    then show ?thesis using Cons by (auto simp: batch_rows_def split: option.splits)
  qed
qed (simp add: batch_rows_def)

section \<open>Lemmas on inserts\<close>

definition table_query :: "string \<Rightarrow> string" where
  "table_query t = ''INSERT INTO kube_cost.'' @ t @ '' ('' @ joinColumns (table_columns t) @ '')''"

definition shaped :: "mappedRow list \<Rightarrow> bool" where
  "shaped rs = (\<forall>r \<in> set rs. length (mr_values r) = length (table_columns (mr_table r)))"

definition ch_ok :: "ch_env \<Rightarrow> bool" where
  "ch_ok env = (ch_prepareErr env = None \<and> (\<forall>n. ch_appendErr env n = None) \<and> ch_sendErr env = None)"

lemma batch_rows_shaped: "shaped (batch_rows uuid bs)"
  using mapObservation_shape
  by (auto simp: shaped_def batch_rows_def mapped_rows_def List.map_filter_def split: option.splits sum.splits)

lemma rows_of_shaped: "shaped rs \<Longrightarrow> row \<in> set (rows_of t rs) \<Longrightarrow> length row = length (table_columns t)"
  by (auto simp: shaped_def rows_of_def)

lemma rows_of_seen: "t \<in> mr_table ` set rs \<Longrightarrow> rows_of t rs \<noteq> []"
  by (auto simp: rows_of_def filter_empty_conv)

lemma append_rows_ok:
  "\<forall>row \<in> set rows. length row = length (in_Columns i) \<Longrightarrow> ch_ok env \<Longrightarrow> append_rows env i n rows = None"
  by (induction rows arbitrary: n) (auto simp: ch_ok_def)

lemma store_Insert_cases:
  "store_Insert env db i = (db', e) \<Longrightarrow>
   e = None \<and> (in_Rows i \<noteq> [] \<longrightarrow> db' = db @ [(insert_query i, in_Rows i)]) \<and> (in_Rows i = [] \<longrightarrow> db' = db)
   \<or> e \<noteq> None \<and> db' = db"
  by (cases e; cases "append_rows env i 0 (in_Rows i)")
    (auto simp: store_Insert_def split: if_splits option.splits)

lemma store_Insert_ok:
  "\<forall>row \<in> set (in_Rows i). length row = length (in_Columns i) \<Longrightarrow> ch_ok env \<Longrightarrow> snd (store_Insert env db i) = None"
  using append_rows_ok [of "in_Rows i" i env 0] by (auto simp: store_Insert_def ch_ok_def)

definition table_insert :: "string \<Rightarrow> mappedRow list \<Rightarrow> string \<times> cell list list" where
  "table_insert t rs = (table_query t, rows_of t rs)"

lemma insert_tables_spec:
  assumes "groups g rs" "set ts \<subseteq> mr_table ` set rs" "insert_tables env (gr_grouped g) db ts = (db', e)"
  shows "\<exists>us vs. ts = us @ vs \<and> db' = db @ map (\<lambda>t. table_insert t rs) us \<and> (e = None \<longleftrightarrow> vs = [])"
  using assms(2,3)
proof (induction ts arbitrary: db)
  case (Cons t ts)
  let ?i = "\<lparr> in_Table = t, in_Columns = table_columns t, in_Rows = rows_of t rs \<rparr>"
  have g: "gr_grouped g t = Some ?i" using assms(1) Cons.prems(1) by (simp add: groups_def)
  obtain db1 e1 where i: "store_Insert (env t) db ?i = (db1, e1)" by (cases "store_Insert (env t) db ?i")
  have ne: "rows_of t rs \<noteq> []" using rows_of_seen Cons.prems(1) by simp
  show ?case
  proof (cases e1)
    case None
    then have d: "db1 = db @ [table_insert t rs]"
      using store_Insert_cases [OF i] ne by (simp add: insert_query_def table_query_def table_insert_def)
    have "insert_tables env (gr_grouped g) db1 ts = (db', e)" using Cons.prems(2) g i None by simp
    then obtain us vs where "ts = us @ vs" "db' = db1 @ map (\<lambda>t. table_insert t rs) us" "e = None \<longleftrightarrow> vs = []"
      using Cons.IH Cons.prems(1) by (metis insert_subset list.set(2))
    with d show ?thesis by (intro exI [of _ "t # us"] exI [of _ vs]) simp
  next
    case (Some x)
    with store_Insert_cases [OF i] Cons.prems(2) g i show ?thesis
      by (intro exI [of _ "[]"] exI [of _ "t # ts"]) auto
  qed
qed simp

lemma insert_tables_ok:
  assumes "groups g rs" "shaped rs" "\<forall>t \<in> set ts. ch_ok (env t)"
  shows "snd (insert_tables env (gr_grouped g) db ts) = None"
  using assms(3)
proof (induction ts arbitrary: db)
  case (Cons t ts)
  show ?case
  proof (cases "gr_grouped g t")
    case (Some i)
    then have i: "i = \<lparr> in_Table = t, in_Columns = table_columns t, in_Rows = rows_of t rs \<rparr>"
      using assms(1) by (simp add: groups_def split: if_splits)
    then have "snd (store_Insert (env t) db i) = None"
      using rows_of_shaped [OF assms(2)] Cons.prems by (intro store_Insert_ok) simp_all
    then obtain db1 where "store_Insert (env t) db i = (db1, None)" by (metis prod.collapse)
    then show ?thesis using Cons Some by simp
  qed (use Cons in simp)
qed simp

lemma Persist_groups:
  assumes "group_batches uuid bs empty_grouping = Inr g"
  shows "groups g (batch_rows uuid bs)" "sort (gr_order g) = sorted_list_of_set (mr_table ` set (batch_rows uuid bs))"
proof -
  show g: "groups g (batch_rows uuid bs)" using group_batches_groups [OF assms groups_empty] by simp
  then have "distinct (gr_order g)" "set (gr_order g) = mr_table ` set (batch_rows uuid bs)"
    by (simp_all add: groups_def)
  then show "sort (gr_order g) = sorted_list_of_set (mr_table ` set (batch_rows uuid bs))"
    by (metis sorted_list_of_set_sort_remdups distinct_remdups_id)
qed

text \<open>Batches as the stream handler queues them.\<close>

definition persistable :: "queue_batch option \<Rightarrow> bool" where
  "persistable b = (case b of None \<Rightarrow> True
     | Some qb \<Rightarrow> qb_TenantID qb \<noteq> [] \<and> qb_ClusterID qb \<noteq> []
         \<and> (case qb_ObservationSet qb of None \<Rightarrow> True
             | Some os \<Rightarrow> \<forall>ob \<in> set (bt_observations os). valid_observation ob \<and> getN ob_sequence ob \<noteq> 0))"

lemma group_observations_total:
  assumes "\<forall>ob \<in> set obs. valid_observation ob \<and> getN ob_sequence ob \<noteq> 0" "qb_TenantID b \<noteq> []" "qb_ClusterID b \<noteq> []"
  shows "\<exists>g'. group_observations uuid b obs g = Inr g'"
  using assms(1)
proof (induction obs arbitrary: g)
  case (Cons ob obs)
  then obtain r where "mapObservation uuid b ob = Inr r" using mapObservation_valid assms(2,3) by fastforce
  with Cons show ?case by (cases r) simp_all
qed simp

lemma group_batches_total: "\<forall>b \<in> set bs. persistable b \<Longrightarrow> \<exists>g'. group_batches uuid bs g = Inr g'"
proof (induction bs arbitrary: g)
  case (Cons b bs)
  show ?case
  proof (cases "\<exists>qb os. b = Some qb \<and> qb_ObservationSet qb = Some os")
    case True
    then obtain qb os where b: "b = Some qb" "qb_ObservationSet qb = Some os" by blast
    with Cons.prems obtain g1 where "group_observations uuid qb (bt_observations os) g = Inr g1"
      using group_observations_total [of "bt_observations os" qb uuid g] by (auto simp: persistable_def)
    with Cons b show ?thesis by simp
  next
    case False
    then show ?thesis using Cons by (auto split: option.splits)
  qed
qed simp

lemma Persist_not_invalid:
  "\<forall>b \<in> set bs. persistable b \<Longrightarrow> snd (Persist uuid env db bs) \<noteq> Some (ErrInvalidInventory e)"
  using group_batches_total [of bs uuid empty_grouping] by (auto simp: Persist_def split: prod.splits)

lemma Persist_ok:
  assumes "\<forall>b \<in> set bs. persistable b" "\<forall>t. ch_ok (env t)"
  shows "snd (Persist uuid env db bs) = None"
proof -
  obtain g where g: "group_batches uuid bs empty_grouping = Inr g" using group_batches_total [OF assms(1)] by blast
  have "snd (insert_tables env (gr_grouped g) db (sort (gr_order g))) = None"
    using insert_tables_ok [OF Persist_groups(1) [OF g] batch_rows_shaped] assms(2) by blast
  then show ?thesis using g by (auto simp: Persist_def split: prod.splits)
qed

text \<open>Inserts are only appended; after a success every mapped row is among them.\<close>

lemma Persist_stores:
  assumes "Persist uuid env db bs = (db', err)"
  shows "set db \<subseteq> set db'"
    and "err = None \<Longrightarrow> r \<in> set (batch_rows uuid bs) \<Longrightarrow>
      \<exists>rows. (table_query (mr_table r), rows) \<in> set db' \<and> mr_values r \<in> set rows"
proof -
  have "set db \<subseteq> set db' \<and> (err = None \<longrightarrow> r \<in> set (batch_rows uuid bs) \<longrightarrow>
      (table_query (mr_table r), rows_of (mr_table r) (batch_rows uuid bs)) \<in> set db')"
  proof (cases "group_batches uuid bs empty_grouping")
    case (Inl e)
    with assms show ?thesis by (auto simp: Persist_def)
  next
    case (Inr g)
    note g = Persist_groups [OF Inr]
    obtain e where i: "insert_tables env (gr_grouped g) db (sort (gr_order g)) = (db', e)" "err = map_option StoreError e"
      using assms Inr by (auto simp: Persist_def split: prod.splits)
    have sub: "set (sort (gr_order g)) = mr_table ` set (batch_rows uuid bs)" using g(1) by (simp add: groups_def)
    from insert_tables_spec [OF g(1) equalityD1 [OF sub] i(1)] obtain us vs where
      us: "sort (gr_order g) = us @ vs" "db' = db @ map (\<lambda>t. table_insert t (batch_rows uuid bs)) us" "e = None \<longleftrightarrow> vs = []"
      by blast
    have "err = None \<Longrightarrow> set us = mr_table ` set (batch_rows uuid bs)" using us(1,3) sub i(2) by simp
    then show ?thesis using us(2) by (auto simp: table_insert_def)
  qed
  moreover have "r \<in> set (batch_rows uuid bs) \<Longrightarrow> mr_values r \<in> set (rows_of (mr_table r) (batch_rows uuid bs))"
    by (auto simp: rows_of_def)
  ultimately show "set db \<subseteq> set db'" "err = None \<Longrightarrow> r \<in> set (batch_rows uuid bs) \<Longrightarrow>
      \<exists>rows. (table_query (mr_table r), rows) \<in> set db' \<and> mr_values r \<in> set rows" by auto
qed

section \<open>Properties of the repository\<close>

text \<open>C21: A successful \<^verbatim>\<open>Persist\<close> writes exactly the rows of the given batches: one insert per table that has rows, in
  ascending order of the table names, each with that table's columns and all of its rows in the order of the
  observations, appended to what the database held.  A failed one leaves a prefix of these inserts
  and nothing else.\<close>

theorem persist_writes_exactly:
  assumes "Persist uuid env db bs = (db', err)"
  shows "\<exists>ts. prefix ts (sorted_list_of_set (mr_table ` set (batch_rows uuid bs)))
     \<and> db' = db @ map (\<lambda>t. (table_query t, rows_of t (batch_rows uuid bs))) ts
     \<and> (err = None \<longrightarrow> ts = sorted_list_of_set (mr_table ` set (batch_rows uuid bs)))"
proof (cases "group_batches uuid bs empty_grouping")
  case (Inl e)
  with assms show ?thesis by (auto simp: Persist_def)
next
  case (Inr g)
  note g = Persist_groups [OF Inr]
  obtain e where i: "insert_tables env (gr_grouped g) db (sort (gr_order g)) = (db', e)" "err = map_option StoreError e"
    using assms Inr by (auto simp: Persist_def split: prod.splits)
  have "set (sort (gr_order g)) \<subseteq> mr_table ` set (batch_rows uuid bs)" using g(1) by (simp add: groups_def)
  from insert_tables_spec [OF g(1) this i(1)] obtain us vs where
    "sort (gr_order g) = us @ vs" "db' = db @ map (\<lambda>t. table_insert t (batch_rows uuid bs)) us" "e = None \<longleftrightarrow> vs = []"
    by blast
  moreover from this g(2) have "prefix us (sorted_list_of_set (mr_table ` set (batch_rows uuid bs)))"
    by (metis prefixI)
  ultimately show ?thesis using g(2) i(2) by (intro exI [of _ us]) (auto simp: table_insert_def)
qed

definition sample_node_observation :: "observation option" where
  "sample_node_observation = Some \<lparr> ob_sequence = 7, ob_event_id = ''e'', ob_observed_at = None, ob_collected_at = None,
     ob_source_resource_version = [], ob_payload = Some (ClusterInventory (Some
       \<lparr> ci_record = Some \<lparr> ir_operation = UPSERT, ir_snapshot_id = [], ir_snapshot_record = False \<rparr>, ci_cluster_uid = ''u'',
         ci_name = ''n'', ci_kubernetes_version = [], ci_provider = [], ci_region = [], ci_account_id = [],
         ci_labels = Map.empty \<rparr>)) \<rparr>"

definition sample_queued :: "queue_batch option" where
  "sample_queued = Some \<lparr> qb_TenantID = ''t'', qb_ClusterID = ''c'', qb_AgentInstance = [], qb_SessionID = [],
     qb_ReceivedAt = 5, qb_ObservationSet = Some ((sample_obatch [7])\<lparr> bt_observations := [sample_node_observation] \<rparr>),
     qb_persisted = Some 0 \<rparr>"

definition ch_fine :: ch_env where
  "ch_fine = \<lparr> ch_prepareErr = None, ch_appendErr = (\<lambda>_. None), ch_sendErr = None \<rparr>"

lemma sample_rows: "map mr_table (batch_rows id [sample_queued]) = [''cluster'']"
  by (simp add: batch_rows_def mapped_rows_def sample_queued_def sample_node_observation_def List.map_filter_simps
      mapObservation_def map_payload_def mapCluster_def operationName_def timestampValid_def)

lemma sample_tables: "mr_table ` set (batch_rows id [sample_queued]) = {''cluster''}"
  using arg_cong [OF sample_rows, of set] by simp

theorem persist_writes_exactly_witness:
  "\<exists>ts. prefix ts [''cluster''] \<and> fst (Persist id (\<lambda>_. ch_fine) [] [sample_queued])
     = map (\<lambda>t. (table_query t, rows_of t (batch_rows id [sample_queued]))) ts"
  using persist_writes_exactly [of id "\<lambda>_. ch_fine" "[]" "[sample_queued]"
      "fst (Persist id (\<lambda>_. ch_fine) [] [sample_queued])" "snd (Persist id (\<lambda>_. ch_fine) [] [sample_queued])"]
  by (auto simp: sample_tables)

text \<open>C22: Batches with a tenant, a cluster and validated observations never fail in the mapping: \<^verbatim>\<open>Persist\<close> never
  reports \<^verbatim>\<open>ErrInvalidInventory\<close>, the row-length check never fires, and when no call of
  the driver fails, it succeeds.\<close>

theorem persist_total_on_validated:
  assumes "\<forall>b \<in> set bs. persistable b"
  shows "(\<forall>e. snd (Persist uuid env db bs) \<noteq> Some (ErrInvalidInventory e))
     \<and> ((\<forall>t. ch_ok (env t)) \<longrightarrow> snd (Persist uuid env db bs) = None)"
  using Persist_not_invalid [OF assms] Persist_ok [OF assms] by blast

lemma sample_persistable: "persistable sample_queued"
  by (simp add: persistable_def sample_queued_def sample_node_observation_def valid_observation_def
      validateInventoryObservation_def validateInventoryRecord_def)

theorem persist_total_on_validated_witness:
  "snd (Persist id (\<lambda>_. ch_fine) [] [sample_queued]) = None"
  using persist_total_on_validated [of "[sample_queued]" id "\<lambda>_. ch_fine" "[]"] sample_persistable
  by (simp add: ch_ok_def ch_fine_def)

text \<open>Resource quantities are clamped, never wrapped: negative values become zero, other values are
  kept, and the milli-GPU conversion is exactly \<^verbatim>\<open>min (1000 * v) (2 ^ 64 - 1)\<close> on non-negative \<^verbatim>\<open>v\<close>.\<close>

theorem quantities_clamped:
  "unat (nonNegative v) = nat (sint v) \<and> unat (nonNegative32 w) = nat (sint w)
   \<and> unat (gpuMilli v) = min (1000 * nat (sint v)) (2 ^ 64 - 1)"
proof (intro conjI)
  show "unat (nonNegative v) = nat (sint v)" "unat (nonNegative32 w) = nat (sint w)"
    by (auto simp: nonNegative_def nonNegative32_def sint_nonneg_unat)
  show "unat (gpuMilli v) = min (1000 * nat (sint v)) (2 ^ 64 - 1)"
  proof (cases "0 < sint v \<and> sint v \<le> int (MaxUint64 div 1000)")
    case True
    then have "unat v = nat (sint v)" by (simp add: sint_nonneg_unat)
    moreover have "nat (sint v) \<le> 18446744073709551" using True by (simp add: MaxUint64_def nat_le_iff)
    then have "nat (sint v) * 1000 < 2 ^ 64" by simp
    ultimately show ?thesis using True by (simp add: gpuMilli_def unat_word_ariths)
  next
    case False
    then show ?thesis by (auto simp: gpuMilli_def MaxUint64_def unat_of_nat)
  qed
qed

section \<open>Lemmas on the worker\<close>

definition result_state :: "worker_result \<Rightarrow> worker_state option" where
  "result_state r = (case r of Running w \<Rightarrow> Some w | Blocked w \<Rightarrow> Some w | Stopped w _ \<Rightarrow> Some w | WorkerPanic \<Rightarrow> None)"

lemma arrive_items: "\<exists>bs'. subseq bs' bs \<and> q_items (arrive q bs) = q_items q @ bs'"
proof (induction bs arbitrary: q)
  case (Cons b bs)
  obtain q' e where t: "TryEnqueue q b = (q', e)" by (cases "TryEnqueue q b")
  obtain bs' where b: "subseq bs' bs" "q_items (arrive q' bs) = q_items q' @ bs'" using Cons.IH by blast
  show ?case
  proof (cases e)
    case None
    then have "q_items q' = q_items q @ [b]" using t TryEnqueue_okE by blast
    then show ?thesis using b t by (intro exI [of _ "b # bs'"]) simp
  next
    case (Some x)
    then have "q' = q" using t TryEnqueue_fullE by blast
    then show ?thesis using b t by (intro exI [of _ bs']) auto
  qed
qed simp

lemma turn_failed_spec:
  "\<exists>w'. result_state (turn_failed c env w \<lparr> l_items = bs, l_once = False \<rparr> q1 db' err) = Some w'
     \<and> ws_queue w' = back_op bs q1 \<and> ws_committed w' = ws_committed w \<and> ws_closed w' = ws_closed w \<and> ws_db w' = db'
     \<and> (ws_backoff w' = ws_backoff w \<or> ws_backoff w' = min (ws_backoff w * 2) (wc_RetryMaximum c))"
  by (auto simp: turn_failed_def result_state_def back_op_def Let_def split: persist_error.splits)

lemma turn_failed_Stopped:
  "turn_failed c env w l q1 db' err = Stopped w' (Some e) \<Longrightarrow> err = e \<and> (\<exists>m. e = ErrInvalidInventory m)"
  by (auto simp: turn_failed_def Let_def split: persist_error.splits if_splits)

lemma turn_persisted_spec:
  "turn_persisted c w \<lparr> l_items = bs, l_once = False \<rparr> q1 db' = (case markAll bs (ws_closed w) of
     None \<Rightarrow> WorkerPanic
   | Some closed' \<Rightarrow> Running \<lparr> ws_queue = done_op bs q1, ws_closed = closed', ws_db = db',
       ws_backoff = wc_RetryInitial c, ws_committed = ws_committed w @ bs \<rparr>)"
  by (simp add: turn_persisted_def lease_Commit_def done_op_def split: option.splits)

text \<open>How a turn ends, in terms of the queue interface.\<close>

lemma worker_turn_cases:
  fixes w :: worker_state and env :: worker_env
  defines "q \<equiv> arrive (ws_queue w) (we_arrivals env)"
  obtains (blocked) "worker_turn uuid c env w = Blocked (w\<lparr> ws_queue := q \<rparr>)" "q_items q = []"
  | (failed) bs q1 db' err where "acq_op q (wc_BatchSize c) = Some (bs, q1)"
      "Persist uuid (we_store env) (ws_db w) bs = (db', Some err)"
      "worker_turn uuid c env w = turn_failed c env w \<lparr> l_items = bs, l_once = False \<rparr> q1 db' err"
  | (persisted) bs q1 db' where "acq_op q (wc_BatchSize c) = Some (bs, q1)"
      "Persist uuid (we_store env) (ws_db w) bs = (db', None)"
      "worker_turn uuid c env w = turn_persisted c w \<lparr> l_items = bs, l_once = False \<rparr> q1 db'"
proof (cases "acq_op q (wc_BatchSize c)")
  case None
  then have "Acquire q (wc_BatchSize c) = None" by (simp add: acq_op_def)
  with None iq.acq_blocks show ?thesis by (intro blocked) (auto simp: worker_turn_def q_def)
next
  case (Some x)
  obtain bs q1 where x: "x = (bs, q1)" by (cases x)
  have a: "Acquire q (wc_BatchSize c) = Some (\<lparr> l_items = bs, l_once = False \<rparr>, q1)"
    using Some x by (simp add: acq_op_Acquire)
  obtain db' e where p: "Persist uuid (we_store env) (ws_db w) bs = (db', e)"
    by (cases "Persist uuid (we_store env) (ws_db w) bs")
  show ?thesis
  proof (cases e)
    case None
    show ?thesis by (rule persisted [of bs q1 db'])
      (use Some x a p None in \<open>simp_all add: worker_turn_def q_def lease_Items_def\<close>)
  next
    case e: (Some err)
    show ?thesis by (rule failed [of bs q1 db' err])
      (use Some x a p e in \<open>simp_all add: worker_turn_def q_def lease_Items_def\<close>)
  qed
qed

section \<open>Properties of the worker\<close>

lemma worker_turn_order:
  assumes "result_state (worker_turn uuid c env w) = Some w'"
  shows "\<exists>bs. subseq bs (we_arrivals env) \<and>
    ws_committed w' @ q_items (ws_queue w') = ws_committed w @ q_items (ws_queue w) @ bs"
proof -
  obtain bs' where bs': "subseq bs' (we_arrivals env)"
    "q_items (arrive (ws_queue w) (we_arrivals env)) = q_items (ws_queue w) @ bs'" using arrive_items by blast
  show ?thesis
  proof (cases rule: worker_turn_cases [where env = env and w = w and uuid = uuid and c = c])
    case blocked
    then show ?thesis using assms bs' by (auto simp: result_state_def)
  next
    case (failed bs q1 db' err)
    then show ?thesis
      using turn_failed_spec [of c env w bs q1 db' err] assms bs' iq.retry_restores [OF failed(1)] by auto
  next
    case (persisted bs q1 db')
    then obtain closed' where "worker_turn uuid c env w = Running \<lparr> ws_queue = done_op bs q1, ws_closed = closed',
        ws_db = db', ws_backoff = wc_RetryInitial c, ws_committed = ws_committed w @ bs \<rparr>"
      using assms by (auto simp: turn_persisted_spec result_state_def split: option.splits)
    then show ?thesis
      using assms bs' iq.commit_removes_prefix [OF persisted(1)]
      by (intro exI [of _ bs']) (auto simp: result_state_def)
  qed
qed


definition sample_worker :: worker_state where
  "sample_worker = \<lparr> ws_queue = \<lparr> q_items = [sample_queued], q_capacity = 3, q_inFlight = 0, q_ready = True \<rparr>,
     ws_closed = {}, ws_db = [], ws_backoff = Second, ws_committed = [] \<rparr>"

definition sample_wconfig :: worker_config where
  "sample_wconfig = NewWorker \<lparr> wc_BatchSize = 0, wc_RetryInitial = 0, wc_RetryMaximum = 0 \<rparr>"

definition sample_wenv :: worker_env where
  "sample_wenv = \<lparr> we_arrivals = [], we_store = (\<lambda>_. ch_fine\<lparr> ch_sendErr := Some ''down'' \<rparr>), we_ctxDone = False \<rparr>"

lemma worker_Run_single: "result_state (worker_Run uuid c [env] w) = result_state (worker_turn uuid c env w)"
  by (cases "worker_turn uuid c env w") (simp_all add: result_state_def)

lemma sample_worker_state: "\<exists>w'. result_state (worker_Run id sample_wconfig [sample_wenv] sample_worker) = Some w'"
  unfolding worker_Run_single
proof (cases rule: worker_turn_cases [where env = sample_wenv and w = sample_worker and uuid = id and c = sample_wconfig])
  case (persisted bs q1 db')
  have "\<exists>closed'. markAll bs {} = Some closed'"
    using iq.acq_prefix [OF persisted(1)]
    by (cases bs) (auto simp: sample_wenv_def sample_worker_def sample_queued_def markPersisted_def append_eq_Cons_conv)
  then show "\<exists>w'. result_state (worker_turn id sample_wconfig sample_wenv sample_worker) = Some w'"
    using persisted(3) by (auto simp: turn_persisted_spec sample_worker_def result_state_def)
next
  case (failed bs q1 db' err)
  then show "\<exists>w'. result_state (worker_turn id sample_wconfig sample_wenv sample_worker) = Some w'"
    using turn_failed_spec [of sample_wconfig sample_wenv sample_worker bs q1 db' err] by auto
qed (simp add: result_state_def)


text \<open>The batches a worker may meet: not nil, validated, each with a channel of its own that is
  still open.\<close>

definition worker_ok :: "worker_state \<Rightarrow> bool" where
  "worker_ok w = (let bs = q_items (ws_queue w) in
     None \<notin> set bs \<and> (\<forall>b \<in> set bs. persistable b) \<and> distinct (chans bs) \<and> set (chans bs) \<inter> ws_closed w = {})"

lemma worker_turn_progress:
  assumes "worker_ok w" "q_items (ws_queue w) \<noteq> []" "we_arrivals env = []" "\<forall>t. ch_ok (we_store env t)"
  shows "\<exists>w'. worker_turn uuid c env w = Running w' \<and> worker_ok w'
    \<and> ws_committed w' @ q_items (ws_queue w') = ws_committed w @ q_items (ws_queue w)
    \<and> length (q_items (ws_queue w')) < length (q_items (ws_queue w))"
proof (cases rule: worker_turn_cases [where env = env and w = w and uuid = uuid and c = c])
  case blocked
  then show ?thesis using assms by simp
next
  case (failed bs q1 db' err)
  have "set bs \<subseteq> set (q_items (ws_queue w))" using iq.acq_prefix [OF failed(1)] assms(3)
    by (metis arrive.simps(1) set_append sup_ge1)
  then have "\<forall>b \<in> set bs. persistable b" using assms(1) by (auto simp: worker_ok_def Let_def)
  then have "snd (Persist uuid (we_store env) (ws_db w) bs) = None" using assms(4) by (rule Persist_ok)
  with failed(2) show ?thesis by simp
next
  case (persisted bs q1 db')
  have q: "q_items (ws_queue w) = bs @ q_items q1" "bs \<noteq> []" using iq.acq_prefix [OF persisted(1)] assms(3) by auto
  note ok = assms(1) [unfolded worker_ok_def Let_def q(1)]
  let ?w' = "\<lparr> ws_queue = done_op bs q1, ws_closed = ws_closed w \<union> set (chans bs), ws_db = db',
    ws_backoff = wc_RetryInitial c, ws_committed = ws_committed w @ bs \<rparr>"
  have "markAll bs (ws_closed w) = Some (ws_closed w \<union> set (chans bs))"
    using ok by (intro markAll_fresh) auto
  then have "worker_turn uuid c env w = Running ?w'" using persisted(3) by (simp add: turn_persisted_spec)
  moreover have "worker_ok ?w'" using ok by (auto simp: worker_ok_def iq.done_waiting)
  ultimately show ?thesis using q by (intro exI [of _ ?w']) (simp add: iq.done_waiting)
qed

text \<open>C24: The worker drains the queue: with validated batches waiting and a healthy database, as many turns as
  there are batches commit all of them, in order, and leave the queue empty.\<close>

theorem worker_drains_queue:
  assumes "worker_ok w" "length (q_items (ws_queue w)) \<le> length envs"
    "\<forall>env \<in> set envs. we_arrivals env = [] \<and> (\<forall>t. ch_ok (we_store env t))"
  shows "\<exists>w'. worker_Run uuid c envs w = Running w' \<and> q_items (ws_queue w') = []
    \<and> ws_committed w' = ws_committed w @ q_items (ws_queue w)"
  using assms
proof (induction envs arbitrary: w)
  case (Cons env envs)
  have env: "we_arrivals env = []" "\<forall>t. ch_ok (we_store env t)" using Cons.prems(3) by auto
  show ?case
  proof (cases "q_items (ws_queue w) = []")
    case True
    then have "worker_turn uuid c env w = Blocked w" using env
      by (cases rule: worker_turn_cases [where env = env and w = w and uuid = uuid and c = c]) (auto dest: iq.acq_prefix)
    then show ?thesis using Cons.IH [OF Cons.prems(1)] Cons.prems(3) True by simp
  next
    case False
    from worker_turn_progress [OF Cons.prems(1) False env] obtain w1 where w1:
      "worker_turn uuid c env w = Running w1" "worker_ok w1"
      "ws_committed w1 @ q_items (ws_queue w1) = ws_committed w @ q_items (ws_queue w)"
      "length (q_items (ws_queue w1)) < length (q_items (ws_queue w))" by blast
    have "\<exists>w'. worker_Run uuid c envs w1 = Running w' \<and> q_items (ws_queue w') = []
        \<and> ws_committed w' = ws_committed w1 @ q_items (ws_queue w1)"
      using Cons.prems w1(2,4) by (intro Cons.IH) auto
    then show ?thesis using w1(1,3) by auto
  qed
qed simp

lemma sample_worker_ok: "worker_ok sample_worker"
  using sample_persistable by (simp add: worker_ok_def sample_worker_def sample_queued_def)

theorem worker_drains_queue_witness:
  "\<exists>w'. worker_Run id sample_wconfig [sample_wenv\<lparr> we_store := (\<lambda>_. ch_fine) \<rparr>] sample_worker = Running w'
     \<and> q_items (ws_queue w') = [] \<and> ws_committed w' = [sample_queued]"
  using worker_drains_queue [OF sample_worker_ok, of "[sample_wenv\<lparr> we_store := (\<lambda>_. ch_fine) \<rparr>]" id sample_wconfig]
  by (simp add: sample_wenv_def ch_ok_def ch_fine_def) (simp add: sample_worker_def)

text \<open>The retry delay is bounded: it starts at the initial delay, never exceeds the larger of the
  initial and the maximal delay, and stays positive, however many inserts fail.\<close>

theorem worker_backoff_bounded:
  assumes "0 < wc_RetryInitial c" "0 < wc_RetryMaximum c" "ws_backoff w = wc_RetryInitial c"
    "result_state (worker_Run uuid c envs w) = Some w'"
  shows "0 < ws_backoff w' \<and> ws_backoff w' \<le> max (wc_RetryInitial c) (wc_RetryMaximum c)"
proof -
  let ?ok = "\<lambda>d. 0 < d \<and> d \<le> max (wc_RetryInitial c) (wc_RetryMaximum c)"
  have turn: "?ok (ws_backoff w2)" if "?ok (ws_backoff w1)" "result_state (worker_turn uuid c env w1) = Some w2" for env w1 w2
  proof (cases rule: worker_turn_cases [where env = env and w = w1 and uuid = uuid and c = c])
    case blocked
    then show ?thesis using that by (auto simp: result_state_def)
  next
    case (failed bs q1 db' err)
    then show ?thesis using that assms(2) turn_failed_spec [of c env w1 bs q1 db' err] by auto
  next
    case (persisted bs q1 db')
    then show ?thesis using that assms(1) by (auto simp: turn_persisted_spec result_state_def split: option.splits)
  qed
  have "?ok (ws_backoff w) \<Longrightarrow> result_state (worker_Run uuid c envs w) = Some w' \<Longrightarrow> ?ok (ws_backoff w')"
  proof (induction envs arbitrary: w)
    case (Cons env envs)
    then obtain w1 where w1: "result_state (worker_turn uuid c env w) = Some w1"
      by (cases "worker_turn uuid c env w") (auto simp: result_state_def)
    with Cons turn [OF Cons.prems(1) w1] show ?case
      by (cases "worker_turn uuid c env w") (auto simp: result_state_def)
  qed (simp add: result_state_def)
  then show ?thesis using assms by simp
qed

theorem worker_backoff_bounded_witness:
  "\<exists>w'. result_state (worker_Run id sample_wconfig [sample_wenv] sample_worker) = Some w' \<and> ws_backoff w' \<le> 30 * Second"
proof -
  obtain w' where w': "result_state (worker_Run id sample_wconfig [sample_wenv] sample_worker) = Some w'"
    using sample_worker_state by blast
  from worker_backoff_bounded [OF _ _ _ this] w' show ?thesis
    by (auto simp: sample_wconfig_def NewWorker_def sample_worker_def)
qed

end
