(* ===== verification/Ingestion_System.thy ===== *)
theory Ingestion_System
  imports Ingestion_Persistence
begin

text \<open>
  The ingestion process as a whole: any number of agent streams, the queue, one
  persistence worker, the checkpoint and archive files, the database, and crashes
  (\<^verbatim>\<open>services/ingestion/app/app.go\<close> wires these parts together).  A step is one of
  the atomic parts of the stream handler, one action of the worker, or a crash
  after which the process starts again with the files and the database it left.

  The fields \<^verbatim>\<open>is_committed\<close> and \<^verbatim>\<open>is_sent\<close> record what was persisted and what was sent to
  agents over the whole history; no step reads them.  The identifiers of connecting
  agents are assumed to be directory names (\<^const>\<open>safe_key\<close>) and slices to have Go lengths.
\<close>

section \<open>State\<close>

record params =
  pm_codec :: codec
  pm_decode :: "bytes \<Rightarrow> u64 result"
  pm_uuid :: "string \<Rightarrow> string"
  pm_config :: server_config
  pm_auth :: authenticator
  pm_options :: "server_option option list"
  pm_capacity :: int
  pm_worker :: worker_config

text \<open>Where the handler of a stream stands.\<close>

datatype stage =
  Idle
| Admitted observation_batch observation_batch u64
| Archived observation_batch observation_batch u64 bool
| Waiting observation_batch observation_batch u64 queue_batch

record handler =
  h_session :: string
  h_hello :: agent_hello
  h_stream :: stream
  h_stage :: stage

record isys =
  is_server :: server
  is_queue :: queue
  is_closed :: "nat set"
  is_fresh :: nat
  is_fs :: fs
  is_db :: db
  is_lease :: "lease option"
  is_handlers :: "string \<Rightarrow> handler option"
  is_committed :: "queue_batch option list"
  is_sent :: "(string \<times> string \<times> server_frame) list"

definition start_server :: "params \<Rightarrow> server" where
  "start_server P = server_New (pm_config P) (pm_auth P) (pm_options P)"

text \<open>A process that starts on the given files and database.\<close>

definition boot :: "params \<Rightarrow> fs \<Rightarrow> db \<Rightarrow> queue_batch option list \<Rightarrow> (string \<times> string \<times> server_frame) list \<Rightarrow> isys" where
  "boot P fs db committed sent =
     \<lparr> is_server = start_server P, is_queue = queue_New (pm_capacity P), is_closed = {}, is_fresh = 0,
       is_fs = fs, is_db = db, is_lease = None, is_handlers = Map.empty,
       is_committed = committed, is_sent = sent \<rparr>"

definition new_frames :: "agent_hello \<Rightarrow> stream \<Rightarrow> stream \<Rightarrow> (string \<times> string \<times> server_frame) list" where
  "new_frames hello st st' =
     map (\<lambda>f. (ah_tenant_id hello, ah_cluster_id hello, f)) (drop (length (st_sent st)) (st_sent st'))"

text \<open>The handler of a batch returned: without an error the stream waits for its next frame,
  otherwise it ends and the deferred release runs.\<close>

definition after_batch :: "isys \<Rightarrow> string \<Rightarrow> handler \<Rightarrow> stream \<Rightarrow> error option \<Rightarrow> isys" where
  "after_batch s key h st e =
     (let s1 = s\<lparr> is_sent := is_sent s @ new_frames (h_hello h) (h_stream h) st \<rparr> in
      case e of
        None \<Rightarrow> s1\<lparr> is_handlers := (is_handlers s1)(key \<mapsto> h\<lparr> h_stream := st, h_stage := Idle \<rparr>) \<rparr>
      | Some _ \<Rightarrow> s1\<lparr> is_handlers := (is_handlers s1)(key := None),
                     is_server := release (is_server s1) key (h_session h) \<rparr>)"

definition go_on :: "isys \<Rightarrow> string \<Rightarrow> handler \<Rightarrow> stream \<Rightarrow> stage \<Rightarrow> isys" where
  "go_on s key h st stg =
     s\<lparr> is_sent := is_sent s @ new_frames (h_hello h) (h_stream h) st,
        is_handlers := (is_handlers s)(key \<mapsto> h\<lparr> h_stream := st, h_stage := stg \<rparr>) \<rparr>"

section \<open>Steps\<close>

inductive istep :: "params \<Rightarrow> isys \<Rightarrow> isys \<Rightarrow> bool" for P where
  connect:
    "connect_open (pm_decode P) io now sid peer (is_fs s) (is_server s) \<lparr> st_sent = [], st_sendErr = errs \<rparr> first
       = (sv', st', Session key sid hello) \<Longrightarrow>
     safe_key (ah_tenant_id hello, ah_cluster_id hello) \<Longrightarrow>
     istep P s (s\<lparr> is_server := sv',
       is_sent := is_sent s @ new_frames hello \<lparr> st_sent = [], st_sendErr = errs \<rparr> st',
       is_handlers := (is_handlers s)(key \<mapsto>
         \<lparr> h_session = sid, h_hello = hello, h_stream = st', h_stage = Idle \<rparr>) \<rparr>)"
| refuse:
    "connect_open (pm_decode P) io now sid peer (is_fs s) (is_server s) \<lparr> st_sent = [], st_sendErr = errs \<rparr> first
       = (sv', st', Refused code e) \<Longrightarrow>
     (\<And>hello. first = Frame (AgentHello hello) \<Longrightarrow> safe_key (ah_tenant_id hello, ah_cluster_id hello)) \<Longrightarrow>
     istep P s (s\<lparr> is_server := sv' \<rparr>)"
| disconnect:
    "is_handlers s key = Some h \<Longrightarrow> h_stage h = Idle \<Longrightarrow>
     connect_next r = EndStream e \<Longrightarrow>
     istep P s (s\<lparr> is_handlers := (is_handlers s)(key := None),
       is_server := release (is_server s) key (h_session h) \<rparr>)"
| admit:
    "is_handlers s key = Some h \<Longrightarrow> h_stage h = Idle \<Longrightarrow> connect_next r = HandleBatch b \<Longrightarrow>
     go_len (bt_observations b) \<Longrightarrow>
     hb_admit (pm_codec P) now (is_server s) key (h_stream h) b = (st', Continue (accepted, p)) \<Longrightarrow>
     istep P s (go_on s key h st' (Admitted b accepted p))"
| answer:
    "is_handlers s key = Some h \<Longrightarrow> h_stage h = Idle \<Longrightarrow> connect_next r = HandleBatch b \<Longrightarrow>
     go_len (bt_observations b) \<Longrightarrow>
     hb_admit (pm_codec P) now (is_server s) key (h_stream h) b = (st', Return e) \<Longrightarrow>
     istep P s (after_batch s key h st' e)"
| archive:
    "is_handlers s key = Some h \<Longrightarrow> h_stage h = Admitted b accepted p \<Longrightarrow>
     hb_archive (pm_codec P) now io (is_server s) (is_queue s) (is_fs s) (h_hello h) (h_session h) (h_stream h) b accepted p
       = (st', fs', Continue sent) \<Longrightarrow>
     istep P s (go_on (s\<lparr> is_fs := fs' \<rparr>) key h st' (Archived b accepted p sent))"
| archive_failed:
    "is_handlers s key = Some h \<Longrightarrow> h_stage h = Admitted b accepted p \<Longrightarrow>
     hb_archive (pm_codec P) now io (is_server s) (is_queue s) (is_fs s) (h_hello h) (h_session h) (h_stream h) b accepted p
       = (st', fs', Return e) \<Longrightarrow>
     istep P s (after_batch (s\<lparr> is_fs := fs' \<rparr>) key h st' e)"
| enqueue:
    "is_handlers s key = Some h \<Longrightarrow> h_stage h = Archived b accepted p sent \<Longrightarrow>
     hb_enqueue now (is_server s) (is_queue s) (is_fresh s) (h_hello h) (h_session h) (h_stream h) b accepted p sent
       = (st', q', fresh', Continue qb) \<Longrightarrow>
     istep P s (go_on (s\<lparr> is_queue := q', is_fresh := fresh' \<rparr>) key h st' (Waiting b accepted p qb))"
| enqueue_full:
    "is_handlers s key = Some h \<Longrightarrow> h_stage h = Archived b accepted p sent \<Longrightarrow>
     hb_enqueue now (is_server s) (is_queue s) (is_fresh s) (h_hello h) (h_session h) (h_stream h) b accepted p sent
       = (st', q', fresh', Return e) \<Longrightarrow>
     istep P s (after_batch (s\<lparr> is_queue := q', is_fresh := fresh' \<rparr>) key h st' e)"
| finish:
    "is_handlers s key = Some h \<Longrightarrow> h_stage h = Waiting b accepted p qb \<Longrightarrow>
     (w = WaitPersisted \<longrightarrow> Persisted (is_closed s) qb) \<Longrightarrow>
     hb_finish now io w (is_server s) key (is_fs s) (h_hello h) (h_stream h) b accepted p = (st', sv', fs', e) \<Longrightarrow>
     istep P s (after_batch (s\<lparr> is_server := sv', is_fs := fs' \<rparr>) key h st' e)"
| lease:
    "is_lease s = None \<Longrightarrow> Acquire (is_queue s) (wc_BatchSize (NewWorker (pm_worker P))) = Some (l, q') \<Longrightarrow>
     istep P s (s\<lparr> is_queue := q', is_lease := Some l \<rparr>)"
| persist:
    "is_lease s = Some l \<Longrightarrow> Persist (pm_uuid P) env (is_db s) (lease_Items l) = (db', None) \<Longrightarrow>
     lease_Commit l (is_queue s) (is_closed s) = Some (l', q', closed') \<Longrightarrow>
     istep P s (s\<lparr> is_queue := q', is_closed := closed', is_db := db', is_lease := None,
       is_committed := is_committed s @ l_items l \<rparr>)"
| persist_failed:
    "is_lease s = Some l \<Longrightarrow> Persist (pm_uuid P) env (is_db s) (lease_Items l) = (db', Some (StoreError e)) \<Longrightarrow>
     lease_Retry l (is_queue s) = (l', q') \<Longrightarrow>
     istep P s (s\<lparr> is_queue := q', is_db := db', is_lease := None \<rparr>)"
| crash:
    "istep P s (boot P (is_fs s) (is_db s) (is_committed s) (is_sent s))"

inductive ireach :: "params \<Rightarrow> isys \<Rightarrow> bool" for P where
  init: "ireach P (boot P Map.empty [] [] [])"
| step: "ireach P s \<Longrightarrow> istep P s s' \<Longrightarrow> ireach P s'"

section \<open>Invariant\<close>

text \<open>The sequence number \<^verbatim>\<open>n\<close> of a cluster is covered by a list of persisted batches.\<close>

definition covered :: "queue_batch option list \<Rightarrow> string \<Rightarrow> string \<Rightarrow> nat \<Rightarrow> bool" where
  "covered bs t c n = (\<exists>qb os. Some qb \<in> set bs \<and> qb_TenantID qb = t \<and> qb_ClusterID qb = c
     \<and> qb_ObservationSet qb = Some os \<and> n \<in> set (seqs (bt_observations os)))"

definition covers :: "queue_batch option list \<Rightarrow> string \<Rightarrow> string \<Rightarrow> u64 \<Rightarrow> bool" where
  "covers bs t c p = (\<forall>n. 1 \<le> n \<and> n \<le> unat p \<longrightarrow> covered bs t c n)"

definition live :: "isys \<Rightarrow> queue_batch option list" where
  "live s = (case is_lease s of None \<Rightarrow> [] | Some l \<Rightarrow> l_items l) @ q_items (is_queue s)"

definition chan_ok :: "isys \<Rightarrow> bool" where
  "chan_ok s = (None \<notin> set (live s) \<and> distinct (chans (live s))
     \<and> (\<forall>c \<in> set (chans (live s)). c \<notin> is_closed s \<and> c < is_fresh s)
     \<and> (\<forall>c \<in> is_closed s. c < is_fresh s)
     \<and> (case is_lease s of None \<Rightarrow> True | Some l \<Rightarrow> \<not> l_once l))"

definition batch_ok :: "queue_batch option \<Rightarrow> bool" where
  "batch_ok b = (b \<noteq> None \<and> persistable b)"

definition server_ok :: "isys \<Rightarrow> bool" where
  "server_ok s = (rooted_store (sv_checkpoints (is_server s))
     \<and> (\<forall>r. sv_archiver (is_server s) = FileArchiver r \<longrightarrow> r \<noteq> [])
     \<and> (\<forall>key. is_handlers s key = None \<longleftrightarrow> sv_active (is_server s) key = None)
     \<and> (\<forall>key h. is_handlers s key = Some h \<longrightarrow>
          sv_active (is_server s) key = Some (h_session h)
          \<and> key = clusterKey (ah_tenant_id (h_hello h)) (ah_cluster_id (h_hello h))
          \<and> safe_key (ah_tenant_id (h_hello h), ah_cluster_id (h_hello h))
          \<and> (\<exists>st. sv_clusters (is_server s) key = Some st \<and> cs_loaded st)))"

definition watermark_ok :: "params \<Rightarrow> isys \<Rightarrow> bool" where
  "watermark_ok P s = (sv_checkpoints (is_server s) = sv_checkpoints (start_server P)
     \<and> (\<forall>t c. safe_key (t, c) \<longrightarrow>
     (\<forall>st. sv_clusters (is_server s) (clusterKey t c) = Some st \<and> cs_loaded st \<longrightarrow>
        covers (is_committed s) t c (cs_persistedThrough st))
     \<and> (\<forall>p. disk_load (pm_decode P) (sv_checkpoints (is_server s)) (is_fs s) (t, c) = Some p \<longrightarrow>
        covers (is_committed s) t c p)))"

text \<open>What a handler in the middle of a batch knows: the accepted part continues the watermark, and
  once it is queued it is live or persisted.\<close>

definition accepted_ok :: "isys \<Rightarrow> string \<Rightarrow> observation_batch \<Rightarrow> observation_batch \<Rightarrow> u64 \<Rightarrow> bool" where
  "accepted_ok s key b a p = (persisted (is_server s) key = p
     \<and> seqs (bt_observations a) = [unat p + 1 ..< unat (bt_last_sequence b) + 1]
     \<and> (\<forall>ob \<in> set (bt_observations a). valid_observation ob))"

definition stage_ok :: "isys \<Rightarrow> string \<Rightarrow> handler \<Rightarrow> bool" where
  "stage_ok s key h = (case h_stage h of
       Idle \<Rightarrow> True
     | Admitted b a p \<Rightarrow> accepted_ok s key b a p
     | Archived b a p _ \<Rightarrow> accepted_ok s key b a p
     | Waiting b a p qb \<Rightarrow> accepted_ok s key b a p
         \<and> qb_TenantID qb = ah_tenant_id (h_hello h) \<and> qb_ClusterID qb = ah_cluster_id (h_hello h)
         \<and> qb_ObservationSet qb = Some a \<and> qb_persisted qb \<noteq> None
         \<and> (Some qb \<in> set (live s) \<or> Some qb \<in> set (is_committed s)))"

definition frame_ok :: "queue_batch option list \<Rightarrow> string \<times> string \<times> server_frame \<Rightarrow> bool" where
  "frame_ok bs tcf = (case tcf of (t, c, f) \<Rightarrow> (case f of
       Acknowledgement a \<Rightarrow> covers bs t c (ba_persisted_through_sequence a)
     | ServerHello h \<Rightarrow> covers bs t c (sh_accepted_through_sequence h)
     | _ \<Rightarrow> True))"

definition rows_stored :: "params \<Rightarrow> isys \<Rightarrow> bool" where
  "rows_stored P s = (\<forall>r \<in> set (batch_rows (pm_uuid P) (is_committed s)).
     \<exists>rows. (table_query (mr_table r), rows) \<in> set (is_db s) \<and> mr_values r \<in> set rows)"

definition base_inv :: "params \<Rightarrow> isys \<Rightarrow> bool" where
  "base_inv P s = (chan_ok s \<and> (\<forall>b \<in> set (live s). batch_ok b) \<and> server_ok s \<and> watermark_ok P s
     \<and> (\<forall>x \<in> set (is_sent s). frame_ok (is_committed s) x) \<and> rows_stored P s)"

definition others_ok :: "isys \<Rightarrow> string \<Rightarrow> bool" where
  "others_ok s key = (\<forall>key' h. key' \<noteq> key \<longrightarrow> is_handlers s key' = Some h \<longrightarrow> stage_ok s key' h)"

definition isys_inv :: "params \<Rightarrow> isys \<Rightarrow> bool" where
  "isys_inv P s = (base_inv P s \<and> (\<forall>key h. is_handlers s key = Some h \<longrightarrow> stage_ok s key h))"

text \<open>The options of the server come from \<^const>\<open>NewFileArchiver\<close> and
  \<^const>\<open>NewFileCheckpointStore\<close>, which refuse an empty root.\<close>

definition good_params :: "params \<Rightarrow> bool" where
  "good_params P = ((\<forall>a. Some (WithArchiver (Some a)) \<in> set (pm_options P) \<longrightarrow> (\<forall>r. a = FileArchiver r \<longrightarrow> r \<noteq> []))
     \<and> (\<forall>c. Some (WithCheckpointStore (Some c)) \<in> set (pm_options P) \<longrightarrow> rooted_store c))"

section \<open>Lemmas on coverage and frames\<close>

lemma covers_mono: "covers bs t c p \<Longrightarrow> set bs \<subseteq> set bs' \<Longrightarrow> covers bs' t c p"
  unfolding covers_def covered_def by (meson subsetD)

lemma covers_0 [simp]: "covers bs t c 0"
  by (simp add: covers_def)

lemma frame_ok_mono: "frame_ok bs x \<Longrightarrow> set bs \<subseteq> set bs' \<Longrightarrow> frame_ok bs' x"
  by (auto simp: frame_ok_def intro: covers_mono split: server_frame.splits)

text \<open>A persisted batch that continues a covered watermark extends it.\<close>

lemma covers_extend:
  assumes "covers bs t c p" "Some qb \<in> set bs" "qb_TenantID qb = t" "qb_ClusterID qb = c" "qb_ObservationSet qb = Some a"
    "seqs (bt_observations a) = [unat p + 1 ..< unat l + 1]"
  shows "covers bs t c l"
  unfolding covers_def
proof (intro allI impI)
  fix n assume n: "1 \<le> n \<and> n \<le> unat l"
  show "covered bs t c n"
  proof (cases "n \<le> unat p")
    case False
    then have "n \<in> set (seqs (bt_observations a))" using n by (simp only: assms(6)) auto
    with assms(2-5) show ?thesis unfolding covered_def by blast
  qed (use n assms(1) in \<open>simp add: covers_def\<close>)
qed

lemma claims_frame_ok: "claims p f \<Longrightarrow> covers bs t c p \<Longrightarrow> frame_ok bs (t, c, f)"
  by (auto simp: claims_def frame_ok_def split: server_frame.splits)

lemma new_frames_ok:
  assumes "sends (claims p) st st'" "covers bs (ah_tenant_id hello) (ah_cluster_id hello) p"
    "x \<in> set (new_frames hello st st')"
  shows "frame_ok bs x"
  using assms by (auto simp: new_frames_def sends_def intro: claims_frame_ok)

lemma clusterKey_inject:
  assumes "safe_key (t, c)" "safe_key (t', c')" "clusterKey t c = clusterKey t' c'"
  shows "t = t' \<and> c = c'"
proof -
  have "CHR 0x00 \<notin> set t" "CHR 0x00 \<notin> set t'"
    using assms(1,2) by (auto simp: safe_key_def path_safe_def replaced_chars_def)
  then have "t = takeWhile (\<lambda>x. x \<noteq> CHR 0x00) (clusterKey t c)" "t' = takeWhile (\<lambda>x. x \<noteq> CHR 0x00) (clusterKey t' c')"
    by (auto simp: clusterKey_def takeWhile_append)
  then have "t = t'" using assms(3) by simp
  then show ?thesis using assms(3) by (simp add: clusterKey_def)
qed

section \<open>Changes of the state that keep the invariant\<close>

lemma sel_after_batch [simp]:
  "is_queue (after_batch s key h st e) = is_queue s" "is_closed (after_batch s key h st e) = is_closed s"
  "is_fresh (after_batch s key h st e) = is_fresh s" "is_fs (after_batch s key h st e) = is_fs s"
  "is_db (after_batch s key h st e) = is_db s" "is_lease (after_batch s key h st e) = is_lease s"
  "is_committed (after_batch s key h st e) = is_committed s"
  "is_sent (after_batch s key h st e) = is_sent s @ new_frames (h_hello h) (h_stream h) st"
  "is_server (after_batch s key h st e) = (if e = None then is_server s else release (is_server s) key (h_session h))"
  "is_handlers (after_batch s key h st e) = (is_handlers s)(key := if e = None then Some (h\<lparr> h_stream := st, h_stage := Idle \<rparr>) else None)"
  by (cases e; simp add: after_batch_def)+

lemma sel_go_on [simp]:
  "is_queue (go_on s key h st g) = is_queue s" "is_closed (go_on s key h st g) = is_closed s"
  "is_fresh (go_on s key h st g) = is_fresh s" "is_fs (go_on s key h st g) = is_fs s"
  "is_db (go_on s key h st g) = is_db s" "is_lease (go_on s key h st g) = is_lease s"
  "is_committed (go_on s key h st g) = is_committed s" "is_server (go_on s key h st g) = is_server s"
  "is_sent (go_on s key h st g) = is_sent s @ new_frames (h_hello h) (h_stream h) st"
  "is_handlers (go_on s key h st g) = (is_handlers s)(key \<mapsto> h\<lparr> h_stream := st, h_stage := g \<rparr>)"
  by (simp_all add: go_on_def)

lemma sel_release [simp]:
  "sv_clusters (release s key sid) = sv_clusters s" "sv_checkpoints (release s key sid) = sv_checkpoints s"
  "sv_archiver (release s key sid) = sv_archiver s" "sv_config (release s key sid) = sv_config s"
  by (simp_all add: release_def)

lemma persisted_release [simp]: "persisted (release s k sid) key = persisted s key"
  by (simp add: persisted_def)

text \<open>What the parts of the invariant depend on.\<close>

lemma chan_ok_cong:
  "is_queue s' = is_queue s \<Longrightarrow> is_lease s' = is_lease s \<Longrightarrow> is_closed s' = is_closed s \<Longrightarrow> is_fresh s' = is_fresh s \<Longrightarrow>
   chan_ok s' = chan_ok s"
  by (simp add: chan_ok_def live_def)

lemma live_cong: "is_queue s' = is_queue s \<Longrightarrow> is_lease s' = is_lease s \<Longrightarrow> live s' = live s"
  by (simp add: live_def)

lemma watermark_ok_cong:
  "sv_clusters (is_server s') = sv_clusters (is_server s) \<Longrightarrow> sv_checkpoints (is_server s') = sv_checkpoints (is_server s) \<Longrightarrow>
   is_fs s' = is_fs s \<Longrightarrow> is_committed s' = is_committed s \<Longrightarrow> watermark_ok P s' = watermark_ok P s"
  by (simp add: watermark_ok_def)

lemma rows_stored_cong: "is_committed s' = is_committed s \<Longrightarrow> is_db s' = is_db s \<Longrightarrow> rows_stored P s' = rows_stored P s"
  by (simp add: rows_stored_def)

lemma stage_ok_mono:
  assumes "stage_ok s key h" "persisted (is_server s') key = persisted (is_server s) key"
    "set (live s) \<union> set (is_committed s) \<subseteq> set (live s') \<union> set (is_committed s')"
  shows "stage_ok s' key h"
  using assms by (auto simp: stage_ok_def accepted_ok_def split: stage.splits)

lemma stage_ok_Idle [simp]: "h_stage h = Idle \<Longrightarrow> stage_ok s key h"
  by (simp add: stage_ok_def)

lemma server_ok_after_batch:
  assumes "server_ok s" "is_handlers s key = Some h"
  shows "server_ok (after_batch s key h st e)"
proof (cases e)
  case None
  then show ?thesis using assms by (auto simp: server_ok_def)
next
  case (Some x)
  have act: "sv_active (is_server s) key = Some (h_session h)" using assms by (auto simp: server_ok_def)
  then have "sv_active (release (is_server s) key (h_session h)) = (sv_active (is_server s))(key := None)"
    by (simp add: release_def)
  with Some assms show ?thesis by (auto simp: server_ok_def)
qed

lemma inv_after_batch:
  assumes "base_inv P s" "others_ok s key" "is_handlers s key = Some h"
    "\<forall>x \<in> set (new_frames (h_hello h) (h_stream h) st). frame_ok (is_committed s) x"
  shows "isys_inv P (after_batch s key h st e)"
proof -
  let ?s = "after_batch s key h st e"
  have l: "live ?s = live s" by (rule live_cong) simp_all
  have "base_inv P ?s"
    using assms chan_ok_cong [of ?s s] watermark_ok_cong [of ?s s P] rows_stored_cong [of ?s s P]
      server_ok_after_batch [of s key h st e] l
    by (auto simp: base_inv_def)
  moreover have "stage_ok ?s k h'" if "is_handlers ?s k = Some h'" for k h'
  proof (cases "k = key")
    case True
    with that show ?thesis by (auto split: if_splits)
  next
    case False
    with that assms(2) have "stage_ok s k h'" by (auto simp: others_ok_def)
    then show ?thesis by (rule stage_ok_mono) (simp_all add: l)
  qed
  ultimately show ?thesis by (simp add: isys_inv_def)
qed

lemma inv_go_on:
  assumes "base_inv P s" "others_ok s key" "is_handlers s key = Some h"
    "\<forall>x \<in> set (new_frames (h_hello h) (h_stream h) st). frame_ok (is_committed s) x"
    "stage_ok s key (h\<lparr> h_stream := st, h_stage := g \<rparr>)"
  shows "isys_inv P (go_on s key h st g)"
proof -
  let ?s = "go_on s key h st g"
  have l: "live ?s = live s" by (rule live_cong) simp_all
  have "server_ok ?s" using assms(1,3) by (auto simp: base_inv_def server_ok_def)
  then have "base_inv P ?s"
    using assms chan_ok_cong [of ?s s] watermark_ok_cong [of ?s s P] rows_stored_cong [of ?s s P] l
    by (auto simp: base_inv_def)
  moreover have "stage_ok ?s k h'" if "is_handlers ?s k = Some h'" for k h'
  proof -
    have "stage_ok s k h'" using that assms(2,5) by (auto simp: others_ok_def split: if_splits)
    then show ?thesis by (rule stage_ok_mono) (simp_all add: l)
  qed
  ultimately show ?thesis by (simp add: isys_inv_def)
qed

text \<open>The files change only in checkpoints that are covered.\<close>

lemma base_inv_fs:
  assumes "base_inv P s"
    "\<And>t c n. safe_key (t, c) \<Longrightarrow> disk_load (pm_decode P) (sv_checkpoints (is_server s)) fs' (t, c) = Some n \<Longrightarrow>
       disk_load (pm_decode P) (sv_checkpoints (is_server s)) (is_fs s) (t, c) = Some n \<or> covers (is_committed s) t c n"
  shows "base_inv P (s\<lparr> is_fs := fs' \<rparr>)"
proof -
  let ?s = "s\<lparr> is_fs := fs' \<rparr>"
  have w: "watermark_ok P s" using assms(1) by (simp add: base_inv_def)
  have "covers (is_committed s) t c p"
    if "safe_key (t, c)" "disk_load (pm_decode P) (sv_checkpoints (is_server s)) fs' (t, c) = Some p" for t c p
    using assms(2) [OF that] w that(1) by (auto simp: watermark_ok_def)
  then have "watermark_ok P ?s" using w by (simp add: watermark_ok_def)
  moreover have "server_ok ?s" using assms(1) by (simp add: base_inv_def server_ok_def)
  ultimately show ?thesis
    using assms(1) chan_ok_cong [of ?s s] live_cong [of ?s s] rows_stored_cong [of ?s s P]
    by (simp add: base_inv_def)
qed

text \<open>The watermark of a cluster moves to a covered value.\<close>

lemma base_inv_watermark:
  assumes "base_inv P s" "safe_key (t, c)" "covers (is_committed s) t c n" "key = clusterKey t c"
  shows "base_inv P (s\<lparr> is_server := (is_server s)\<lparr> sv_clusters := (sv_clusters (is_server s))(key :=
      map_option (\<lambda>state. state\<lparr> cs_persistedThrough := n \<rparr>) (sv_clusters (is_server s) key)) \<rparr> \<rparr>)"
    (is "base_inv P ?s")
proof -
  have "watermark_ok P ?s"
    unfolding watermark_ok_def
  proof (intro allI impI conjI)
    fix t' c' st
    assume k: "safe_key (t', c')" and st: "sv_clusters (is_server ?s) (clusterKey t' c') = Some st \<and> cs_loaded st"
    show "covers (is_committed ?s) t' c' (cs_persistedThrough st)"
    proof (cases "clusterKey t' c' = key")
      case True
      then have "t' = t \<and> c' = c" using clusterKey_inject [OF k assms(2)] assms(4) by simp
      with st True assms(3) show ?thesis by auto
    next
      case False
      with st k assms(1) show ?thesis by (auto simp: base_inv_def watermark_ok_def)
    qed
  qed (use assms(1) in \<open>auto simp: base_inv_def watermark_ok_def\<close>)
  moreover have "server_ok ?s" using assms(1) by (fastforce simp: base_inv_def server_ok_def)
  ultimately show ?thesis
    using assms(1) chan_ok_cong [of ?s s] live_cong [of ?s s] rows_stored_cong [of ?s s P]
    by (simp add: base_inv_def)
qed

lemma base_inv_enqueue:
  assumes "base_inv P s" "TryEnqueue (is_queue s) (Some qb) = (q', None)" "qb_persisted qb = Some (is_fresh s)"
    "batch_ok (Some qb)"
  shows "base_inv P (s\<lparr> is_queue := q', is_fresh := Suc (is_fresh s) \<rparr>)" (is "base_inv P ?s")
proof -
  have l: "live ?s = live s @ [Some qb]" using TryEnqueue_okE(2) [OF assms(2)] by (simp add: live_def)
  have "chan_ok ?s" using assms(1,3) unfolding base_inv_def chan_ok_def l
    by (auto simp: less_Suc_eq split: option.splits)
  moreover have "server_ok ?s" using assms(1) by (simp add: base_inv_def server_ok_def)
  ultimately show ?thesis
    using assms(1,4) watermark_ok_cong [of ?s s P] rows_stored_cong [of ?s s P] l
    by (auto simp: base_inv_def)
qed

lemma base_inv_fresh:
  assumes "base_inv P s" "is_fresh s \<le> f"
  shows "base_inv P (s\<lparr> is_fresh := f \<rparr>)" (is "base_inv P ?s")
proof -
  have l: "live ?s = live s" by (simp add: live_def)
  have "chan_ok ?s" using assms unfolding base_inv_def chan_ok_def l by fastforce
  moreover have "server_ok ?s" using assms(1) by (simp add: base_inv_def server_ok_def)
  ultimately show ?thesis
    using assms(1) watermark_ok_cong [of ?s s P] rows_stored_cong [of ?s s P] l
    by (auto simp: base_inv_def)
qed

lemma others_ok_mono:
  assumes "isys_inv P s" "is_handlers s' = is_handlers s"
    "\<And>k. k \<noteq> key \<Longrightarrow> persisted (is_server s') k = persisted (is_server s) k"
    "set (live s) \<union> set (is_committed s) \<subseteq> set (live s') \<union> set (is_committed s')"
  shows "others_ok s' key"
  using assms stage_ok_mono [of s _ _ s'] unfolding isys_inv_def others_ok_def by metis

section \<open>Connecting\<close>

lemma checkpoint_Load_disk: "checkpoint_Load decode io st fs t c = Inr p \<Longrightarrow> disk_load decode st fs (t, c) = Some p"
  by (auto simp: checkpoint_Load_def disk_load_def file_Load_def io_ok_def
      split: checkpoint_store.splits option.splits content.splits sum.splits)

text \<open>What \<^const>\<open>acquire\<close> may do to the cluster table: an entry it marks loaded was loaded before or
  holds the checkpoint.\<close>

definition acquired_table :: "(bytes \<Rightarrow> u64 result) \<Rightarrow> fs \<Rightarrow> server \<Rightarrow> server \<Rightarrow> string \<Rightarrow> string \<Rightarrow> bool" where
  "acquired_table decode fs s s' t c = (sv_checkpoints s' = sv_checkpoints s \<and> sv_archiver s' = sv_archiver s
     \<and> sv_active s (clusterKey t c) = None
     \<and> (\<exists>st. sv_clusters s' = (sv_clusters s)(clusterKey t c \<mapsto> st)
         \<and> (cs_loaded st \<longrightarrow> sv_clusters s (clusterKey t c) = Some st
             \<or> disk_load decode (sv_checkpoints s) fs (t, c) = Some (cs_persistedThrough st))))"

lemma acquire_cases:
  assumes "acquire decode io fs s t c (clusterKey t c) sid = (s', r)"
  obtains (busy) "s' = s" "r = Inr (0, False)"
  | (failed) e where "r = Inl e" "acquired_table decode fs s s' t c" "sv_active s' = sv_active s"
  | (acquired) p st where "r = Inr (p, True)" "acquired_table decode fs s s' t c"
      "sv_active s' = (sv_active s)(clusterKey t c \<mapsto> sid)"
      "sv_clusters s' (clusterKey t c) = Some st" "cs_loaded st" "cs_persistedThrough st = p"
proof (cases "sv_active s (clusterKey t c)")
  case (Some x)
  with assms show ?thesis by (intro busy) (simp_all add: acquire_def)
next
  case None
  define state where "state = (case sv_clusters s (clusterKey t c) of
    None \<Rightarrow> \<lparr> cs_persistedThrough = 0, cs_loaded = False \<rparr> | Some st \<Rightarrow> st)"
  have old: "cs_loaded state \<Longrightarrow> sv_clusters s (clusterKey t c) = Some state"
    by (auto simp: state_def split: option.splits)
  have a: "acquire decode io fs s t c (clusterKey t c) sid =
     (if cs_loaded state
        then (s\<lparr> sv_clusters := (sv_clusters s)(clusterKey t c \<mapsto> state), sv_active := (sv_active s)(clusterKey t c \<mapsto> sid) \<rparr>,
              Inr (cs_persistedThrough state, True))
        else case checkpoint_Load decode io (sv_checkpoints s) fs t c of
            Inl e \<Rightarrow> (s\<lparr> sv_clusters := (sv_clusters s)(clusterKey t c \<mapsto> state) \<rparr>, Inl e)
          | Inr p \<Rightarrow>
              (s\<lparr> sv_clusters := (sv_clusters s)(clusterKey t c \<mapsto> \<lparr> cs_persistedThrough = p, cs_loaded = True \<rparr>),
                  sv_active := (sv_active s)(clusterKey t c \<mapsto> sid) \<rparr>, Inr (p, True)))"
    using None unfolding acquire_def Let_def state_def [symmetric] by simp
  show ?thesis
  proof (cases "cs_loaded state")
    case True
    with assms a None old show ?thesis
      by (intro acquired [of "cs_persistedThrough state" state]) (auto simp: acquired_table_def)
  next
    case False
    show ?thesis
    proof (cases "checkpoint_Load decode io (sv_checkpoints s) fs t c")
      case (Inl e)
      with False assms a None show ?thesis by (intro failed [of e]) (auto simp: acquired_table_def)
    next
      case (Inr p)
      with False assms a None checkpoint_Load_disk [OF Inr] show ?thesis
        by (intro acquired [of p "\<lparr> cs_persistedThrough = p, cs_loaded = True \<rparr>"]) (auto simp: acquired_table_def)
    qed
  qed
qed

lemma acquired_table_release:
  "acquired_table decode fs s s' t c \<Longrightarrow> acquired_table decode fs s (release s' k sid) t c"
  by (simp add: acquired_table_def)

lemma inv_table:
  assumes "isys_inv P s" "acquired_table (pm_decode P) (is_fs s) (is_server s) sv' t c" "safe_key (t, c)"
    "sv_active sv' = sv_active (is_server s)"
  shows "isys_inv P (s\<lparr> is_server := sv' \<rparr>)" (is "isys_inv P ?s")
proof -
  obtain st where st: "sv_clusters sv' = (sv_clusters (is_server s))(clusterKey t c \<mapsto> st)"
    "cs_loaded st \<Longrightarrow> sv_clusters (is_server s) (clusterKey t c) = Some st
       \<or> disk_load (pm_decode P) (sv_checkpoints (is_server s)) (is_fs s) (t, c) = Some (cs_persistedThrough st)"
    using assms(2) by (auto simp: acquired_table_def)
  have same: "sv_checkpoints sv' = sv_checkpoints (is_server s)" "sv_archiver sv' = sv_archiver (is_server s)"
    and idle: "is_handlers s (clusterKey t c) = None"
    using assms(1,2) by (auto simp: acquired_table_def isys_inv_def base_inv_def server_ok_def)
  have w: "watermark_ok P s" using assms(1) by (simp add: isys_inv_def base_inv_def)
  have own: "covers (is_committed s) t c (cs_persistedThrough st)" if "cs_loaded st"
    using st(2) [OF that] w assms(3) that by (auto simp: watermark_ok_def)
  have "covers (is_committed s) t' c' (cs_persistedThrough st')"
    if "safe_key (t', c')" "sv_clusters sv' (clusterKey t' c') = Some st'" "cs_loaded st'" for t' c' st'
  proof (cases "clusterKey t' c' = clusterKey t c")
    case True
    then have "t' = t \<and> c' = c" using clusterKey_inject [OF that(1) assms(3)] by simp
    with that st(1) own show ?thesis by auto
  next
    case False
    with that st(1) w show ?thesis by (auto simp: watermark_ok_def)
  qed
  then have "watermark_ok P ?s" using w same by (simp add: watermark_ok_def)
  moreover have h: "\<And>k h. is_handlers s k = Some h \<Longrightarrow> k \<noteq> clusterKey t c" using idle by auto
  then have "server_ok ?s"
    using assms(1,4) same st(1) by (auto simp: isys_inv_def base_inv_def server_ok_def)
  moreover have "stage_ok ?s k h" if "is_handlers ?s k = Some h" for k h
  proof -
    have "stage_ok s k h" using that assms(1) by (simp add: isys_inv_def)
    then show ?thesis
      by (rule stage_ok_mono) (use h [of k h] that st(1) in \<open>auto simp: persisted_def live_def\<close>)
  qed
  ultimately show ?thesis
    using assms(1) chan_ok_cong [of ?s s] live_cong [of ?s s] rows_stored_cong [of ?s s P]
    by (simp add: isys_inv_def base_inv_def)
qed

lemma inv_session:
  assumes "isys_inv P s" "sv_active (is_server s) key = None" "key = clusterKey (ah_tenant_id hello) (ah_cluster_id hello)"
    "safe_key (ah_tenant_id hello, ah_cluster_id hello)"
    "sv_clusters (is_server s) key = Some cst" "cs_loaded cst"
    "sends (claims (cs_persistedThrough cst)) st st'"
  shows "isys_inv P (s\<lparr> is_server := (is_server s)\<lparr> sv_active := (sv_active (is_server s))(key \<mapsto> sid) \<rparr>,
     is_sent := is_sent s @ new_frames hello st st',
     is_handlers := (is_handlers s)(key \<mapsto> \<lparr> h_session = sid, h_hello = hello, h_stream = st', h_stage = Idle \<rparr>) \<rparr>)"
    (is "isys_inv P ?s")
proof -
  have w: "watermark_ok P s" using assms(1) by (simp add: isys_inv_def base_inv_def)
  then have "covers (is_committed s) (ah_tenant_id hello) (ah_cluster_id hello) (cs_persistedThrough cst)"
    using assms(3-6) by (auto simp: watermark_ok_def)
  from new_frames_ok [OF assms(7) this] have
    "\<forall>x \<in> set (is_sent ?s). frame_ok (is_committed ?s) x"
    using assms(1) by (auto simp: isys_inv_def base_inv_def)
  moreover have "server_ok ?s" using assms(1-6) by (auto simp: isys_inv_def base_inv_def server_ok_def)
  moreover have "watermark_ok P ?s" using w by (simp add: watermark_ok_def)
  moreover have "stage_ok ?s k h" if "is_handlers ?s k = Some h" for k h
  proof (cases "k = key")
    case False
    then have "stage_ok s k h" using that assms(1) by (simp add: isys_inv_def)
    then show ?thesis by (rule stage_ok_mono) (simp_all add: persisted_def live_def)
  qed (use that in auto)
  ultimately show ?thesis
    using assms(1) chan_ok_cong [of ?s s] live_cong [of ?s s] rows_stored_cong [of ?s s P]
    by (simp add: isys_inv_def base_inv_def)
qed

lemma connect_open_Session:
  assumes "connect_open decode io now sid peer fs sv st first = (sv', st', Session key sid' hello)"
  shows "key = clusterKey (ah_tenant_id hello) (ah_cluster_id hello)" "sid' = sid"
    "\<exists>p. acquire decode io fs sv (ah_tenant_id hello) (ah_cluster_id hello) key sid = (sv', Inr (p, True))
       \<and> sends (claims p) st st'"
  using assms
  by (auto simp: connect_open_def Let_def split: recv.splits agent_frame.splits option.splits prod.splits sum.splits if_splits
      intro: Send_sends)

lemma connect_open_Refused:
  assumes "connect_open decode io now sid peer fs sv st first = (sv', st', Refused code e)"
  shows "sv' = sv \<or> (\<exists>hello s1 r. first = Frame (AgentHello hello)
      \<and> acquire decode io fs sv (ah_tenant_id hello) (ah_cluster_id hello)
          (clusterKey (ah_tenant_id hello) (ah_cluster_id hello)) sid = (s1, r)
      \<and> (sv' = s1 \<and> (\<exists>e. r = Inl e) \<or> sv' = s1 \<and> (\<exists>p. r = Inr (p, False))
         \<or> (\<exists>p. r = Inr (p, True)) \<and> sv' = release s1 (clusterKey (ah_tenant_id hello) (ah_cluster_id hello)) sid))"
  using assms
  by (auto simp: connect_open_def Let_def split: recv.splits agent_frame.splits option.splits prod.splits sum.splits if_splits)

lemma inv_connect:
  assumes "isys_inv P s"
    "connect_open (pm_decode P) io now sid peer (is_fs s) (is_server s) st first = (sv', st', Session key sid' hello)"
    "safe_key (ah_tenant_id hello, ah_cluster_id hello)"
  shows "isys_inv P (s\<lparr> is_server := sv', is_sent := is_sent s @ new_frames hello st st',
       is_handlers := (is_handlers s)(key \<mapsto> \<lparr> h_session = sid', h_hello = hello, h_stream = st', h_stage = Idle \<rparr>) \<rparr>)"
proof -
  note c = connect_open_Session [OF assms(2)]
  let ?t = "ah_tenant_id hello" and ?c = "ah_cluster_id hello"
  obtain p where p: "acquire (pm_decode P) io (is_fs s) (is_server s) ?t ?c (clusterKey ?t ?c) sid = (sv', Inr (p, True))"
    "sends (claims p) st st'" using c(1,3) by auto
  from p(1) show ?thesis
  proof (cases rule: acquire_cases)
    case (acquired p' cst)
    let ?sv = "sv'\<lparr> sv_active := sv_active (is_server s) \<rparr>"
    have none: "sv_active (is_server s) (clusterKey ?t ?c) = None" using acquired(2) by (simp add: acquired_table_def)
    have "acquired_table (pm_decode P) (is_fs s) (is_server s) ?sv ?t ?c"
      using acquired(2) by (simp add: acquired_table_def)
    then have "isys_inv P (s\<lparr> is_server := ?sv \<rparr>)" by (rule inv_table [OF assms(1) _ assms(3)]) simp
    then have "isys_inv P (s\<lparr> is_server := sv'\<lparr> sv_active := (sv_active (is_server s))(clusterKey ?t ?c \<mapsto> sid) \<rparr>,
        is_sent := is_sent s @ new_frames hello st st',
        is_handlers := (is_handlers s)(clusterKey ?t ?c \<mapsto>
          \<lparr> h_session = sid, h_hello = hello, h_stream = st', h_stage = Idle \<rparr>) \<rparr>)"
      using inv_session [of P "s\<lparr> is_server := ?sv \<rparr>" "clusterKey ?t ?c" hello cst st st' sid]
        none acquired(1,4-6) p(2) assms(3) by simp
    moreover have "sv'\<lparr> sv_active := (sv_active (is_server s))(clusterKey ?t ?c \<mapsto> sid) \<rparr> = sv'"
      unfolding acquired(3) [symmetric] by simp
    ultimately show ?thesis using c(1,2) by metis
  qed simp_all
qed

lemma inv_refuse:
  assumes "isys_inv P s"
    "connect_open (pm_decode P) io now sid peer (is_fs s) (is_server s) st first = (sv', st', Refused code e)"
    "\<And>hello. first = Frame (AgentHello hello) \<Longrightarrow> safe_key (ah_tenant_id hello, ah_cluster_id hello)"
  shows "isys_inv P (s\<lparr> is_server := sv' \<rparr>)"
proof (cases "sv' = is_server s")
  case False
  then obtain hello s1 r where r: "first = Frame (AgentHello hello)"
    "acquire (pm_decode P) io (is_fs s) (is_server s) (ah_tenant_id hello) (ah_cluster_id hello)
        (clusterKey (ah_tenant_id hello) (ah_cluster_id hello)) sid = (s1, r)"
    "sv' = s1 \<and> (\<exists>e. r = Inl e) \<or> sv' = s1 \<and> (\<exists>p. r = Inr (p, False))
         \<or> (\<exists>p. r = Inr (p, True)) \<and> sv' = release s1 (clusterKey (ah_tenant_id hello) (ah_cluster_id hello)) sid"
    using connect_open_Refused [OF assms(2)] by blast
  note table = inv_table [OF assms(1) _ assms(3) [OF r(1)]]
  from r(2) show ?thesis
  proof (cases rule: acquire_cases)
    case busy
    with r(3) assms(1) show ?thesis by auto
  next
    case (failed e)
    with r(3) show ?thesis using table [of s1] by auto
  next
    case (acquired p cst)
    then have sv': "sv' = release s1 (clusterKey (ah_tenant_id hello) (ah_cluster_id hello)) sid" using r(3) by auto
    have "sv_active sv' = sv_active (is_server s)"
      using acquired(2,3) unfolding sv' by (auto simp: release_def acquired_table_def)
    with table [OF acquired_table_release [OF acquired(2)]] sv' show ?thesis by simp
  qed
qed (use assms(1) in simp)

section \<open>Handling a batch\<close>

lemma handler_facts:
  assumes "isys_inv P s" "is_handlers s key = Some h"
  shows "base_inv P s" "others_ok s key" "stage_ok s key h"
    "key = clusterKey (ah_tenant_id (h_hello h)) (ah_cluster_id (h_hello h))"
    "safe_key (ah_tenant_id (h_hello h), ah_cluster_id (h_hello h))"
    "covers (is_committed s) (ah_tenant_id (h_hello h)) (ah_cluster_id (h_hello h)) (persisted (is_server s) key)"
    "sv_clusters (is_server s) key \<noteq> None"
proof -
  show b: "base_inv P s" and "others_ok s key" and "stage_ok s key h"
    using assms by (auto simp: isys_inv_def others_ok_def)
  from b assms(2) show k: "key = clusterKey (ah_tenant_id (h_hello h)) (ah_cluster_id (h_hello h))"
    "safe_key (ah_tenant_id (h_hello h), ah_cluster_id (h_hello h))" unfolding base_inv_def server_ok_def by blast+
  from b assms(2) obtain st where st: "sv_clusters (is_server s) key = Some st" "cs_loaded st"
    unfolding base_inv_def server_ok_def by blast
  then show "sv_clusters (is_server s) key \<noteq> None" by simp
  show "covers (is_committed s) (ah_tenant_id (h_hello h)) (ah_cluster_id (h_hello h)) (persisted (is_server s) key)"
    using b st k by (simp add: base_inv_def watermark_ok_def persisted_def)
qed

lemma inv_admit:
  assumes "isys_inv P s" "is_handlers s key = Some h" "go_len (bt_observations b)"
    "hb_admit (pm_codec P) now (is_server s) key (h_stream h) b = (st', Continue (a, p))"
  shows "isys_inv P (go_on s key h st' (Admitted b a p))"
proof -
  note f = handler_facts [OF assms(1,2)]
  note c = hb_admit_Continue [OF assms(4)]
  note x = suffixAfter_spec [OF c(1) assms(3) c(5,6)]
  have "\<forall>ob \<in> set (bt_observations a). valid_observation ob"
    using x(4) c(7) validateBatch_observations [OF c(1)] by (auto dest: in_set_dropD)
  then have "accepted_ok s key b a p" using c(2,7) x(5) by (simp add: accepted_ok_def)
  then show ?thesis
    using new_frames_ok [OF hb_admit_sends [OF assms(4)] f(6)]
    by (intro inv_go_on [OF f(1,2) assms(2)]) (auto simp: stage_ok_def)
qed

lemma inv_answer:
  assumes "isys_inv P s" "is_handlers s key = Some h"
    "hb_admit (pm_codec P) now (is_server s) key (h_stream h) b = (st', Return e)"
  shows "isys_inv P (after_batch s key h st' e)"
  using handler_facts [OF assms(1,2)] new_frames_ok [OF hb_admit_sends [OF assms(3)]] assms(2)
  by (intro inv_after_batch) auto

lemma hb_archive_fs:
  "hb_archive cd now io sv q fs hello sid st b a p = (st', fs', r) \<Longrightarrow>
   fs' = fs \<or> (\<exists>rec e. Archive (cd_marshal_batch cd) io (sv_archiver sv) fs rec = (fs', e))"
  unfolding hb_archive_def Let_def by (auto split: if_splits prod.splits option.splits)

lemma disk_load_archive:
  assumes "base_inv P s" "hb_archive cd now io (is_server s) q (is_fs s) hello sid st b a p = (st', fs', r)"
  shows "disk_load decode (sv_checkpoints (is_server s)) fs' (t, c) = disk_load decode (sv_checkpoints (is_server s)) (is_fs s) (t, c)"
proof (cases "sv_checkpoints (is_server s)")
  case (FileCheckpointStore root)
  have ok: "root \<noteq> []" "\<forall>r. sv_archiver (is_server s) = FileArchiver r \<longrightarrow> r \<noteq> []"
    using assms(1) FileCheckpointStore by (auto simp: base_inv_def server_ok_def rooted_store_def)
  have "fs' (checkpoint_path root t c) = is_fs s (checkpoint_path root t c)"
    using hb_archive_fs [OF assms(2)]
  proof (elim disjE exE)
    fix rec e assume "Archive (cd_marshal_batch cd) io (sv_archiver (is_server s)) (is_fs s) rec = (fs', e)"
    then show ?thesis by (rule Archive_keeps_checkpoints [OF _ ok(2,1)])
  qed simp
  then show ?thesis unfolding FileCheckpointStore by (rule disk_load_cong)
qed (simp add: disk_load_def checkpoint_Load_def)

lemma archived_facts:
  assumes "isys_inv P s" "is_handlers s key = Some h"
    "hb_archive cd now io (is_server s) q (is_fs s) hello sid st b a p = (st', fs', r)"
  shows "base_inv P (s\<lparr> is_fs := fs' \<rparr>)" "others_ok (s\<lparr> is_fs := fs' \<rparr>) key"
proof -
  note f = handler_facts [OF assms(1,2)]
  show "base_inv P (s\<lparr> is_fs := fs' \<rparr>)"
    by (rule base_inv_fs [OF f(1)]) (simp add: disk_load_archive [OF f(1) assms(3)])
  show "others_ok (s\<lparr> is_fs := fs' \<rparr>) key" by (rule others_ok_mono [OF assms(1)]) (simp_all add: live_def)
qed

lemma inv_archive:
  assumes "isys_inv P s" "is_handlers s key = Some h" "h_stage h = Admitted b a p"
    "hb_archive cd now io (is_server s) q (is_fs s) (h_hello h) sid (h_stream h) b a p = (st', fs', r)"
  shows "isys_inv P (go_on (s\<lparr> is_fs := fs' \<rparr>) key h st' (Archived b a p sent))"
    and "isys_inv P (after_batch (s\<lparr> is_fs := fs' \<rparr>) key h st' e)"
proof -
  note f = handler_facts [OF assms(1,2)]
  note g = archived_facts [OF assms(1,2,4)]
  have acc: "accepted_ok s key b a p" using f(3) assms(3) by (simp add: stage_ok_def)
  then have fr: "\<forall>x \<in> set (new_frames (h_hello h) (h_stream h) st'). frame_ok (is_committed s) x"
    using new_frames_ok [OF hb_archive_sends [OF assms(4)]] f(6) by (auto simp: accepted_ok_def)
  show "isys_inv P (go_on (s\<lparr> is_fs := fs' \<rparr>) key h st' (Archived b a p sent))"
    by (rule inv_go_on [OF g]) (use assms(2) fr acc in \<open>auto simp: stage_ok_def accepted_ok_def\<close>)
  show "isys_inv P (after_batch (s\<lparr> is_fs := fs' \<rparr>) key h st' e)"
    by (rule inv_after_batch [OF g]) (use assms(2) fr in auto)
qed

lemma path_safe_nonempty: "safe_key (t, c) \<Longrightarrow> t \<noteq> [] \<and> c \<noteq> []"
  by (simp add: safe_key_def path_safe_def)

lemma accepted_persistable:
  assumes "accepted_ok s key b a p" "qb_ObservationSet qb = Some a" "qb_TenantID qb \<noteq> []" "qb_ClusterID qb \<noteq> []"
  shows "batch_ok (Some qb)"
proof -
  have "getN ob_sequence ob \<noteq> 0" if "ob \<in> set (bt_observations a)" for ob
  proof
    assume "getN ob_sequence ob = 0"
    with that have "0 \<in> set (seqs (bt_observations a))" by force
    with assms(1) have "0 \<in> set [unat p + 1 ..< unat (bt_last_sequence b) + 1]" unfolding accepted_ok_def by metis
    then show False by auto
  qed
  with assms show ?thesis by (simp add: batch_ok_def persistable_def accepted_ok_def)
qed

lemma inv_enqueue:
  assumes "isys_inv P s" "is_handlers s key = Some h" "h_stage h = Archived b a p sent"
    "hb_enqueue now (is_server s) (is_queue s) (is_fresh s) (h_hello h) (h_session h) (h_stream h) b a p sent
       = (st', q', fresh', Continue qb)"
  shows "isys_inv P (go_on (s\<lparr> is_queue := q', is_fresh := fresh' \<rparr>) key h st' (Waiting b a p qb))"
proof -
  note f = handler_facts [OF assms(1,2)]
  note c = hb_enqueue_Continue [OF assms(4)]
  let ?s = "s\<lparr> is_queue := q', is_fresh := fresh' \<rparr>"
  have acc: "accepted_ok s key b a p" using f(3) assms(3) by (simp add: stage_ok_def)
  have "batch_ok (Some qb)"
    by (rule accepted_persistable [OF acc]) (use c(4) path_safe_nonempty [OF f(5)] in simp_all)
  then have base: "base_inv P ?s"
    using base_inv_enqueue [OF f(1) c(3)] c(2,4) by simp
  have l: "live ?s = live s @ [Some qb]" using TryEnqueue_okE(2) [OF c(3)] by (simp add: live_def)
  have others: "others_ok ?s key" by (rule others_ok_mono [OF assms(1)]) (auto simp: l)
  have "stage_ok ?s key (h\<lparr> h_stream := st', h_stage := Waiting b a p qb \<rparr>)"
    using acc c(4) l by (simp add: stage_ok_def accepted_ok_def)
  with base others show ?thesis
    using assms(2) c(1) by (intro inv_go_on) (simp_all add: new_frames_def)
qed

lemma inv_enqueue_full:
  assumes "isys_inv P s" "is_handlers s key = Some h" "h_stage h = Archived b a p sent"
    "hb_enqueue now (is_server s) (is_queue s) (is_fresh s) (h_hello h) (h_session h) (h_stream h) b a p sent
       = (st', q', fresh', Return e)"
  shows "isys_inv P (after_batch (s\<lparr> is_queue := q', is_fresh := fresh' \<rparr>) key h st' e)"
proof -
  note f = handler_facts [OF assms(1,2)]
  have acc: "accepted_ok s key b a p" using f(3) assms(3) by (simp add: stage_ok_def)
  have q: "q' = is_queue s" using hb_enqueue_Return(1) [OF assms(4)] by simp
  have "is_fresh s \<le> fresh'"
    using assms(4) by (auto simp: hb_enqueue_def EnablePersistenceNotification_def Let_def
      split: if_splits prod.splits option.splits)
  then have base: "base_inv P (s\<lparr> is_fresh := fresh' \<rparr>)" by (rule base_inv_fresh [OF f(1)])
  have others: "others_ok (s\<lparr> is_fresh := fresh' \<rparr>) key"
    by (rule others_ok_mono [OF assms(1)]) (simp_all add: live_def)
  have "covers (is_committed s) (ah_tenant_id (h_hello h)) (ah_cluster_id (h_hello h)) p"
    using f(6) acc by (simp add: accepted_ok_def)
  from new_frames_ok [OF hb_enqueue_sends [OF assms(4)] this]
  have "isys_inv P (after_batch (s\<lparr> is_fresh := fresh' \<rparr>) key h st' e)"
    using base others assms(2) by (intro inv_after_batch) auto
  then show ?thesis using q by simp
qed

text \<open>When the notification of a queued batch has fired, its watermark may be claimed.\<close>

lemma finish_covers:
  assumes "isys_inv P s" "is_handlers s key = Some h" "h_stage h = Waiting b a p qb" "Persisted (is_closed s) qb"
  shows "covers (is_committed s) (ah_tenant_id (h_hello h)) (ah_cluster_id (h_hello h)) (bt_last_sequence b)"
proof -
  note f = handler_facts [OF assms(1,2)]
  have st: "accepted_ok s key b a p" "qb_TenantID qb = ah_tenant_id (h_hello h)" "qb_ClusterID qb = ah_cluster_id (h_hello h)"
    "qb_ObservationSet qb = Some a" "qb_persisted qb \<noteq> None" "Some qb \<in> set (live s) \<or> Some qb \<in> set (is_committed s)"
    using f(3) assms(3) by (simp_all add: stage_ok_def)
  obtain ch where ch: "qb_persisted qb = Some ch" "ch \<in> is_closed s"
    using st(5) assms(4) by (auto simp: Persisted_def)
  have "Some qb \<notin> set (live s)"
    using f(1) ch chans_member [OF _ ch(1), of "live s"] by (auto simp: base_inv_def chan_ok_def)
  with st(6) have "Some qb \<in> set (is_committed s)" by blast
  from covers_extend [OF f(6) this st(2-4)] show ?thesis using st(1) by (simp add: accepted_ok_def)
qed

lemma save_facts:
  assumes "isys_inv P s" "is_handlers s key = Some h"
    "checkpoint_Save io (sv_checkpoints (is_server s)) (is_fs s) (ah_tenant_id (h_hello h)) (ah_cluster_id (h_hello h)) n = (fs', e)"
    "covers (is_committed s) (ah_tenant_id (h_hello h)) (ah_cluster_id (h_hello h)) n"
  shows "base_inv P (s\<lparr> is_fs := fs' \<rparr>)"
proof (rule base_inv_fs)
  note f = handler_facts [OF assms(1,2)]
  show "base_inv P s" by (rule f(1))
  fix t c m
  assume k: "safe_key (t, c)" and l: "disk_load (pm_decode P) (sv_checkpoints (is_server s)) fs' (t, c) = Some m"
  let ?k = "(ah_tenant_id (h_hello h), ah_cluster_id (h_hello h))"
  have "rooted_store (sv_checkpoints (is_server s))" using f(1) by (simp add: base_inv_def server_ok_def)
  then have sv: "rooted_save (sv_checkpoints (is_server s)) io (is_fs s) ?k n = (fs', e = None)"
    using assms(3) by (simp add: rooted_save_def store_save_def)
  show "disk_load (pm_decode P) (sv_checkpoints (is_server s)) (is_fs s) (t, c) = Some m \<or> covers (is_committed s) t c m"
  proof (cases "(t, c) = ?k")
    case True
    with ckpt.own_old_or_new [OF f(5) sv, of "pm_decode P"] l assms(4) show ?thesis by auto
  next
    case False
    with ckpt.other_kept [OF f(5) k _ sv, of "pm_decode P"] l show ?thesis by simp
  qed
qed

lemma inv_finish:
  assumes "isys_inv P s" "is_handlers s key = Some h" "h_stage h = Waiting b a p qb"
    "w = WaitPersisted \<longrightarrow> Persisted (is_closed s) qb"
    "hb_finish now io w (is_server s) key (is_fs s) (h_hello h) (h_stream h) b a p = (st', sv', fs', e)"
  shows "isys_inv P (after_batch (s\<lparr> is_server := sv', is_fs := fs' \<rparr>) key h st' e)"
proof -
  note f = handler_facts [OF assms(1,2)]
  have p: "covers (is_committed s) (ah_tenant_id (h_hello h)) (ah_cluster_id (h_hello h)) p"
    using f(3,6) assms(3) by (simp add: stage_ok_def accepted_ok_def)
  from assms(5) show ?thesis
  proof (cases rule: hb_finish_cases)
    case (cancelled x)
    with inv_after_batch [OF f(1,2) assms(2), of st' e] show ?thesis by (simp add: new_frames_def)
  next
    case (unsaved x)
    then have base: "base_inv P (s\<lparr> is_fs := fs' \<rparr>)"
      using save_facts [OF assms(1,2)] finish_covers [OF assms(1-3)] assms(4) by blast
    have "others_ok (s\<lparr> is_fs := fs' \<rparr>) key" by (rule others_ok_mono [OF assms(1)]) (simp_all add: live_def)
    with inv_after_batch [OF base this] new_frames_ok [OF unsaved(3) p] unsaved(2) assms(2) show ?thesis by simp
  next
    case saved
    have cov: "covers (is_committed s) (ah_tenant_id (h_hello h)) (ah_cluster_id (h_hello h)) (bt_last_sequence b)"
      using finish_covers [OF assms(1-3)] saved(1) assms(4) by blast
    have "base_inv P (s\<lparr> is_fs := fs' \<rparr>)" by (rule save_facts [OF assms(1,2) saved(3) cov])
    from base_inv_watermark [OF this f(5) _ f(4), of "bt_last_sequence b"] cov saved(4)
    have base: "base_inv P (s\<lparr> is_fs := fs', is_server := sv' \<rparr>)" by simp
    have "others_ok (s\<lparr> is_fs := fs', is_server := sv' \<rparr>) key"
      by (rule others_ok_mono [OF assms(1)]) (simp_all add: live_def saved(4) persisted_def)
    from inv_after_batch [OF base this] new_frames_ok [OF saved(2) cov] assms(2)
    have "isys_inv P (after_batch (s\<lparr> is_fs := fs', is_server := sv' \<rparr>) key h st' e)" by simp
    moreover have "s\<lparr> is_fs := fs', is_server := sv' \<rparr> = s\<lparr> is_server := sv', is_fs := fs' \<rparr>" by simp
    ultimately show ?thesis by (simp only:)
  qed
qed

section \<open>The worker and crashes\<close>

lemma inv_relabel:
  assumes "isys_inv P s" "live s' = live s" "chan_ok s'" "is_server s' = is_server s" "is_handlers s' = is_handlers s"
    "is_fs s' = is_fs s" "is_sent s' = is_sent s" "is_committed s' = is_committed s" "set (is_db s) \<subseteq> set (is_db s')"
  shows "isys_inv P s'"
proof -
  have "server_ok s'" using assms by (simp add: isys_inv_def base_inv_def server_ok_def)
  moreover have "watermark_ok P s'" using assms by (simp add: isys_inv_def base_inv_def watermark_ok_def)
  moreover have "rows_stored P s'"
    using assms(1,8,9) unfolding isys_inv_def base_inv_def rows_stored_def by (metis subsetD)
  moreover have "stage_ok s' k h" if "is_handlers s' k = Some h" for k h
  proof -
    have "stage_ok s k h" using that assms(1,5) by (simp add: isys_inv_def)
    then show ?thesis by (rule stage_ok_mono) (simp_all add: assms)
  qed
  ultimately show ?thesis using assms by (simp add: isys_inv_def base_inv_def)
qed

lemma inv_lease:
  assumes "isys_inv P s" "is_lease s = None" "Acquire (is_queue s) n = Some (l, q')"
  shows "isys_inv P (s\<lparr> is_queue := q', is_lease := Some l \<rparr>)"
proof (rule inv_relabel [OF assms(1)])
  let ?s = "s\<lparr> is_queue := q', is_lease := Some l \<rparr>"
  show l: "live ?s = live s" using AcquireE(2) [OF assms(3)] assms(2) by (simp add: live_def)
  show "chan_ok ?s" using assms(1) AcquireE(4) [OF assms(3)] l by (simp add: isys_inv_def base_inv_def chan_ok_def)
qed simp_all

lemma inv_persist_failed:
  assumes "isys_inv P s" "is_lease s = Some l" "Persist (pm_uuid P) env (is_db s) bs = (db', e)"
    "lease_Retry l (is_queue s) = (l', q')"
  shows "isys_inv P (s\<lparr> is_queue := q', is_db := db', is_lease := None \<rparr>)"
proof (rule inv_relabel [OF assms(1)])
  let ?s = "s\<lparr> is_queue := q', is_db := db', is_lease := None \<rparr>"
  have once: "\<not> l_once l" using assms(1,2) by (simp add: isys_inv_def base_inv_def chan_ok_def)
  show l: "live ?s = live s" using lease_RetryE(2) [OF assms(4) once] assms(2) by (simp add: live_def)
  show "chan_ok ?s" using assms(1) l by (simp add: isys_inv_def base_inv_def chan_ok_def)
  show "set (is_db s) \<subseteq> set (is_db ?s)" using Persist_stores(1) [OF assms(3)] by simp
qed simp_all

lemma batch_rows_append: "batch_rows uuid (xs @ ys) = batch_rows uuid xs @ batch_rows uuid ys"
  by (simp add: batch_rows_def)

lemma inv_persist:
  assumes "isys_inv P s" "is_lease s = Some l" "Persist (pm_uuid P) env (is_db s) (lease_Items l) = (db', None)"
    "lease_Commit l (is_queue s) (is_closed s) = Some (l', q', closed')"
  shows "isys_inv P (s\<lparr> is_queue := q', is_closed := closed', is_db := db', is_lease := None,
       is_committed := is_committed s @ l_items l \<rparr>)" (is "isys_inv P ?s")
proof -
  have b: "base_inv P s" using assms(1) by (simp add: isys_inv_def)
  have once: "\<not> l_once l" using b assms(2) by (simp add: base_inv_def chan_ok_def)
  note c = lease_CommitE(2) [OF assms(4) once]
  have ls: "live s = l_items l @ q_items (is_queue s)" "live ?s = q_items (is_queue s)"
    using assms(2) c by (simp_all add: live_def)
  have "chan_ok ?s" using b c unfolding base_inv_def chan_ok_def ls by auto
  moreover have "\<forall>x \<in> set (live ?s). batch_ok x" using b unfolding base_inv_def ls by simp
  moreover have "server_ok ?s" using b by (simp add: base_inv_def server_ok_def)
  moreover have "watermark_ok P ?s"
    using b covers_mono [of "is_committed s" _ _ _ "is_committed s @ l_items l"]
    by (simp add: base_inv_def watermark_ok_def)
  moreover have "\<forall>x \<in> set (is_sent ?s). frame_ok (is_committed ?s) x"
    using b frame_ok_mono [of "is_committed s" _ "is_committed s @ l_items l"] by (simp add: base_inv_def)
  moreover have "rows_stored P ?s"
    using b Persist_stores [OF assms(3)]
    unfolding base_inv_def rows_stored_def by (fastforce simp: batch_rows_append lease_Items_def)
  moreover have "stage_ok ?s k h" if "is_handlers ?s k = Some h" for k h
  proof -
    have "stage_ok s k h" using that assms(1) by (simp add: isys_inv_def)
    then show ?thesis by (rule stage_ok_mono) (auto simp: ls)
  qed
  ultimately show ?thesis by (simp add: isys_inv_def base_inv_def)
qed

lemma start_server_ok:
  assumes "good_params P"
  shows "rooted_store (sv_checkpoints (start_server P)) \<and> (\<forall>r. sv_archiver (start_server P) = FileArchiver r \<longrightarrow> r \<noteq> [])"
    and "sv_clusters (start_server P) = Map.empty" "sv_active (start_server P) = Map.empty"
proof -
  have "rooted_store (snd (fold apply_option os (ar, ck))) \<and> (\<forall>r. fst (fold apply_option os (ar, ck)) = FileArchiver r \<longrightarrow> r \<noteq> [])"
    if "set os \<subseteq> set (pm_options P)" "rooted_store ck" "\<forall>r. ar = FileArchiver r \<longrightarrow> r \<noteq> []" for os ar ck
    using that
  proof (induction os arbitrary: ar ck)
    case (Cons o1 os)
    obtain ar' ck' where x: "apply_option o1 (ar, ck) = (ar', ck')" by (cases "apply_option o1 (ar, ck)")
    have "rooted_store ck' \<and> (\<forall>r. ar' = FileArchiver r \<longrightarrow> r \<noteq> [])"
      using x Cons.prems assms
      by (cases "(o1, (ar, ck))" rule: apply_option.cases) (auto simp: good_params_def split: option.splits)
    with Cons.IH [of ck' ar'] Cons.prems(1) x show ?case by simp
  qed simp
  from this [of "pm_options P" MemoryCheckpointStore NoopArchiver]
  show "rooted_store (sv_checkpoints (start_server P)) \<and> (\<forall>r. sv_archiver (start_server P) = FileArchiver r \<longrightarrow> r \<noteq> [])"
    by (cases "fold apply_option (pm_options P) (NoopArchiver, MemoryCheckpointStore)")
      (simp add: start_server_def server_New_def rooted_store_def)
  show "sv_clusters (start_server P) = Map.empty" "sv_active (start_server P) = Map.empty"
    by (simp_all add: start_server_def server_New_def split: prod.splits)
qed

lemma sel_boot [simp]:
  "is_queue (boot P fs db cm sent) = queue_New (pm_capacity P)" "is_closed (boot P fs db cm sent) = {}"
  "is_fs (boot P fs db cm sent) = fs" "is_db (boot P fs db cm sent) = db" "is_lease (boot P fs db cm sent) = None"
  "is_committed (boot P fs db cm sent) = cm" "is_server (boot P fs db cm sent) = start_server P"
  "is_sent (boot P fs db cm sent) = sent" "is_handlers (boot P fs db cm sent) = Map.empty"
  by (simp_all add: boot_def)

lemma inv_boot:
  assumes "good_params P" "\<forall>x \<in> set sent. frame_ok cm x"
    "\<forall>t c p. safe_key (t, c) \<longrightarrow> disk_load (pm_decode P) (sv_checkpoints (start_server P)) fs (t, c) = Some p \<longrightarrow> covers cm t c p"
    "\<forall>r \<in> set (batch_rows (pm_uuid P) cm). \<exists>rows. (table_query (mr_table r), rows) \<in> set db \<and> mr_values r \<in> set rows"
  shows "isys_inv P (boot P fs db cm sent)"
proof -
  have l: "live (boot P fs db cm sent) = []" by (simp add: live_def queue_New_def)
  show ?thesis
    using assms start_server_ok [OF assms(1)]
    unfolding isys_inv_def base_inv_def chan_ok_def server_ok_def watermark_ok_def rows_stored_def l by simp
qed

lemma inv_crash:
  assumes "good_params P" "isys_inv P s"
  shows "isys_inv P (boot P (is_fs s) (is_db s) (is_committed s) (is_sent s))"
  by (rule inv_boot [OF assms(1)])
    (use assms(2) in \<open>auto simp: isys_inv_def base_inv_def watermark_ok_def rows_stored_def\<close>)

lemma disk_load_empty: "disk_load decode st Map.empty k = Some 0"
  by (simp add: disk_load_def checkpoint_Load_def file_Load_def io_ok_def split: checkpoint_store.splits)

lemma inv_disconnect:
  assumes "isys_inv P s" "is_handlers s key = Some h"
  shows "isys_inv P (s\<lparr> is_handlers := (is_handlers s)(key := None), is_server := release (is_server s) key (h_session h) \<rparr>)"
proof -
  note f = handler_facts [OF assms]
  have "isys_inv P (after_batch s key h (h_stream h) (Some []))"
    by (rule inv_after_batch [OF f(1,2) assms(2)]) (simp add: new_frames_def)
  then show ?thesis by (simp add: after_batch_def new_frames_def)
qed

lemma istep_inv:
  assumes "istep P s s'" "good_params P" "isys_inv P s"
  shows "isys_inv P s'"
  using assms(1)
proof cases
  case connect
  then show ?thesis using inv_connect [OF assms(3)] by simp
next
  case refuse
  then show ?thesis using inv_refuse [OF assms(3)] by blast
next
  case disconnect
  then show ?thesis using inv_disconnect [OF assms(3)] by simp
next
  case admit
  then show ?thesis using inv_admit [OF assms(3)] by blast
next
  case answer
  then show ?thesis using inv_answer [OF assms(3)] by blast
next
  case archive
  then show ?thesis using inv_archive(1) [OF assms(3)] by blast
next
  case archive_failed
  then show ?thesis using inv_archive(2) [OF assms(3)] by blast
next
  case enqueue
  then show ?thesis using inv_enqueue [OF assms(3)] by blast
next
  case enqueue_full
  then show ?thesis using inv_enqueue_full [OF assms(3)] by blast
next
  case finish
  then show ?thesis using inv_finish [OF assms(3)] by blast
next
  case lease
  then show ?thesis using inv_lease [OF assms(3)] by blast
next
  case persist
  then show ?thesis using inv_persist [OF assms(3)] by blast
next
  case persist_failed
  then show ?thesis using inv_persist_failed [OF assms(3)] by blast
next
  case crash
  then show ?thesis using inv_crash [OF assms(2,3)] by simp
qed

lemma ireach_inv: "ireach P s \<Longrightarrow> good_params P \<Longrightarrow> isys_inv P s"
proof (induction rule: ireach.induct)
  case init
  then show ?case by (intro inv_boot) (auto simp: disk_load_empty batch_rows_def)
qed (rule istep_inv)

section \<open>A run\<close>

lemma leased_commits:
  assumes "isys_inv P s" "is_lease s = Some l"
  shows "\<exists>l' q' closed'. lease_Commit l (is_queue s) (is_closed s) = Some (l', q', closed')
    \<and> closed' = is_closed s \<union> set (chans (l_items l))"
proof -
  have c: "chan_ok s" and l: "live s = l_items l @ q_items (is_queue s)"
    using assms by (simp_all add: isys_inv_def base_inv_def live_def)
  have "markAll (l_items l) (is_closed s) = Some (is_closed s \<union> set (chans (l_items l)))"
    by (rule markAll_fresh) (use c l in \<open>auto simp: chan_ok_def\<close>)
  moreover have "\<not> l_once l" using c assms(2) by (simp add: chan_ok_def)
  ultimately show ?thesis by (simp add: lease_Commit_def)
qed

lemma leased_persistable:
  assumes "isys_inv P s" "is_lease s = Some l"
  shows "\<forall>b \<in> set (lease_Items l). persistable b"
proof -
  have "live s = l_items l @ q_items (is_queue s)" using assms(2) by (simp add: live_def)
  with assms(1) show ?thesis by (simp add: isys_inv_def base_inv_def batch_ok_def lease_Items_def)
qed

lemma archive_io_ok:
  assumes "\<And>x. \<exists>d. cd_marshal_batch cd x = Inr d"
  shows "\<exists>fs'. Archive (cd_marshal_batch cd) io_ok a fs (rec\<lparr> ar_Batch := Some b \<rparr>) = (fs', None)"
  using assms [of b] by (cases a) (auto simp: Archive_def file_Archive_def io_ok_def os_WriteFile_def)

lemma save_io_ok: "\<exists>fs'. checkpoint_Save io_ok st fs t c n = (fs', None)"
  by (cases st) (auto simp: checkpoint_Save_def file_Save_def io_ok_def os_WriteFile_def os_Rename_def Let_def)

lemma acquire_single: "q_items q = [x] \<Longrightarrow> \<exists>l q'. Acquire q n = Some (l, q') \<and> l_items l = [x] \<and> q_items q' = []"
  by (auto simp: Acquire_def take_count_def Let_def)

text \<open>The state of a handler that has just queued a batch while nothing else was waiting.\<close>

definition just_queued :: "isys \<Rightarrow> string \<Rightarrow> handler \<Rightarrow> observation_batch \<Rightarrow> queue_batch \<Rightarrow> bool" where
  "just_queued s key h b qb = (is_handlers s key = Some h \<and> is_lease s = None \<and> q_items (is_queue s) = [Some qb]
     \<and> (\<exists>a p. h_stage h = Waiting b a p qb) \<and> (\<forall>n. st_sendErr (h_stream h) n = None))"

lemma run_to_queue:
  assumes h: "is_handlers s key = Some h" "h_stage h = Idle" "is_lease s = None" "q_items (is_queue s) = []"
    and room: "q_inFlight (is_queue s) < q_capacity (is_queue s)"
    and b: "go_len (bt_observations b)" "validateBatch (pm_codec P) (sv_config (is_server s)) b = None"
      "persisted (is_server s) key < bt_last_sequence b" "bt_first_sequence b \<le> persisted (is_server s) key + 1"
      "sv_clusters (is_server s) key \<noteq> None"
    and env: "\<forall>n. st_sendErr (h_stream h) n = None" "\<And>x. \<exists>d. cd_marshal_batch (pm_codec P) x = Inr d"
  shows "\<exists>s' h' qb. (istep P)\<^sup>*\<^sup>* s s' \<and> just_queued s' key h' b qb \<and> h_hello h' = h_hello h"
proof -
  let ?p = "persisted (is_server s) key" let ?a = "suffixAfter (pm_codec P) b ?p"
  let ?st = "h_stream h"
  have adm: "hb_admit (pm_codec P) 0 (is_server s) key ?st b = (?st, Continue (?a, ?p))"
    using b by (auto simp: hb_admit_def persisted_def Let_def)
  let ?h1 = "h\<lparr> h_stream := ?st, h_stage := Admitted b ?a ?p \<rparr>"
  let ?s1 = "go_on s key h ?st (Admitted b ?a ?p)"
  have 1: "istep P s ?s1"
    by (rule istep.admit [where r = "Frame (AgentBatch b)"]) (use h b adm in \<open>simp_all add: connect_next_def\<close>)
  obtain fs' where ar: "hb_archive (pm_codec P) 0 io_ok (is_server ?s1) (is_queue ?s1) (is_fs ?s1) (h_hello ?h1) (h_session ?h1)
      (h_stream ?h1) b ?a ?p = (?st, fs', Continue False)"
    using archive_io_ok [OF env(2), where a = "sv_archiver (is_server s)" and fs = "is_fs s" and b = ?a and rec =
      "\<lparr> ar_TenantID = ah_tenant_id (h_hello h), ar_ClusterID = ah_cluster_id (h_hello h),
         ar_AgentInstance = ah_agent_instance_id (h_hello h), ar_SessionID = h_session h, ar_ReceivedAt = 0, ar_Batch = None \<rparr>"] h(4)
    by (auto simp: hb_archive_def Depth_def highWatermark_def Let_def)
  let ?h2 = "?h1\<lparr> h_stream := ?st, h_stage := Archived b ?a ?p False \<rparr>"
  let ?s2 = "go_on (?s1\<lparr> is_fs := fs' \<rparr>) key ?h1 ?st (Archived b ?a ?p False)"
  have 2: "istep P ?s1 ?s2" by (rule istep.archive [OF _ _ ar]) simp_all
  obtain q' qb where en: "hb_enqueue 0 (is_server ?s2) (is_queue ?s2) (is_fresh ?s2) (h_hello ?h2) (h_session ?h2) (h_stream ?h2)
      b ?a ?p False = (?st, q', Suc (is_fresh s), Continue qb)"
    using h(4) room by (simp add: hb_enqueue_def EnablePersistenceNotification_def TryEnqueue_def)
  let ?h3 = "?h2\<lparr> h_stream := ?st, h_stage := Waiting b ?a ?p qb \<rparr>"
  let ?s3 = "go_on (?s2\<lparr> is_queue := q', is_fresh := Suc (is_fresh s) \<rparr>) key ?h2 ?st (Waiting b ?a ?p qb)"
  have 3: "istep P ?s2 ?s3" by (rule istep.enqueue [OF _ _ en]) simp_all
  have "q_items q' = [Some qb]" using TryEnqueue_okE(2) [OF hb_enqueue_Continue(3) [OF en]] h(4) by simp
  then have "just_queued ?s3 key ?h3 b qb" using h(3) env(1) by (simp add: just_queued_def)
  moreover have "(istep P)\<^sup>*\<^sup>* s ?s3" using 1 2 3 by (meson converse_rtranclp_into_rtranclp rtranclp.rtrancl_refl)
  ultimately show ?thesis by (intro exI [of _ ?s3] exI [of _ ?h3] exI [of _ qb]) simp
qed

lemma run_from_queue:
  assumes P: "good_params P" and inv: "isys_inv P s" and q: "just_queued s key h b qb"
  shows "\<exists>s' a. (istep P)\<^sup>*\<^sup>* s s' \<and> persisted (is_server s') key = bt_last_sequence b
     \<and> (ah_tenant_id (h_hello h), ah_cluster_id (h_hello h), Acknowledgement a) \<in> set (is_sent s')
     \<and> ba_persisted_through_sequence a = bt_last_sequence b"
proof -
  let ?n = "wc_BatchSize (NewWorker (pm_worker P))"
  obtain a p where w: "is_handlers s key = Some h" "is_lease s = None" "q_items (is_queue s) = [Some qb]"
    "h_stage h = Waiting b a p qb" "\<forall>n. st_sendErr (h_stream h) n = None" using q by (auto simp: just_queued_def)
  obtain l q1 where l: "Acquire (is_queue s) ?n = Some (l, q1)" "l_items l = [Some qb]"
    using acquire_single [OF w(3), of ?n] by blast
  let ?s1 = "s\<lparr> is_queue := q1, is_lease := Some l \<rparr>"
  have 1: "istep P s ?s1" by (rule istep.lease [OF w(2) l(1)])
  have inv1: "isys_inv P ?s1" by (rule istep_inv [OF 1 P inv])
  have le: "is_lease ?s1 = Some l" by simp
  obtain l' q2 closed' where cm: "lease_Commit l (is_queue ?s1) (is_closed ?s1) = Some (l', q2, closed')"
    "closed' = is_closed s \<union> set (chans (l_items l))" using leased_commits [OF inv1 le] by auto
  have "snd (Persist (pm_uuid P) (\<lambda>_. ch_fine) (is_db ?s1) (lease_Items l)) = None"
    by (rule Persist_ok [OF leased_persistable [OF inv1 le]]) (simp add: ch_ok_def ch_fine_def)
  then obtain db' where pe: "Persist (pm_uuid P) (\<lambda>_. ch_fine) (is_db ?s1) (lease_Items l) = (db', None)"
    by (metis prod.collapse)
  let ?s2 = "?s1\<lparr> is_queue := q2, is_closed := closed', is_db := db', is_lease := None, is_committed := is_committed ?s1 @ l_items l \<rparr>"
  have 2: "istep P ?s1 ?s2" by (rule istep.persist [OF le pe cm(1)])
  have inv2: "isys_inv P ?s2" by (rule istep_inv [OF 2 P inv1])
  have h2: "is_handlers ?s2 key = Some h" using w(1) by simp
  have ch: "qb_persisted qb \<noteq> None" using handler_facts(3) [OF inv w(1)] w(4) by (simp add: stage_ok_def)
  have fired: "Persisted (is_closed ?s2) qb" using ch l(2) cm(2) by (auto simp: Persisted_def)
  obtain fs' where sv: "checkpoint_Save io_ok (sv_checkpoints (is_server s)) (is_fs s)
      (ah_tenant_id (h_hello h)) (ah_cluster_id (h_hello h)) (bt_last_sequence b) = (fs', None)"
    using save_io_ok by blast
  let ?ack = "acknowledgement 0 (bt_batch_id b) (bt_last_sequence b) (bt_last_sequence b) [] []"
  let ?st = "(h_stream h)\<lparr> st_sent := st_sent (h_stream h) @ [?ack] \<rparr>"
  let ?sv = "(is_server s)\<lparr> sv_clusters := (sv_clusters (is_server s))(key := map_option
        (\<lambda>state. state\<lparr> cs_persistedThrough := bt_last_sequence b \<rparr>) (sv_clusters (is_server s) key)) \<rparr>"
  have fi: "hb_finish 0 io_ok WaitPersisted (is_server ?s2) key (is_fs ?s2) (h_hello h) (h_stream h) b a p = (?st, ?sv, fs', None)"
    using sv w(5) by (simp add: hb_finish_def Send_def Let_def)
  let ?s3 = "after_batch (?s2\<lparr> is_server := ?sv, is_fs := fs' \<rparr>) key h ?st None"
  have 3: "istep P ?s2 ?s3" by (rule istep.finish [OF h2 w(4) _ fi]) (use fired in simp)
  have "persisted (is_server ?s3) key = bt_last_sequence b"
    using persisted_update [OF handler_facts(7) [OF inv w(1)], of "bt_last_sequence b" key] by simp
  moreover have "(istep P)\<^sup>*\<^sup>* s ?s3" using 1 2 3 by (meson converse_rtranclp_into_rtranclp rtranclp.rtrancl_refl)
  moreover obtain ak where "?ack = Acknowledgement ak" "ba_persisted_through_sequence ak = bt_last_sequence b"
    by (simp add: acknowledgement_def)
  ultimately show ?thesis by (intro exI [of _ ?s3] exI [of _ ak]) (simp add: new_frames_def)
qed

lemma ireach_steps: "(istep P)\<^sup>*\<^sup>* s s' \<Longrightarrow> ireach P s \<Longrightarrow> ireach P s'"
  by (induction rule: rtranclp_induct) (auto intro: ireach.step)

section \<open>Properties\<close>

text \<open>The observation with sequence number \<^verbatim>\<open>n\<close> of a cluster was persisted: it is in a committed batch of
  that tenant and cluster, and the row it maps to, if any, is in the database.\<close>

definition stored :: "params \<Rightarrow> isys \<Rightarrow> string \<Rightarrow> string \<Rightarrow> nat \<Rightarrow> bool" where
  "stored P s t c n = (\<exists>qb os ob. Some qb \<in> set (is_committed s) \<and> qb_TenantID qb = t \<and> qb_ClusterID qb = c
     \<and> qb_ObservationSet qb = Some os \<and> ob \<in> set (bt_observations os) \<and> unat (getN ob_sequence ob) = n
     \<and> (\<forall>r. mapObservation (pm_uuid P) qb ob = Inr (Some r) \<longrightarrow>
          (\<exists>rows. (table_query (mr_table r), rows) \<in> set (is_db s) \<and> mr_values r \<in> set rows)))"

lemma mapped_in_batch_rows:
  assumes "Some qb \<in> set bs" "qb_ObservationSet qb = Some os" "ob \<in> set (bt_observations os)"
    "mapObservation uuid qb ob = Inr (Some r)"
  shows "r \<in> set (batch_rows uuid bs)"
proof -
  have "r \<in> set (mapped_rows uuid qb (bt_observations os))"
    using assms(3,4) by (force simp: mapped_rows_def List.map_filter_def)
  with assms(1,2) show ?thesis by (force simp: batch_rows_def)
qed

lemma covers_stored:
  assumes "rows_stored P s" "covers (is_committed s) t c p" "1 \<le> n" "n \<le> unat p"
  shows "stored P s t c n"
proof -
  obtain qb os where q: "Some qb \<in> set (is_committed s)" "qb_TenantID qb = t" "qb_ClusterID qb = c"
    "qb_ObservationSet qb = Some os" "n \<in> set (seqs (bt_observations os))"
    using assms(2-4) by (auto simp: covers_def covered_def)
  then obtain ob where ob: "ob \<in> set (bt_observations os)" "unat (getN ob_sequence ob) = n" by auto
  with q assms(1) mapped_in_batch_rows [OF q(1,4) ob(1)] show ?thesis
    unfolding stored_def rows_stored_def by blast
qed


definition sample_params :: params where
  "sample_params = \<lparr> pm_codec = sample_codec, pm_decode = Inl, pm_uuid = id, pm_config = sample_config,
     pm_auth = InsecureAuthenticator, pm_options = [], pm_capacity = 4, pm_worker = sample_wconfig \<rparr>"

lemma sample_good: "good_params sample_params"
  by (simp add: good_params_def sample_params_def)

text \<open>A connected agent of the sample service.\<close>

lemma sample_connected:
  "\<exists>s h. ireach sample_params s \<and> is_handlers s (clusterKey ''t'' ''c'') = Some h \<and> h_stage h = Idle
     \<and> h_hello h = sample_hello \<and> is_lease s = None \<and> is_queue s = queue_New 4
     \<and> sv_config (is_server s) = normalize_server_config sample_config
     \<and> persisted (is_server s) (clusterKey ''t'' ''c'') = 0 \<and> (\<forall>n. st_sendErr (h_stream h) n = None)"
proof -
  let ?P = sample_params
  let ?s0 = "boot ?P Map.empty [] [] []"
  let ?st = "\<lparr> st_sent = [], st_sendErr = (\<lambda>_. None) \<rparr>"
  let ?sv = "(start_server ?P)\<lparr> sv_clusters := [clusterKey ''t'' ''c'' \<mapsto> \<lparr> cs_persistedThrough = 0, cs_loaded = True \<rparr>],
     sv_active := [clusterKey ''t'' ''c'' \<mapsto> ''s''] \<rparr>"
  let ?st' = "?st\<lparr> st_sent := [serverHello 0 ''s'' 0 (sv_config (start_server ?P))] \<rparr>"
  have trim: "TrimSpace ''t'' = ''t''" "TrimSpace ''c'' = ''c''"
    using path_safe_sample(1) by (simp_all add: safe_key_def path_safe_def)
  have c: "connect_open (pm_decode ?P) io_ok 0 ''s'' NoPeer (is_fs ?s0) (is_server ?s0) ?st (Frame (AgentHello sample_hello))
      = (?sv, ?st', Session (clusterKey ''t'' ''c'') ''s'' sample_hello)"
    by (simp add: trim connect_open_def validateHello_def sample_hello_def Authenticate_def insecure_Authenticate_def
        start_server_def server_New_def sample_params_def acquire_def checkpoint_Load_def Send_def Let_def)
  have "safe_key (ah_tenant_id sample_hello, ah_cluster_id sample_hello)"
    using path_safe_sample(1) by (simp add: sample_hello_def)
  from ireach.step [OF ireach.init istep.connect [OF c this]] show ?thesis
    by (intro exI conjI) (assumption | simp add: sample_params_def start_server_def server_New_def persisted_def)+
qed

lemma sample_acked:
  "\<exists>s a. ireach sample_params s \<and> (''t'', ''c'', Acknowledgement a) \<in> set (is_sent s) \<and> ba_persisted_through_sequence a = 2"
proof -
  obtain s h where s: "ireach sample_params s" "is_handlers s (clusterKey ''t'' ''c'') = Some h" "h_stage h = Idle"
    "h_hello h = sample_hello" "is_lease s = None" "is_queue s = queue_New 4"
    "sv_config (is_server s) = normalize_server_config sample_config"
    "persisted (is_server s) (clusterKey ''t'' ''c'') = 0" "\<forall>n. st_sendErr (h_stream h) n = None"
    using sample_connected by blast
  let ?b = "sample_obatch [1, 2]"
  have v: "validateBatch (pm_codec sample_params) (sv_config (is_server s)) ?b = None"
    by (simp add: s(7) validateBatch_def sample_params_def normalize_server_config_def sample_batch_defs)
  note inv = ireach_inv [OF s(1) sample_good]
  have "\<exists>s' h' qb. (istep sample_params)\<^sup>*\<^sup>* s s' \<and> just_queued s' (clusterKey ''t'' ''c'') h' ?b qb \<and> h_hello h' = h_hello h"
    by (rule run_to_queue [OF s(2,3,5) _ _ _ v])
      (use s handler_facts(7) [OF inv s(2)] in \<open>simp_all add: queue_New_def go_len_def sample_obatch_def sample_params_def sample_codec_def\<close>)
  then obtain s1 h1 qb where s1: "(istep sample_params)\<^sup>*\<^sup>* s s1" "just_queued s1 (clusterKey ''t'' ''c'') h1 ?b qb"
    "h_hello h1 = sample_hello" using s(4) by auto
  note r1 = ireach_steps [OF s1(1) s(1)]
  obtain s2 a where s2: "(istep sample_params)\<^sup>*\<^sup>* s1 s2" "(''t'', ''c'', Acknowledgement a) \<in> set (is_sent s2)"
    "ba_persisted_through_sequence a = bt_last_sequence ?b"
    using run_from_queue [OF sample_good ireach_inv [OF r1 sample_good] s1(2)] s1(3) by (auto simp: sample_hello_def)
  then show ?thesis using ireach_steps [OF s2(1) r1] by (intro exI [of _ s2] exI [of _ a]) (simp add: sample_obatch_def)
qed






text \<open>C4: Nothing panics and the worker never gives up on a batch.  In every reachable state the handler finds the state of
  its cluster, committing a lease closes no channel twice, and what the worker leased
  never makes the repository report invalid inventory, the one error on which the worker would end.\<close>

theorem ingestion_never_panics:
  assumes "good_params P" "ireach P s"
  shows "(\<forall>key h now b. is_handlers s key = Some h \<longrightarrow>
            snd (hb_admit (pm_codec P) now (is_server s) key (h_stream h) b) \<noteq> Panic)
     \<and> (\<forall>l. is_lease s = Some l \<longrightarrow> lease_Commit l (is_queue s) (is_closed s) \<noteq> None
          \<and> (\<forall>env db e. snd (Persist (pm_uuid P) env db (lease_Items l)) \<noteq> Some (ErrInvalidInventory e)))"
proof -
  have inv: "isys_inv P s" by (rule ireach_inv [OF assms(2,1)])
  have "snd (hb_admit (pm_codec P) now (is_server s) key (h_stream h) b) \<noteq> Panic"
    if "is_handlers s key = Some h" for key h now b
    using handler_facts(7) [OF inv that]
    by (auto simp: hb_admit_def send_return_def Let_def split: option.splits prod.splits)
  then show ?thesis
    using leased_commits [OF inv] Persist_not_invalid [OF leased_persistable [OF inv]] by fastforce
qed

theorem ingestion_never_panics_witness:
  "\<exists>s h. ireach sample_params s \<and> is_handlers s (clusterKey ''t'' ''c'') = Some h
     \<and> snd (hb_admit sample_codec 0 (is_server s) (clusterKey ''t'' ''c'') (h_stream h) (sample_obatch [1])) \<noteq> Panic"
proof -
  obtain s h where s: "ireach sample_params s" "is_handlers s (clusterKey ''t'' ''c'') = Some h" using sample_connected by blast
  have "pm_codec sample_params = sample_codec" by (simp add: sample_params_def)
  with ingestion_never_panics [OF sample_good s(1)] s show ?thesis by metis
qed

text \<open>C5: A batch gets through.  From any reachable state in which a stream is idle and the queue empty with room, a valid
  batch that continues the watermark can be driven to its acknowledgement: when no file, database or send
  call fails, there is a run of the handler and the worker after which the watermark is the batch's
  last sequence number and an acknowledgement of exactly that watermark was sent to the agent.\<close>

theorem ingestion_batch_completes:
  assumes "good_params P" "ireach P s" "is_handlers s key = Some h" "h_stage h = Idle" "is_lease s = None"
    "q_items (is_queue s) = []" "q_inFlight (is_queue s) < q_capacity (is_queue s)"
    "go_len (bt_observations b)" "validateBatch (pm_codec P) (sv_config (is_server s)) b = None"
    "persisted (is_server s) key < bt_last_sequence b" "bt_first_sequence b \<le> persisted (is_server s) key + 1"
    "\<forall>n. st_sendErr (h_stream h) n = None" "\<forall>x. \<exists>d. cd_marshal_batch (pm_codec P) x = Inr d"
  shows "\<exists>s' a. (istep P)\<^sup>*\<^sup>* s s' \<and> persisted (is_server s') key = bt_last_sequence b
     \<and> (ah_tenant_id (h_hello h), ah_cluster_id (h_hello h), Acknowledgement a) \<in> set (is_sent s')
     \<and> ba_persisted_through_sequence a = bt_last_sequence b"
proof -
  note inv = ireach_inv [OF assms(2,1)]
  have "\<And>x. \<exists>d. cd_marshal_batch (pm_codec P) x = Inr d" using assms(13) by blast
  from run_to_queue [OF assms(3-11) handler_facts(7) [OF inv assms(3)] assms(12) this]
  obtain s1 h1 qb where s1: "(istep P)\<^sup>*\<^sup>* s s1" "just_queued s1 key h1 b qb" "h_hello h1 = h_hello h" by blast
  from run_from_queue [OF assms(1) ireach_inv [OF ireach_steps [OF s1(1) assms(2)] assms(1)] s1(2)] s1(1,3)
  show ?thesis by (metis rtranclp_trans)
qed

theorem ingestion_batch_completes_witness:
  "\<exists>s' a. ireach sample_params s' \<and> persisted (is_server s') (clusterKey ''t'' ''c'') = 2
     \<and> (''t'', ''c'', Acknowledgement a) \<in> set (is_sent s')"
proof -
  obtain s h where s: "ireach sample_params s" "is_handlers s (clusterKey ''t'' ''c'') = Some h" "h_stage h = Idle"
    "h_hello h = sample_hello" "is_lease s = None" "is_queue s = queue_New 4"
    "sv_config (is_server s) = normalize_server_config sample_config"
    "persisted (is_server s) (clusterKey ''t'' ''c'') = 0" "\<forall>n. st_sendErr (h_stream h) n = None"
    using sample_connected by blast
  let ?b = "sample_obatch [1, 2]"
  have v: "validateBatch (pm_codec sample_params) (sv_config (is_server s)) ?b = None"
    by (simp add: s(7) validateBatch_def sample_params_def normalize_server_config_def sample_batch_defs)
  have "\<exists>s' a. (istep sample_params)\<^sup>*\<^sup>* s s' \<and> persisted (is_server s') (clusterKey ''t'' ''c'') = bt_last_sequence ?b
     \<and> (ah_tenant_id (h_hello h), ah_cluster_id (h_hello h), Acknowledgement a) \<in> set (is_sent s')
     \<and> ba_persisted_through_sequence a = bt_last_sequence ?b"
    by (rule ingestion_batch_completes [OF sample_good s(1,2,3,5) _ _ _ v])
      (use s in \<open>simp_all add: queue_New_def go_len_def sample_obatch_def sample_params_def sample_codec_def\<close>)
  then obtain s' a where "(istep sample_params)\<^sup>*\<^sup>* s s'" "persisted (is_server s') (clusterKey ''t'' ''c'') = 2"
    "(''t'', ''c'', Acknowledgement a) \<in> set (is_sent s')" using s(4) by (auto simp: sample_obatch_def sample_hello_def)
  then show ?thesis using ireach_steps s(1) by blast
qed

end
