(* ===== verification/Agent_Buffer.thy ===== *)
theory Agent_Buffer
  imports Ingestion_Server
begin

text \<open>
  The agent's outbound buffer (\<^verbatim>\<open>agent/transport/buffer.go\<close>) and the events published to
  it (\<^verbatim>\<open>agent/inventory/event.go\<close>).  The methods hold the buffer's lock, so each is one
  atomic function; a blocking method is one turn of its loop, and the interleavings of
  publishers and the sender are the step relation \<^verbatim>\<open>bstep\<close>.  \<^verbatim>\<open>proto.Marshal\<close> is the
  parameter \<^verbatim>\<open>cd_marshal\<close> of the codec, \<^verbatim>\<open>proto.Clone\<close> the identity on values.
\<close>

section \<open>Events\<close>

record event =
  ev_Key :: string
  ev_Observation :: "observation option"

definition event_Validate :: "event \<Rightarrow> error option" where
  "event_Validate e =
     (if ev_Key e = [] then Some ''inventory event key is required''
      else if ev_Observation e = None \<or> getP ob_payload (ev_Observation e) = None
      then Some ''inventory event payload is required''
      else None)"

definition Fingerprint :: "codec \<Rightarrow> observation option \<Rightarrow> string result" where
  "Fingerprint cd ob = (case ob of
       None \<Rightarrow> Inl ''observation payload is required''
     | Some o' \<Rightarrow>
         if ob_payload o' = None then Inl ''observation payload is required''
         else case cd_marshal cd (Some (o'\<lparr> ob_sequence := 0, ob_event_id := [], ob_observed_at := None,
                ob_collected_at := None, ob_source_resource_version := [] \<rparr>)) of
             None \<Rightarrow> Inl ''marshal observation''
           | Some data \<Rightarrow> Inr (hex_EncodeToString (sha256 data)))"

section \<open>The buffer\<close>

definition ErrClosed :: error where
  "ErrClosed = ''inventory buffer is closed''"

record buffer =
  bf_entries :: "observation list"
  bf_next :: u64
  bf_persisted :: u64
  bf_capacity :: int
  bf_notify :: bool
  bf_closed :: bool

definition NewBuffer :: "int \<Rightarrow> buffer" where
  "NewBuffer capacity =
     \<lparr> bf_entries = [], bf_next = 1, bf_persisted = 0, bf_capacity = capacity, bf_notify = False, bf_closed = False \<rparr>"

definition signal :: "buffer \<Rightarrow> buffer" where
  "signal b = b\<lparr> bf_notify := True \<rparr>"

text \<open>\<^verbatim>\<open>clock\<close> is the rendering of \<^verbatim>\<open>time.Now().UTC()\<close>, used only when marshalling fails.\<close>

definition eventID :: "codec \<Rightarrow> string \<Rightarrow> string \<Rightarrow> observation \<Rightarrow> string" where
  "eventID cd clock key ob =
     (let data = (case cd_marshal cd (Some (ob\<lparr> ob_sequence := 0, ob_event_id := [] \<rparr>)) of
            Some d \<Rightarrow> d
          | None \<Rightarrow> key @ '':'' @ dec (ob_sequence ob) @ '':'' @ clock)
      in hex_EncodeToString (sha256 (key @ [CHR 0x00] @ data)))"

text \<open>One turn of the loop of \<^verbatim>\<open>Publish\<close>: it returns, or the caller waits for the notification or
  its context.\<close>

datatype publish_turn = Returns "error option" | Waits

definition Publish :: "codec \<Rightarrow> string \<Rightarrow> buffer \<Rightarrow> event \<Rightarrow> buffer \<times> publish_turn" where
  "Publish cd clock b e = (case event_Validate e of
       Some err \<Rightarrow> (b, Returns (Some err))
     | None \<Rightarrow>
         if bf_closed b then (b, Returns (Some ErrClosed))
         else if int (length (bf_entries b)) < bf_capacity b
         then (let o1 = (the (ev_Observation e))\<lparr> ob_sequence := bf_next b \<rparr>;
                   o2 = o1\<lparr> ob_event_id := eventID cd clock (ev_Key e) o1 \<rparr>
               in (signal (b\<lparr> bf_next := bf_next b + 1, bf_entries := bf_entries b @ [o2] \<rparr>), Returns None))
         else (b, Waits))"

text \<open>How many entries a batch takes: the loop that shortens the count until the range is contiguous.\<close>

fun batch_count :: "observation list \<Rightarrow> nat \<Rightarrow> nat" where
  "batch_count es n =
     (if n > 1 \<and> ob_sequence (es ! (n - 1)) \<noteq> ob_sequence (es ! 0) + of_nat (n - 1)
      then batch_count es (n - 1) else n)"

declare batch_count.simps [simp del]

text \<open>One turn of \<^verbatim>\<open>Batch\<close>; a negative count makes the allocation of the slice panic.\<close>

datatype batch_turn = Batched "observation list" | BatchClosed | BatchWaits | BatchPanics

definition Batch :: "buffer \<Rightarrow> int \<Rightarrow> batch_turn" where
  "Batch b maximum =
     (if bf_entries b \<noteq> [] then
        let n = (if maximum > int (length (bf_entries b)) then int (length (bf_entries b)) else maximum) in
        if n < 0 then BatchPanics
        else Batched (take (batch_count (bf_entries b) (nat n)) (bf_entries b))
      else if bf_closed b then BatchClosed
      else BatchWaits)"

definition Acknowledge :: "buffer \<Rightarrow> u64 \<Rightarrow> u64 list \<Rightarrow> buffer" where
  "Acknowledge b persistedThrough terminal =
     signal (b\<lparr> bf_entries := filter (\<lambda>o'. \<not> (ob_sequence o' \<le> persistedThrough \<or> ob_sequence o' \<in> set terminal)) (bf_entries b),
        bf_persisted := (if persistedThrough > bf_persisted b then persistedThrough else bf_persisted b) \<rparr>)"

definition HighestSequence :: "buffer \<Rightarrow> u64" where
  "HighestSequence b = bf_next b - 1"

definition PersistedThrough :: "buffer \<Rightarrow> u64" where
  "PersistedThrough b = bf_persisted b"

definition buffer_Len :: "buffer \<Rightarrow> nat" where
  "buffer_Len b = length (bf_entries b)"

definition buffer_Close :: "buffer \<Rightarrow> buffer" where
  "buffer_Close b = signal (b\<lparr> bf_closed := True \<rparr>)"

section \<open>Invariant\<close>

text \<open>Entries carry increasing, positive sequence numbers below the next one, an event identifier and a payload.\<close>

definition entry_ok :: "observation \<Rightarrow> bool" where
  "entry_ok o' = (ob_sequence o' \<noteq> 0 \<and> ob_event_id o' \<noteq> [] \<and> ob_payload o' \<noteq> None)"

definition buffer_inv :: "buffer \<Rightarrow> bool" where
  "buffer_inv b = (sorted_wrt (<) (map ob_sequence (bf_entries b))
     \<and> (\<forall>o' \<in> set (bf_entries b). entry_ok o' \<and> ob_sequence o' < bf_next b)
     \<and> 0 < bf_next b \<and> int (length (bf_entries b)) \<le> max 0 (bf_capacity b))"

lemma eventID_nonempty [simp]: "eventID cd clock key ob \<noteq> []"
proof -
  have "length (hex_EncodeToString (sha256 x)) = 64" for x
    by (simp add: hex_EncodeToString_def sha256_length length_concat comp_def sum_list_triv)
  then show ?thesis by (metis eventID_def length_0_conv zero_neq_numeral)
qed

lemma buffer_inv_New: "buffer_inv (NewBuffer n)"
  by (simp add: buffer_inv_def NewBuffer_def)

lemma signal_simps [simp]:
  "bf_entries (signal b) = bf_entries b" "bf_next (signal b) = bf_next b" "bf_persisted (signal b) = bf_persisted b"
  "bf_capacity (signal b) = bf_capacity b" "bf_closed (signal b) = bf_closed b" "bf_notify (signal b)"
  by (simp_all add: signal_def)

lemma buffer_inv_cong:
  "bf_entries b' = bf_entries b \<Longrightarrow> bf_next b' = bf_next b \<Longrightarrow> bf_capacity b' = bf_capacity b \<Longrightarrow> buffer_inv b' = buffer_inv b"
  by (simp add: buffer_inv_def)

lemma word_less_Suc:
  assumes "(n :: u64) + 1 \<noteq> 0"
  shows "n < n + 1"
proof -
  have "n \<noteq> -1" using assms by auto
  then have "n < -1" by (simp add: word_order.not_eq_extremum)
  from unat_Suc_less [OF this] show ?thesis by (simp add: word_less_nat_alt)
qed

text \<open>The cases of \<^const>\<open>Publish\<close>.\<close>

definition numbered :: "codec \<Rightarrow> string \<Rightarrow> u64 \<Rightarrow> string \<Rightarrow> observation \<Rightarrow> observation" where
  "numbered cd clock n key o' = o'\<lparr> ob_sequence := n, ob_event_id := eventID cd clock key (o'\<lparr> ob_sequence := n \<rparr>) \<rparr>"

lemma numbered_simps [simp]:
  "ob_sequence (numbered cd clock n key o') = n" "ob_event_id (numbered cd clock n key o') \<noteq> []"
  "ob_payload (numbered cd clock n key o') = ob_payload o'"
  by (simp_all add: numbered_def)

lemma Publish_invalid: "event_Validate e = Some err \<Longrightarrow> Publish cd clock b e = (b, Returns (Some err))"
  by (simp add: Publish_def)

lemma Publish_closed: "event_Validate e = None \<Longrightarrow> bf_closed b \<Longrightarrow> Publish cd clock b e = (b, Returns (Some ErrClosed))"
  by (simp add: Publish_def)

lemma Publish_full:
  "event_Validate e = None \<Longrightarrow> \<not> bf_closed b \<Longrightarrow> \<not> int (length (bf_entries b)) < bf_capacity b \<Longrightarrow> Publish cd clock b e = (b, Waits)"
  by (simp add: Publish_def)

lemma Publish_added:
  assumes "event_Validate e = None" "\<not> bf_closed b" "int (length (bf_entries b)) < bf_capacity b" "ev_Observation e = Some o'"
  shows "Publish cd clock b e =
    (signal (b\<lparr> bf_next := bf_next b + 1, bf_entries := bf_entries b @ [numbered cd clock (bf_next b) (ev_Key e) o'] \<rparr>), Returns None)"
  using assms by (simp add: Publish_def numbered_def Let_def)

lemma event_ValidateE:
  assumes "event_Validate e = None"
  obtains o' where "ev_Observation e = Some o'" "ob_payload o' \<noteq> None"
  using assms by (cases "ev_Observation e") (auto simp: event_Validate_def split: if_splits)

lemma Publish_cases:
  assumes "Publish cd clock b e = (b', r)"
  obtains (unchanged) "b' = b" "r \<noteq> Returns None"
  | (added) o' where "ev_Observation e = Some o'" "ob_payload o' \<noteq> None" "r = Returns None"
      "int (length (bf_entries b)) < bf_capacity b" "\<not> bf_closed b" "event_Validate e = None"
      "b' = signal (b\<lparr> bf_next := bf_next b + 1, bf_entries := bf_entries b @ [numbered cd clock (bf_next b) (ev_Key e) o'] \<rparr>)"
proof (cases "event_Validate e = None \<and> \<not> bf_closed b \<and> int (length (bf_entries b)) < bf_capacity b")
  case True
  then obtain o' where o': "ev_Observation e = Some o'" "ob_payload o' \<noteq> None" by (blast elim: event_ValidateE)
  from True Publish_added [OF _ _ _ o'(1)] assms have
    "b' = signal (b\<lparr> bf_next := bf_next b + 1, bf_entries := bf_entries b @ [numbered cd clock (bf_next b) (ev_Key e) o'] \<rparr>)"
    "r = Returns None" by auto
  with True o' show thesis by (intro added [of o']) blast+
next
  case False
  then have "b' = b \<and> r \<noteq> Returns None"
    using assms Publish_invalid [of e _ cd clock b] Publish_closed [of e b cd clock] Publish_full [of e b cd clock]
    by (cases "event_Validate e") auto
  then show thesis using unchanged by blast
qed

lemma buffer_inv_Publish:
  assumes "buffer_inv b" "bf_next b + 1 \<noteq> 0" "Publish cd clock b e = (b', r)"
  shows "buffer_inv b'"
  using assms(3)
proof (cases rule: Publish_cases)
  case (added o')
  have lt: "bf_next b < bf_next b + 1" by (rule word_less_Suc [OF assms(2)])
  have "\<forall>x \<in> set (bf_entries b). ob_sequence x < bf_next b" using assms(1) by (simp add: buffer_inv_def)
  with lt have "\<forall>x \<in> set (bf_entries b). ob_sequence x < bf_next b + 1" by (meson order_less_trans)
  with added lt assms(1,2) show ?thesis
    by (auto simp: buffer_inv_def entry_ok_def sorted_wrt_append word_neq_0_conv)
qed (use assms(1) in simp_all)

lemma buffer_inv_Acknowledge: "buffer_inv b \<Longrightarrow> buffer_inv (Acknowledge b p ts)"
  by (auto simp: buffer_inv_def Acknowledge_def sorted_wrt_map intro: sorted_wrt_filter
      intro!: order_trans [OF of_nat_mono [OF length_filter_le]])

lemma buffer_inv_Close: "buffer_inv b \<Longrightarrow> buffer_inv (buffer_Close b)"
  by (simp add: buffer_Close_def buffer_inv_def)

section \<open>Batches\<close>

lemma increasing_gap:
  "sorted_wrt (<) (xs :: nat list) \<Longrightarrow> i \<le> j \<Longrightarrow> j < length xs \<Longrightarrow> xs ! i + (j - i) \<le> xs ! j"
proof (induction j)
  case (Suc j)
  show ?case
  proof (cases "i = Suc j")
    case False
    with Suc have "xs ! i + (j - i) \<le> xs ! j" by simp
    moreover have "xs ! j < xs ! Suc j" using Suc.prems by (simp add: sorted_wrt_nth_less)
    ultimately show ?thesis using False Suc.prems(2) by simp
  qed simp
qed simp

lemma increasing_contiguous:
  assumes "sorted_wrt (<) (xs :: nat list)" "0 < k" "k \<le> length xs" "xs ! (k - 1) = xs ! 0 + (k - 1)"
  shows "take k xs = [xs ! 0 ..< xs ! 0 + k]"
proof (rule nth_equalityI)
  fix i assume "i < length (take k xs)"
  then have i: "i < k" by simp
  have "xs ! 0 + i \<le> xs ! i" using increasing_gap [OF assms(1), of 0 i] i assms(3) by simp
  moreover have "xs ! i + (k - 1 - i) \<le> xs ! (k - 1)" using increasing_gap [OF assms(1), of i "k - 1"] i assms(3) by simp
  ultimately have "xs ! i = xs ! 0 + i" using assms(4) i by simp
  then show "take k xs ! i = [xs ! 0 ..< xs ! 0 + k] ! i" using i by simp
qed (use assms(3) in simp)

abbreviation entry_seqs :: "observation list \<Rightarrow> nat list" where
  "entry_seqs es \<equiv> map (\<lambda>o'. unat (ob_sequence o')) es"

lemma entry_seqs_sorted: "sorted_wrt (<) (map ob_sequence es) \<Longrightarrow> sorted_wrt (<) (entry_seqs es)"
  by (simp add: sorted_wrt_map word_less_nat_alt)

lemma sequence_check:
  assumes "sorted_wrt (<) (entry_seqs es)" "k < length es"
  shows "ob_sequence (es ! k) = ob_sequence (es ! 0) + of_nat k \<longleftrightarrow> entry_seqs es ! k = entry_seqs es ! 0 + k"
proof -
  have nz: "0 < length es" using assms(2) by linarith
  have le: "unat (ob_sequence (es ! 0)) + k \<le> unat (ob_sequence (es ! k))"
    using increasing_gap [OF assms(1), of 0 k] assms(2) nth_map [OF nz, of "\<lambda>o'. unat (ob_sequence o')"] by simp
  then have "unat (ob_sequence (es ! 0)) + k < 2 ^ 64"
    using unsigned_less [of "ob_sequence (es ! k)", where ?'a = nat] by simp
  then have "unat (ob_sequence (es ! 0) + of_nat k) = unat (ob_sequence (es ! 0)) + k" by (rule unat_add_of_nat)
  then show ?thesis using assms(2) nz by (metis nth_map word_unat_eq_iff)
qed

lemma batch_count_spec:
  assumes "sorted_wrt (<) (entry_seqs es)" "0 < n" "n \<le> length es"
  shows "0 < batch_count es n \<and> batch_count es n \<le> n
    \<and> entry_seqs (take (batch_count es n) es) = [entry_seqs es ! 0 ..< entry_seqs es ! 0 + batch_count es n]
    \<and> (batch_count es n < n \<longrightarrow> entry_seqs es ! 0 + batch_count es n < entry_seqs es ! batch_count es n)"
  using assms(2,3)
proof (induction n rule: less_induct)
  case (less n)
  show ?case
  proof (cases "n > 1 \<and> ob_sequence (es ! (n - 1)) \<noteq> ob_sequence (es ! 0) + of_nat (n - 1)")
    case True
    then have eq: "batch_count es n = batch_count es (n - 1)" by (subst batch_count.simps) (rule if_P [OF True])
    have lt: "n - 1 < length es" using less.prems by simp
    have "entry_seqs es ! (n - 1) \<noteq> entry_seqs es ! 0 + (n - 1)"
      using True sequence_check [OF assms(1) lt] by blast
    moreover have "entry_seqs es ! 0 + (n - 1) \<le> entry_seqs es ! (n - 1)"
      using increasing_gap [OF assms(1), of 0 "n - 1"] lt by simp
    ultimately have top: "entry_seqs es ! 0 + (n - 1) < entry_seqs es ! (n - 1)" by simp
    have pre: "n - 1 < n" "0 < n - 1" "n - 1 \<le> length es" using True less.prems by simp_all
    note ih = less.IH [OF pre]
    have "batch_count es (n - 1) < n \<longrightarrow> entry_seqs es ! 0 + batch_count es (n - 1) < entry_seqs es ! batch_count es (n - 1)"
      using ih top by (cases "batch_count es (n - 1) = n - 1") force+
    moreover have "batch_count es (n - 1) \<le> n" using ih pre(1) by linarith
    ultimately show ?thesis using ih unfolding eq by blast
  next
    case False
    then have eq: "batch_count es n = n" by (subst batch_count.simps) (rule if_not_P [OF False])
    have lt: "n - 1 < length es" using less.prems by simp
    have "n = 1 \<or> ob_sequence (es ! (n - 1)) = ob_sequence (es ! 0) + of_nat (n - 1)" using False less.prems by auto
    then have "entry_seqs es ! (n - 1) = entry_seqs es ! 0 + (n - 1)"
      using sequence_check [OF assms(1) lt] by auto
    from increasing_contiguous [OF assms(1) less.prems(1) _ this] less.prems show ?thesis
      by (simp add: eq take_map)
  qed
qed

lemma Batch_spec:
  assumes "buffer_inv b" "bf_entries b \<noteq> []" "1 \<le> m"
  obtains k where "Batch b m = Batched (take k (bf_entries b))" "0 < k" "k \<le> length (bf_entries b)" "int k \<le> m"
    "entry_seqs (take k (bf_entries b)) = [entry_seqs (bf_entries b) ! 0 ..< entry_seqs (bf_entries b) ! 0 + k]"
    "int k = m \<or> k = length (bf_entries b) \<or> entry_seqs (bf_entries b) ! 0 + k < entry_seqs (bf_entries b) ! k"
proof -
  let ?es = "bf_entries b"
  define n where "n = nat (if m > int (length ?es) then int (length ?es) else m)"
  have n: "0 < n" "n \<le> length ?es" "int n \<le> m" "int n = m \<or> n = length ?es" using assms(2,3) by (auto simp: n_def)
  have "sorted_wrt (<) (entry_seqs ?es)" using assms(1) by (intro entry_seqs_sorted) (simp add: buffer_inv_def)
  note k = batch_count_spec [OF this n(1,2)]
  have "Batch b m = Batched (take (batch_count ?es n) ?es)" using assms(2,3) by (simp add: Batch_def n_def)
  then show thesis using k n by (intro that [of "batch_count ?es n"]) linarith+
qed

section \<open>Interleavings\<close>

text \<open>A publisher is outside \<^verbatim>\<open>Publish\<close>, about to look at the buffer, or blocked in its select; so is the
  sender in \<^verbatim>\<open>Batch\<close>.  Both block on the one channel \<^verbatim>\<open>notify\<close>.  The fields \<^verbatim>\<open>bs_log\<close> and
  \<^verbatim>\<open>bs_terminal\<close> record what was published and which sequence numbers were terminally rejected; no step reads them.  The
  sequence counter is assumed not to wrap around.\<close>

datatype publisher = PIdle | PLooking event | PParked event

datatype sender = SIdle | SLooking | SParked

record bsys =
  bs_buffer :: buffer
  bs_publishers :: "publisher list"
  bs_sender :: sender
  bs_log :: "observation list"
  bs_terminal :: "u64 set"

datatype actor = APublisher | ASender | AAcknowledge | AClose

inductive bstep :: "codec \<Rightarrow> int \<Rightarrow> actor \<Rightarrow> bsys \<Rightarrow> bsys \<Rightarrow> bool" for cd maximum where
  publish_call:
    "i < length (bs_publishers s) \<Longrightarrow> bs_publishers s ! i = PIdle \<Longrightarrow>
     bstep cd maximum APublisher s (s\<lparr> bs_publishers := (bs_publishers s)[i := PLooking e] \<rparr>)"
| publish_return:
    "i < length (bs_publishers s) \<Longrightarrow> bs_publishers s ! i = PLooking e \<Longrightarrow>
     Publish cd clock (bs_buffer s) e = (b', Returns r) \<Longrightarrow> bf_next (bs_buffer s) + 1 \<noteq> 0 \<Longrightarrow>
     bstep cd maximum APublisher s (s\<lparr> bs_buffer := b', bs_publishers := (bs_publishers s)[i := PIdle],
       bs_log := bs_log s @ drop (length (bf_entries (bs_buffer s))) (bf_entries b') \<rparr>)"
| publish_wait:
    "i < length (bs_publishers s) \<Longrightarrow> bs_publishers s ! i = PLooking e \<Longrightarrow>
     Publish cd clock (bs_buffer s) e = (b', Waits) \<Longrightarrow>
     bstep cd maximum APublisher s (s\<lparr> bs_publishers := (bs_publishers s)[i := PParked e] \<rparr>)"
| publish_wake:
    "i < length (bs_publishers s) \<Longrightarrow> bs_publishers s ! i = PParked e \<Longrightarrow> bf_notify (bs_buffer s) \<Longrightarrow>
     bstep cd maximum APublisher s (s\<lparr> bs_buffer := (bs_buffer s)\<lparr> bf_notify := False \<rparr>,
       bs_publishers := (bs_publishers s)[i := PLooking e] \<rparr>)"
| publish_cancel:
    "i < length (bs_publishers s) \<Longrightarrow> bs_publishers s ! i = PParked e \<Longrightarrow>
     bstep cd maximum APublisher s (s\<lparr> bs_publishers := (bs_publishers s)[i := PIdle] \<rparr>)"
| batch_call:
    "bs_sender s = SIdle \<Longrightarrow> bstep cd maximum ASender s (s\<lparr> bs_sender := SLooking \<rparr>)"
| batch_return:
    "bs_sender s = SLooking \<Longrightarrow> Batch (bs_buffer s) maximum \<noteq> BatchWaits \<Longrightarrow>
     bstep cd maximum ASender s (s\<lparr> bs_sender := SIdle \<rparr>)"
| batch_wait:
    "bs_sender s = SLooking \<Longrightarrow> Batch (bs_buffer s) maximum = BatchWaits \<Longrightarrow>
     bstep cd maximum ASender s (s\<lparr> bs_sender := SParked \<rparr>)"
| batch_wake:
    "bs_sender s = SParked \<Longrightarrow> bf_notify (bs_buffer s) \<Longrightarrow>
     bstep cd maximum ASender s (s\<lparr> bs_buffer := (bs_buffer s)\<lparr> bf_notify := False \<rparr>, bs_sender := SLooking \<rparr>)"
| batch_timeout:
    "bs_sender s = SParked \<Longrightarrow> bstep cd maximum ASender s (s\<lparr> bs_sender := SIdle \<rparr>)"
| acknowledge:
    "bs_sender s = SIdle \<Longrightarrow>
     bstep cd maximum AAcknowledge s (s\<lparr> bs_buffer := Acknowledge (bs_buffer s) p ts, bs_terminal := bs_terminal s \<union> set ts \<rparr>)"
| close:
    "bstep cd maximum AClose s (s\<lparr> bs_buffer := buffer_Close (bs_buffer s) \<rparr>)"

inductive_cases bstep_senderE: "bstep cd maximum ASender s s'"

definition bsys_init :: "int \<Rightarrow> nat \<Rightarrow> bsys" where
  "bsys_init capacity n = \<lparr> bs_buffer = NewBuffer capacity, bs_publishers = replicate n PIdle, bs_sender = SIdle,
     bs_log = [], bs_terminal = {} \<rparr>"

inductive breach :: "codec \<Rightarrow> int \<Rightarrow> int \<Rightarrow> nat \<Rightarrow> bsys \<Rightarrow> bool" for cd maximum capacity n where
  init: "breach cd maximum capacity n (bsys_init capacity n)"
| step: "breach cd maximum capacity n s \<Longrightarrow> bstep cd maximum a s s' \<Longrightarrow> breach cd maximum capacity n s'"

text \<open>What was published and is gone was acknowledged or terminally rejected.\<close>

definition log_inv :: "bsys \<Rightarrow> bool" where
  "log_inv s = (entry_seqs (bs_log s) = [1 ..< unat (bf_next (bs_buffer s))]
     \<and> set (bf_entries (bs_buffer s)) \<subseteq> set (bs_log s)
     \<and> (\<forall>o' \<in> set (bs_log s). o' \<in> set (bf_entries (bs_buffer s))
          \<or> ob_sequence o' \<le> bf_persisted (bs_buffer s) \<or> ob_sequence o' \<in> bs_terminal s))"

lemma log_inv_cong:
  "bf_entries (bs_buffer s') = bf_entries (bs_buffer s) \<Longrightarrow> bf_next (bs_buffer s') = bf_next (bs_buffer s) \<Longrightarrow>
   bf_persisted (bs_buffer s') = bf_persisted (bs_buffer s) \<Longrightarrow> bs_log s' = bs_log s \<Longrightarrow> bs_terminal s' = bs_terminal s \<Longrightarrow>
   log_inv s' = log_inv s"
  by (simp add: log_inv_def)

lemma unat_Suc_no_wrap: "(n :: u64) + 1 \<noteq> 0 \<Longrightarrow> unat (n + 1) = unat n + 1"
  by (rule unat_Suc_less [OF word_less_Suc])

lemma log_inv_publish:
  assumes "log_inv s" "buffer_inv (bs_buffer s)" "bf_next (bs_buffer s) + 1 \<noteq> 0" "Publish cd clock (bs_buffer s) e = (b', Returns r)"
  shows "log_inv (s\<lparr> bs_buffer := b', bs_publishers := ps,
       bs_log := bs_log s @ drop (length (bf_entries (bs_buffer s))) (bf_entries b') \<rparr>)"
  using assms(4)
proof (cases rule: Publish_cases)
  case unchanged
  with assms(1) show ?thesis by (simp add: log_inv_def)
next
  case (added o')
  have "0 < unat (bf_next (bs_buffer s))" using assms(2) by (auto simp: buffer_inv_def word_less_nat_alt)
  with added assms(1) show ?thesis
    by (auto simp: log_inv_def unat_Suc_no_wrap [OF assms(3)])
qed

lemma log_inv_acknowledge:
  assumes "log_inv s"
  shows "log_inv (s\<lparr> bs_buffer := Acknowledge (bs_buffer s) p ts, bs_terminal := bs_terminal s \<union> set ts \<rparr>)"
  using assms by (fastforce simp: log_inv_def Acknowledge_def)

lemma bstep_inv:
  assumes "bstep cd m a s s'" "buffer_inv (bs_buffer s) \<and> log_inv s"
  shows "buffer_inv (bs_buffer s') \<and> log_inv s'"
  using assms(1)
proof cases
  case (publish_return i e clock b' r)
  then show ?thesis
    using assms(2) buffer_inv_Publish [OF _ publish_return(6,5)] log_inv_publish [OF _ _ publish_return(6,5)] by simp
next
  case (acknowledge p ts)
  then show ?thesis using assms(2) buffer_inv_Acknowledge log_inv_acknowledge by simp
next
  case close
  then show ?thesis using assms(2) buffer_inv_Close log_inv_cong [of s' s] by (simp add: buffer_Close_def)
qed (use assms(2) in \<open>auto simp: buffer_inv_def log_inv_def\<close>)

lemma breach_inv: "breach cd m c n s \<Longrightarrow> buffer_inv (bs_buffer s) \<and> log_inv s"
proof (induction rule: breach.induct)
  case init
  have "log_inv (bsys_init c n)" by (simp add: bsys_init_def log_inv_def NewBuffer_def)
  then show ?case using buffer_inv_New by (simp add: bsys_init_def)
qed (rule bstep_inv)

section \<open>Properties\<close>

text \<open>C9: A batch is the longest contiguous run at the head of the buffer.  In every interleaving of publishers, sender,
  acknowledgements and close, a call of \<^verbatim>\<open>Batch\<close> with a positive maximum on a non-empty buffer returns a
  non-empty prefix of the entries with consecutive sequence numbers, and stops only at the maximum, at the
  end of the buffer, or at a gap.\<close>

theorem batch_longest_run:
  assumes "breach cd m c n s" "bf_entries (bs_buffer s) \<noteq> []" "1 \<le> maximum"
  shows "\<exists>k. Batch (bs_buffer s) maximum = Batched (take k (bf_entries (bs_buffer s)))
    \<and> 0 < k \<and> k \<le> length (bf_entries (bs_buffer s)) \<and> int k \<le> maximum
    \<and> entry_seqs (take k (bf_entries (bs_buffer s)))
        = [unat (ob_sequence (hd (bf_entries (bs_buffer s)))) ..< unat (ob_sequence (hd (bf_entries (bs_buffer s)))) + k]
    \<and> (int k = maximum \<or> k = length (bf_entries (bs_buffer s))
       \<or> unat (ob_sequence (hd (bf_entries (bs_buffer s)))) + k < unat (ob_sequence (bf_entries (bs_buffer s) ! k)))"
proof -
  have inv: "buffer_inv (bs_buffer s)" using breach_inv [OF assms(1)] by blast
  from inv assms(2,3) obtain k where k: "Batch (bs_buffer s) maximum = Batched (take k (bf_entries (bs_buffer s)))"
    "0 < k" "k \<le> length (bf_entries (bs_buffer s))" "int k \<le> maximum"
    "entry_seqs (take k (bf_entries (bs_buffer s))) =
       [entry_seqs (bf_entries (bs_buffer s)) ! 0 ..< entry_seqs (bf_entries (bs_buffer s)) ! 0 + k]"
    "int k = maximum \<or> k = length (bf_entries (bs_buffer s))
       \<or> entry_seqs (bf_entries (bs_buffer s)) ! 0 + k < entry_seqs (bf_entries (bs_buffer s)) ! k"
    by (rule Batch_spec)
  have "entry_seqs (bf_entries (bs_buffer s)) ! 0 = unat (ob_sequence (hd (bf_entries (bs_buffer s))))"
    using assms(2) by (cases "bf_entries (bs_buffer s)") simp_all
  moreover have "k \<noteq> length (bf_entries (bs_buffer s)) \<Longrightarrow>
      entry_seqs (bf_entries (bs_buffer s)) ! k = unat (ob_sequence (bf_entries (bs_buffer s) ! k))"
    using k(3) by simp
  ultimately show ?thesis using k by (intro exI [of _ k]) metis
qed

definition sample_event :: "string \<Rightarrow> event" where
  "sample_event key = \<lparr> ev_Key = key, ev_Observation = sample_observation 0 \<rparr>"

lemma sample_event_valid: "key \<noteq> [] \<Longrightarrow> event_Validate (sample_event key) = None"
  by (simp add: sample_event_def event_Validate_def sample_observation_def)

text \<open>A single publisher fills a buffer of capacity 1 and blocks on its second event.\<close>

definition filled :: "codec \<Rightarrow> bsys" where
  "filled cd = \<lparr> bs_buffer = \<lparr> bf_entries = [numbered cd [] 1 ''a'' (the (sample_observation 0))], bf_next = 2,
       bf_persisted = 0, bf_capacity = 1, bf_notify = False, bf_closed = False \<rparr>,
     bs_publishers = [PParked (sample_event ''b'')], bs_sender = SIdle,
     bs_log = [numbered cd [] 1 ''a'' (the (sample_observation 0))], bs_terminal = {} \<rparr>"

lemma step_into: "breach cd m c n s \<Longrightarrow> bstep cd m a s s1 \<Longrightarrow> s1 = s2 \<Longrightarrow> breach cd m c n s2"
  by (auto intro: breach.step)

lemma filled_reachable: "breach cd m 1 1 (filled cd)"
proof -
  let ?a = "sample_event ''a''" and ?b = "sample_event ''b''"
  let ?o = "numbered cd [] 1 ''a'' (the (sample_observation 0))"
  let ?s0 = "bsys_init 1 1"
  let ?b1 = "\<lparr> bf_entries = [?o], bf_next = 2, bf_persisted = 0, bf_capacity = 1, bf_notify = True, bf_closed = False \<rparr>"
  let ?st = "\<lambda>b p. \<lparr> bs_buffer = b, bs_publishers = [p], bs_sender = SIdle, bs_log = [?o], bs_terminal = {} \<rparr>"
  have p1: "Publish cd [] (NewBuffer 1) ?a = (?b1, Returns None)"
    by (subst Publish_added [OF sample_event_valid])
      (auto simp: NewBuffer_def sample_event_def sample_observation_def signal_def)
  have p2: "Publish cd [] ?b1 ?b = (?b1, Waits)" "Publish cd [] (?b1\<lparr> bf_notify := False \<rparr>) ?b = (?b1\<lparr> bf_notify := False \<rparr>, Waits)"
    by (rule Publish_full [OF sample_event_valid]; simp)+
  have 1: "breach cd m 1 1 (?s0\<lparr> bs_publishers := [PLooking ?a] \<rparr>)"
    by (rule step_into [OF breach.init bstep.publish_call [of 0 _ cd m ?a]]) (simp_all add: bsys_init_def)
  have 2: "breach cd m 1 1 (?st ?b1 PIdle)"
    by (rule step_into [OF 1 bstep.publish_return [of 0 _ ?a cd "[]" ?b1 None m]])
      (use p1 in \<open>simp_all add: bsys_init_def NewBuffer_def\<close>)
  have 3: "breach cd m 1 1 (?st ?b1 (PLooking ?b))"
    by (rule step_into [OF 2 bstep.publish_call [of 0 _ cd m ?b]]) simp_all
  have 4: "breach cd m 1 1 (?st ?b1 (PParked ?b))"
    by (rule step_into [OF 3 bstep.publish_wait [of 0 _ ?b cd "[]" ?b1 m]]) (use p2 in simp_all)
  have 5: "breach cd m 1 1 (?st (?b1\<lparr> bf_notify := False \<rparr>) (PLooking ?b))"
    by (rule step_into [OF 4 bstep.publish_wake [of 0 _ ?b cd m]]) simp_all
  have "breach cd m 1 1 (?st (?b1\<lparr> bf_notify := False \<rparr>) (PParked ?b))"
    by (rule step_into [OF 5 bstep.publish_wait [of 0 _ ?b cd "[]" "?b1\<lparr> bf_notify := False \<rparr>" m]]) (use p2 in simp_all)
  then show ?thesis by (simp add: filled_def)
qed

theorem batch_longest_run_witness:
  "\<exists>k. Batch (bs_buffer (filled sample_codec)) 10 = Batched (take k (bf_entries (bs_buffer (filled sample_codec)))) \<and> k = 1"
  using batch_longest_run [OF filled_reachable [of sample_codec 10], of 10] by (auto simp: filled_def)

text \<open>C8: The buffer forgets only what it may.  In every interleaving the published observations are numbered 1, 2, 3, ... in the
  order of publication, and each is still in the buffer unless its sequence number was acknowledged as persisted or
  terminally rejected; the buffer holds nothing else and never more than its capacity.\<close>

theorem buffer_retains_unacknowledged:
  assumes "breach cd m c n s"
  shows "entry_seqs (bs_log s) = [1 ..< unat (bf_next (bs_buffer s))]
     \<and> set (bf_entries (bs_buffer s)) \<subseteq> set (bs_log s)
     \<and> (\<forall>o' \<in> set (bs_log s). ob_sequence o' > bf_persisted (bs_buffer s) \<and> ob_sequence o' \<notin> bs_terminal s
          \<longrightarrow> o' \<in> set (bf_entries (bs_buffer s)))
     \<and> int (length (bf_entries (bs_buffer s))) \<le> max 0 (bf_capacity (bs_buffer s))"
  using breach_inv [OF assms] by (auto simp: log_inv_def buffer_inv_def)

theorem buffer_retains_unacknowledged_witness:
  "entry_seqs (bs_log (filled sample_codec)) = [1]"
  using buffer_retains_unacknowledged [OF filled_reachable [of sample_codec 10]] by (simp add: filled_def)

text \<open>A publisher waits although the buffer is empty and open, and no token is left to wake it.\<close>

definition stranded :: "bsys \<Rightarrow> bool" where
  "stranded s = (\<exists>e. bs_publishers s = [PParked e] \<and> bf_entries (bs_buffer s) = [] \<and> \<not> bf_closed (bs_buffer s)
     \<and> 0 < bf_capacity (bs_buffer s) \<and> \<not> bf_notify (bs_buffer s))"

lemma stranded_sender: "bstep cd m ASender s s' \<Longrightarrow> stranded s \<Longrightarrow> stranded s'"
  by (elim bstep_senderE) (auto simp: stranded_def)

lemma stranded_reachable: "\<exists>s. breach cd m 1 1 s \<and> stranded s"
proof -
  let ?f = "filled cd"
  let ?b = "(bs_buffer ?f)\<lparr> bf_entries := [], bf_persisted := 1, bf_notify := True \<rparr>"
  let ?s1 = "?f\<lparr> bs_buffer := ?b \<rparr>"
  have 1: "breach cd m 1 1 ?s1"
    by (rule step_into [OF filled_reachable bstep.acknowledge [where p = 1 and ts = "[]"]])
      (simp_all add: filled_def Acknowledge_def signal_def)
  have 2: "breach cd m 1 1 (?s1\<lparr> bs_sender := SLooking \<rparr>)"
    by (rule step_into [OF 1 bstep.batch_call]) (simp_all add: filled_def)
  have 3: "breach cd m 1 1 (?s1\<lparr> bs_sender := SParked \<rparr>)"
    by (rule step_into [OF 2 bstep.batch_wait]) (simp_all add: filled_def Batch_def)
  have "breach cd m 1 1 (?s1\<lparr> bs_sender := SLooking, bs_buffer := ?b\<lparr> bf_notify := False \<rparr> \<rparr>)"
    by (rule step_into [OF 3 bstep.batch_wake]) (simp_all add: filled_def)
  moreover have "stranded (?s1\<lparr> bs_sender := SLooking, bs_buffer := ?b\<lparr> bf_notify := False \<rparr> \<rparr>)"
    by (simp add: stranded_def filled_def)
  ultimately show ?thesis by blast
qed

text \<open>C13: Publishers and the sender share one notification channel, and a wake-up can be lost.  With one publisher and a
  buffer of capacity 1 there is a run after which the publisher is blocked although the buffer is
  empty, because the sender took the token of the acknowledgement that freed the space; and whatever the sender then does
  in \<^verbatim>\<open>Batch\<close>, the publisher stays blocked: only a further acknowledgement, another publisher or closing the buffer can
  wake it, and with an empty buffer the sender has nothing to be acknowledged.\<close>

theorem publish_wakeup_lost:
  "\<exists>s. breach cd m 1 1 s \<and> stranded s \<and> (\<forall>s'. (bstep cd m ASender)\<^sup>*\<^sup>* s s' \<longrightarrow> stranded s')"
proof -
  obtain s where s: "breach cd m 1 1 s" "stranded s" using stranded_reachable by blast
  have "stranded s'" if "(bstep cd m ASender)\<^sup>*\<^sup>* s s'" for s'
    using that s(2) by (induction rule: rtranclp_induct) (auto intro: stranded_sender)
  with s show ?thesis by blast
qed

theorem publish_wakeup_lost_witness: "\<exists>s. breach sample_codec 10 1 1 s \<and> stranded s"
  using publish_wakeup_lost [of sample_codec 10] by blast

end
