(* ===== verification/Agent_Client.thy ===== *)
theory Agent_Client
  imports Agent_Buffer
begin

text \<open>
  The agent's stream client (\<^verbatim>\<open>agent/transport/client.go\<close>).  What the environment decides, that is which case
  of a select fires, which frames arrive and which calls fail, is an argument of the
  definitions.  The last section runs the client against the server's batch handler.
\<close>

section \<open>Configuration and connection\<close>

text \<open>The dial options of \<^verbatim>\<open>grpc\<close> are opaque; what the client passes to them is kept.\<close>

record tls_config =
  tc_MinVersion :: nat
  tc_ServerName :: string
  tc_RootCAs :: "bytes option"
  tc_Certificates :: "(string \<times> string) list"

datatype dial_option = CustomOption string | InsecureCredentials | TLSCredentials tls_config

record client_config =
  cc_TenantID :: string
  cc_ClusterID :: string
  cc_AgentInstanceID :: string
  cc_AgentVersion :: string
  cc_KubernetesVersion :: string
  cc_Endpoint :: string
  cc_Insecure :: bool
  cc_CAFile :: string
  cc_CertFile :: string
  cc_KeyFile :: string
  cc_ServerName :: string
  cc_BatchSize :: int
  cc_DialOptions :: "dial_option list"

text \<open>Outcomes of the file and certificate calls of \<^verbatim>\<open>dialOptions\<close>.\<close>

record dial_env =
  de_ReadFile :: "string \<Rightarrow> bytes result"
  de_SystemCertPool :: "error option"
  de_AppendCerts :: "bytes \<Rightarrow> bool"
  de_LoadKeyPair :: "string \<Rightarrow> string \<Rightarrow> error option"

definition dial_roots :: "dial_env \<Rightarrow> client_config \<Rightarrow> bytes option result" where
  "dial_roots env c =
     (if cc_CAFile c = [] then Inr None
      else case de_ReadFile env (cc_CAFile c) of
          Inl e \<Rightarrow> Inl (''read ingestion CA: '' @ e)
        | Inr data \<Rightarrow>
            (case de_SystemCertPool env of
               Some e \<Rightarrow> Inl (''load system certificate pool: '' @ e)
             | None \<Rightarrow> if de_AppendCerts env data then Inr (Some data)
                       else Inl ''ingestion CA file contains no certificates''))"

definition dial_certificates :: "dial_env \<Rightarrow> client_config \<Rightarrow> (string \<times> string) list result" where
  "dial_certificates env c =
     (if cc_CertFile c = [] then Inr []
      else case de_LoadKeyPair env (cc_CertFile c) (cc_KeyFile c) of
          Some e \<Rightarrow> Inl (''load agent client certificate: '' @ e)
        | None \<Rightarrow> Inr [(cc_CertFile c, cc_KeyFile c)])"

definition dialOptions :: "dial_env \<Rightarrow> client_config \<Rightarrow> dial_option list result" where
  "dialOptions env c =
     (if cc_DialOptions c \<noteq> [] then Inr (cc_DialOptions c)
      else if cc_Insecure c then Inr [InsecureCredentials]
      else case dial_roots env c of
          Inl e \<Rightarrow> Inl e
        | Inr roots \<Rightarrow>
            (case dial_certificates env c of
               Inl e \<Rightarrow> Inl e
             | Inr certs \<Rightarrow> Inr [TLSCredentials \<lparr> tc_MinVersion = 0x0303, tc_ServerName = cc_ServerName c,
                   tc_RootCAs = roots, tc_Certificates = certs \<rparr>]))"

definition client_hello :: "client_config \<Rightarrow> buffer \<Rightarrow> agent_hello" where
  "client_hello c b =
     \<lparr> ah_tenant_id = cc_TenantID c, ah_cluster_id = cc_ClusterID c, ah_agent_instance_id = cc_AgentInstanceID c,
       ah_agent_version = cc_AgentVersion c, ah_kubernetes_version = cc_KubernetesVersion c,
       ah_supported_protocol_versions = [Some \<lparr> pv_major = 1, pv_minor = 0 \<rparr>],
       ah_capabilities = [CAPABILITY_CLUSTER_INVENTORY, CAPABILITY_NODE_INVENTORY, CAPABILITY_NAMESPACE_INVENTORY,
         CAPABILITY_DEPLOYMENT_INVENTORY, CAPABILITY_POD_INVENTORY, CAPABILITY_CONTAINER_INVENTORY,
         CAPABILITY_NODE_METRICS, CAPABILITY_CONTAINER_METRICS],
       ah_resume_after_sequence = PersistedThrough b, ah_configuration_revision = [] \<rparr>"

definition heartbeat_frame :: "gotime \<Rightarrow> buffer \<Rightarrow> agent_frame" where
  "heartbeat_frame now b = AgentHeartbeat
     \<lparr> hb_sent_at = now, hb_highest_sequence_created = HighestSequence b,
       hb_highest_sequence_persisted_by_server = PersistedThrough b \<rparr>"

text \<open>The handshake: what opening the stream and the first receive yield.\<close>

datatype stream_opening = DialFails error | OpenFails error | HelloSendFails error | HelloRecvFails error | FirstFrame server_frame

definition client_handshake :: "dial_env \<Rightarrow> stream_opening \<Rightarrow> client_config \<Rightarrow> buffer \<Rightarrow> buffer \<times> error option" where
  "client_handshake env first c b = (case dialOptions env c of
       Inl e \<Rightarrow> (b, Some e)
     | Inr _ \<Rightarrow> (case first of
           DialFails e \<Rightarrow> (b, Some (''create ingestion connection: '' @ e))
         | OpenFails e \<Rightarrow> (b, Some (''open ingestion stream: '' @ e))
         | HelloSendFails e \<Rightarrow> (b, Some (''send agent hello: '' @ e))
         | HelloRecvFails e \<Rightarrow> (b, Some (''receive server hello: '' @ e))
         | FirstFrame (ServerHello h) \<Rightarrow>
             if getN pv_major (sh_selected_protocol_version h) \<noteq> 1
             then (b, Some ''ingestion returned an incompatible handshake'')
             else (Acknowledge b (sh_accepted_through_sequence h) [], None)
         | FirstFrame _ \<Rightarrow> (b, Some ''ingestion returned an incompatible handshake'')))"

section \<open>Frames from the server\<close>

definition StreamErrorCode_String :: "int \<Rightarrow> string" where
  "StreamErrorCode_String c =
     (if c = 0 then ''STREAM_ERROR_CODE_UNSPECIFIED'' else if c = 1 then ''STREAM_ERROR_CODE_PROTOCOL_VIOLATION''
      else if c = 2 then ''STREAM_ERROR_CODE_AUTHENTICATION_FAILED'' else if c = 3 then ''STREAM_ERROR_CODE_CLUSTER_REVOKED''
      else if c = 4 then ''STREAM_ERROR_CODE_VERSION_INCOMPATIBLE'' else if c = 5 then ''STREAM_ERROR_CODE_RESOURCE_EXHAUSTED''
      else if c = 6 then ''STREAM_ERROR_CODE_INTERNAL'' else if c < 0 then ''-'' @ itoa (nat (- c)) else itoa (nat c))"

text \<open>The error that ends the stream, and how long the client sleeps.\<close>

definition handleFrame :: "server_frame \<Rightarrow> error option \<times> duration" where
  "handleFrame f = (case f of
       StreamError e \<Rightarrow> (Some (''ingestion stream error '' @ StreamErrorCode_String (se_code e) @ '': '' @ se_detail e), 0)
     | FlowControl fl \<Rightarrow> (None, case fc_retry_after fl of None \<Rightarrow> 0 | Some d \<Rightarrow> max 0 d)
     | _ \<Rightarrow> (None, 0))"

definition terminal_sequences :: "record_rejection list \<Rightarrow> u64 list" where
  "terminal_sequences rs = map rr_sequence (filter (\<lambda>r. \<not> rr_retryable r) rs)"

text \<open>What the select of \<^verbatim>\<open>awaitAcknowledgement\<close> may see, one after the other; the send of a heartbeat may fail.\<close>

datatype wait_event = CtxDone error | ReceiveError error | HeartbeatTick "error option" | GotFrame server_frame

datatype wait_result = Acked | Failed error | StillWaiting

fun awaitAcknowledgement :: "string \<Rightarrow> wait_event list \<Rightarrow> buffer \<Rightarrow> buffer \<times> wait_result" where
  "awaitAcknowledgement batchID [] b = (b, StillWaiting)"
| "awaitAcknowledgement batchID (CtxDone e # evs) b = (b, Failed e)"
| "awaitAcknowledgement batchID (ReceiveError e # evs) b = (b, Failed e)"
| "awaitAcknowledgement batchID (HeartbeatTick err # evs) b = (case err of
       Some e \<Rightarrow> (b, Failed e)
     | None \<Rightarrow> awaitAcknowledgement batchID evs b)"
| "awaitAcknowledgement batchID (GotFrame f # evs) b = (case f of
       Acknowledgement a \<Rightarrow>
         if ba_batch_id a \<noteq> [] \<and> ba_batch_id a \<noteq> batchID then awaitAcknowledgement batchID evs b
         else (Acknowledge b (ba_persisted_through_sequence a) (terminal_sequences (ba_rejections a)), Acked)
     | _ \<Rightarrow> (case fst (handleFrame f) of
           Some e \<Rightarrow> (b, Failed e)
         | None \<Rightarrow> awaitAcknowledgement batchID evs b))"

section \<open>The send loop\<close>

definition make_batch :: "codec \<Rightarrow> gotime \<Rightarrow> string \<Rightarrow> observation list \<Rightarrow> observation_batch" where
  "make_batch cd now clusterID obs =
     \<lparr> bt_batch_id = clusterID @ ''-'' @ dec (ob_sequence (hd obs)) @ ''-'' @ dec (ob_sequence (last obs)),
       bt_first_sequence = ob_sequence (hd obs), bt_last_sequence = ob_sequence (last obs),
       bt_created_at = Some (timestamp_New now),
       bt_payload_checksum = batchChecksum cd (map Some obs), bt_observations = map Some obs \<rparr>"

text \<open>One turn of the loop of \<^verbatim>\<open>connect\<close>: how the wait of \<^verbatim>\<open>Batch\<close> ends when there is nothing to send (the deadline of a
  second, or the context), the case of the idle select, whether the batch can be sent, and the events of the wait for its
  acknowledgement.\<close>

datatype idle_event = IdleCtxDone | IdleReceiveError error | IdleFrame server_frame | IdleHeartbeat "error option" | IdleNothing

record turn_env =
  te_now :: gotime
  te_idle :: idle_event
  te_send :: "error option"
  te_wait :: "wait_event list"

datatype turn_result = TurnAgain | TurnWaiting | TurnReturns "error option" | TurnPanics

definition idle_turn :: "idle_event \<Rightarrow> turn_result" where
  "idle_turn ev = (case ev of
       IdleCtxDone \<Rightarrow> TurnReturns None
     | IdleReceiveError e \<Rightarrow> TurnReturns (Some e)
     | IdleFrame f \<Rightarrow> (case fst (handleFrame f) of Some e \<Rightarrow> TurnReturns (Some e) | None \<Rightarrow> TurnAgain)
     | IdleHeartbeat (Some e) \<Rightarrow> TurnReturns (Some e)
     | IdleHeartbeat None \<Rightarrow> TurnAgain
     | IdleNothing \<Rightarrow> TurnAgain)"

definition client_turn :: "codec \<Rightarrow> client_config \<Rightarrow> turn_env \<Rightarrow> buffer \<Rightarrow> agent_frame list \<times> buffer \<times> turn_result" where
  "client_turn cd c env b = (case Batch b (cc_BatchSize c) of
       BatchPanics \<Rightarrow> ([], b, TurnPanics)
     | BatchClosed \<Rightarrow> ([], b, TurnReturns (Some ErrClosed))
     | BatchWaits \<Rightarrow> ([], b, idle_turn (te_idle env))
     | Batched [] \<Rightarrow> ([], b, idle_turn (te_idle env))
     | Batched obs \<Rightarrow>
         (let batch = make_batch cd (te_now env) (cc_ClusterID c) obs in
          case te_send env of
            Some e \<Rightarrow> ([], b, TurnReturns (Some (''send observation batch: '' @ e)))
          | None \<Rightarrow>
              (case awaitAcknowledgement (bt_batch_id batch) (te_wait env) b of
                 (b', Acked) \<Rightarrow> ([AgentBatch batch], b', TurnAgain)
               | (b', Failed e) \<Rightarrow> ([AgentBatch batch], b', TurnReturns (Some e))
               | (b', StillWaiting) \<Rightarrow> ([AgentBatch batch], b', TurnWaiting))))"

text \<open>The reconnect delays of \<^verbatim>\<open>Run\<close>.\<close>

definition next_backoff :: "duration \<Rightarrow> duration" where
  "next_backoff backoff = (if backoff < 30 * Second then backoff * 2 else backoff)"

fun run_backoff :: "nat \<Rightarrow> duration" where
  "run_backoff 0 = Second"
| "run_backoff (Suc n) = next_backoff (run_backoff n)"

section \<open>Lemmas on batches\<close>

lemma Batched_run:
  assumes "buffer_inv b" "Batch b m = Batched obs" "obs \<noteq> []"
  obtains k where "obs = take k (bf_entries b)" "0 < k" "k \<le> length (bf_entries b)" "int k \<le> m"
    "entry_seqs obs = [unat (ob_sequence (hd obs)) ..< unat (ob_sequence (hd obs)) + k]"
    "unat (ob_sequence (last obs)) + 1 = unat (ob_sequence (hd obs)) + k" "hd obs = hd (bf_entries b)"
proof -
  have ne: "bf_entries b \<noteq> []" using assms(2) by (auto simp: Batch_def split: if_splits)
  have m: "1 \<le> m"
  proof (rule ccontr)
    assume "\<not> 1 \<le> m"
    then have "m < 0 \<or> m = 0" by linarith
    then show False using assms(2,3) ne by (elim disjE) (auto simp: Batch_def batch_count.simps)
  qed
  from assms(1) ne m obtain k where k: "Batch b m = Batched (take k (bf_entries b))" "0 < k" "k \<le> length (bf_entries b)" "int k \<le> m"
    "entry_seqs (take k (bf_entries b)) = [entry_seqs (bf_entries b) ! 0 ..< entry_seqs (bf_entries b) ! 0 + k]"
    by (rule Batch_spec)
  have obs: "obs = take k (bf_entries b)" using k(1) assms(2) by simp
  have hd: "hd obs = hd (bf_entries b)" using obs k(2) by (cases "bf_entries b"; cases k) auto
  have first: "entry_seqs (bf_entries b) ! 0 = unat (ob_sequence (hd obs))" using hd ne by (cases "bf_entries b") auto
  have "last (entry_seqs obs) = unat (ob_sequence (hd obs)) + k - 1" using k(2,5) first obs by simp
  moreover have "last (entry_seqs obs) = unat (ob_sequence (last obs))" using assms(3) by (simp add: last_map)
  ultimately show thesis using that [OF obs k(2-4)] k(5) obs first hd k(2) by simp
qed

lemma make_batch_simps [simp]:
  "bt_first_sequence (make_batch cd now cl obs) = ob_sequence (hd obs)"
  "bt_last_sequence (make_batch cd now cl obs) = ob_sequence (last obs)"
  "bt_observations (make_batch cd now cl obs) = map Some obs"
  "bt_batch_id (make_batch cd now cl obs) \<noteq> []"
  "bt_payload_checksum (make_batch cd now cl obs) = batchChecksum cd (map Some obs)"
  by (simp_all add: make_batch_def)

text \<open>The batches of the client pass the server's validation.\<close>

lemma make_batch_valid:
  assumes "buffer_inv b" "Batch b m = Batched obs" "obs \<noteq> []" "m \<le> int (unat (sc_MaxBatchRecords cfg))"
    "\<forall>o' \<in> set (bf_entries b). validateInventoryObservation (Some o') = None"
    "cd_size cd (make_batch cd now cl obs) \<le> unat (sc_MaxBatchBytes cfg)"
  shows "validateBatch cd cfg (make_batch cd now cl obs) = None"
proof -
  from assms(1-3) obtain k where k: "obs = take k (bf_entries b)" "0 < k" "k \<le> length (bf_entries b)" "int k \<le> m"
    "entry_seqs obs = [unat (ob_sequence (hd obs)) ..< unat (ob_sequence (hd obs)) + k]"
    "unat (ob_sequence (last obs)) + 1 = unat (ob_sequence (hd obs)) + k" "hd obs = hd (bf_entries b)"
    by (rule Batched_run)
  have sub: "set obs \<subseteq> set (bf_entries b)" using k(1) by (simp add: set_take_subset)
  have ok: "\<forall>o' \<in> set obs. entry_ok o'" using sub assms(1) by (auto simp: buffer_inv_def)
  have len: "length obs \<le> unat (sc_MaxBatchRecords cfg)" 
  proof -
    have "length obs = k" using k(1,3) by simp
    then show ?thesis using k(4) assms(4) by (metis of_nat_le_iff order_trans)
  qed
  have "unat (sc_MaxBatchRecords cfg) < 2 ^ 32" "unat (sc_MaxBatchBytes cfg) < 2 ^ 64"
    using unsigned_less [of "sc_MaxBatchRecords cfg", where ?'a = nat] unsigned_less [of "sc_MaxBatchBytes cfg", where ?'a = nat] by simp_all
  moreover have "ob_sequence (hd obs) \<noteq> 0" using ok assms(3) by (simp add: entry_ok_def)
  moreover have "\<forall>ob \<in> set (map Some obs). valid_observation ob"
    using ok sub assms(5) by (auto simp: valid_observation_def entry_ok_def)
  moreover have "seqs (map Some obs) = [unat (ob_sequence (hd obs)) ..< unat (ob_sequence (last obs)) + 1]"
    using k(5,6) by (simp add: comp_def)
  ultimately show ?thesis
    using assms(3,6) len by (intro validateBatchI) (auto simp: word_neq_0_conv simp del: upt_Suc)
qed

section \<open>One agent and the server\<close>

text \<open>An agent with its buffer and the server that holds its cluster's watermark.  The agent publishes, connects, and
  exchanges batches; an exchange is answered at once (rejected, duplicate or gap) or the accepted part is persisted and
  acknowledged.  The fields \<^verbatim>\<open>lk_log\<close> and \<^verbatim>\<open>lk_rejected\<close> record what was published and rejected.\<close>

record link =
  lk_server :: server
  lk_buffer :: buffer
  lk_log :: "observation list"
  lk_rejected :: "u64 set"

definition quiet :: stream where
  "quiet = \<lparr> st_sent = [], st_sendErr = (\<lambda>_. None) \<rparr>"

definition advance :: "server \<Rightarrow> string \<Rightarrow> u64 \<Rightarrow> server" where
  "advance s key n = s\<lparr> sv_clusters := (sv_clusters s)(key := map_option
     (\<lambda>state. state\<lparr> cs_persistedThrough := n \<rparr>) (sv_clusters s key)) \<rparr>"

definition rejected_by :: "server_frame list \<Rightarrow> u64 set" where
  "rejected_by fs = (\<Union>f \<in> set fs. case f of Acknowledgement a \<Rightarrow> set (terminal_sequences (ba_rejections a)) | _ \<Rightarrow> {})"

inductive exchange :: "codec \<Rightarrow> client_config \<Rightarrow> string \<Rightarrow> link \<Rightarrow> link \<Rightarrow> bool" for cd c key where
  publish:
    "Publish cd clock (lk_buffer x) e = (b', Returns r) \<Longrightarrow> bf_next (lk_buffer x) + 1 \<noteq> 0 \<Longrightarrow>
     exchange cd c key x (x\<lparr> lk_buffer := b',
       lk_log := lk_log x @ drop (length (bf_entries (lk_buffer x))) (bf_entries b') \<rparr>)"
| connect:
    "client_handshake env (FirstFrame (serverHello now sid (persisted (lk_server x) key) (sv_config (lk_server x)))) c (lk_buffer x)
       = (b', r) \<Longrightarrow>
     exchange cd c key x (x\<lparr> lk_buffer := b' \<rparr>)"
| answered:
    "Batch (lk_buffer x) (cc_BatchSize c) = Batched obs \<Longrightarrow> obs \<noteq> [] \<Longrightarrow>
     batch = make_batch cd now (cc_ClusterID c) obs \<Longrightarrow>
     hb_admit cd now' (lk_server x) key quiet batch = (st', Return None) \<Longrightarrow>
     awaitAcknowledgement (bt_batch_id batch) (map GotFrame (st_sent st')) (lk_buffer x) = (b', Acked) \<Longrightarrow>
     exchange cd c key x (x\<lparr> lk_buffer := b', lk_rejected := lk_rejected x \<union> rejected_by (st_sent st') \<rparr>)"
| persisted:
    "Batch (lk_buffer x) (cc_BatchSize c) = Batched obs \<Longrightarrow> obs \<noteq> [] \<Longrightarrow>
     batch = make_batch cd now (cc_ClusterID c) obs \<Longrightarrow>
     hb_admit cd now' (lk_server x) key quiet batch = (st', Continue (a, p)) \<Longrightarrow>
     awaitAcknowledgement (bt_batch_id batch)
       [GotFrame (acknowledgement now' (bt_batch_id batch) (bt_last_sequence batch) (bt_last_sequence batch) [] [])] (lk_buffer x)
       = (b', Acked) \<Longrightarrow>
     exchange cd c key x (x\<lparr> lk_buffer := b', lk_server := advance (lk_server x) key (bt_last_sequence batch) \<rparr>)"

lemma await_ack:
  "awaitAcknowledgement i [GotFrame (acknowledgement now i r p rs js)] b = (Acknowledge b p (terminal_sequences js), Acked)"
  by (simp add: acknowledgement_def)

lemma Send_quiet: "Send quiet f = (st', e) \<Longrightarrow> st_sent st' = [f] \<and> e = None"
  by (auto simp: Send_def quiet_def)

lemma rejected_by_ack: "rejected_by [acknowledgement now i r p rs js] = set (terminal_sequences js)"
  by (simp add: rejected_by_def acknowledgement_def)

text \<open>An exchange that the server answers at once acknowledges the unchanged watermark.\<close>

lemma hb_admit_answer:
  assumes "hb_admit cd now s key quiet b = (st', Return None)"
  obtains rs js r where "st_sent st' = [acknowledgement now (bt_batch_id b) r (persisted s key) rs js]"
    "validateBatch cd (sv_config s) b = None \<Longrightarrow> js = []"
    "validateBatch cd (sv_config s) b = Some err \<Longrightarrow> js = rejectionsForBatch b (rejectionCode (Some err)) err"
proof (cases "validateBatch cd (sv_config s) b")
  case None
  with assms obtain f st where f: "sv_clusters s key = Some st" "Send quiet f = (st', None)"
    "\<exists>rs r. f = acknowledgement now (bt_batch_id b) r (cs_persistedThrough st) rs []"
    by (auto simp: hb_admit_def send_return_def Let_def split: option.splits if_splits prod.splits)
  then obtain rs r where "st_sent st' = [acknowledgement now (bt_batch_id b) r (persisted s key) rs []]"
    using Send_quiet [OF f(2)] by (auto simp: persisted_def)
  then show thesis using None that [of r rs "[]"] by simp
next
  case (Some e)
  with assms obtain f where f: "Send quiet f = (st', None)"
    "f = acknowledgement now (bt_batch_id b) (persisted s key) (persisted s key) [] (rejectionsForBatch b (rejectionCode (Some e)) e)"
    by (auto simp: hb_admit_def send_return_def Let_def split: prod.splits)
  then show thesis
    using Some Send_quiet [OF f(1)] that [of "persisted s key" "[]" "rejectionsForBatch b (rejectionCode (Some e)) e"] by simp
qed

lemma answered_ack:
  assumes "hb_admit cd now s key quiet b = (st', Return None)"
    "awaitAcknowledgement (bt_batch_id b) (map GotFrame (st_sent st')) bf = (b', Acked)"
  obtains ts where "b' = Acknowledge bf (persisted s key) ts" "rejected_by (st_sent st') = set ts"
    "validateBatch cd (sv_config s) b = None \<Longrightarrow> ts = []"
    "validateBatch cd (sv_config s) b \<noteq> None \<Longrightarrow> bt_observations b \<noteq> [] \<Longrightarrow> ts = map (getN ob_sequence) (bt_observations b)"
proof (cases "validateBatch cd (sv_config s) b")
  case None
  obtain rs js r where "st_sent st' = [acknowledgement now (bt_batch_id b) r (persisted s key) rs js]" "js = []"
    using hb_admit_answer [OF assms(1)] None by metis
  with assms(2) None show thesis
    by (intro that [of "[]"]) (auto simp: await_ack rejected_by_ack terminal_sequences_def simp del: awaitAcknowledgement.simps)
next
  case (Some e)
  obtain rs js r where "st_sent st' = [acknowledgement now (bt_batch_id b) r (persisted s key) rs js]"
    "js = rejectionsForBatch b (rejectionCode (Some e)) e"
    using hb_admit_answer [OF assms(1), of e] Some by metis
  with assms(2) Some show thesis
    by (intro that [of "terminal_sequences js"])
      (auto simp: await_ack rejected_by_ack terminal_sequences_def rejectionsForBatch_def comp_def
        simp del: awaitAcknowledgement.simps)
qed

lemma handshake_ack:
  assumes "client_handshake env (FirstFrame (serverHello now sid p cfg)) c b = (b', r)"
  shows "b' = b \<or> b' = Acknowledge b p []"
  using assms by (auto simp: client_handshake_def serverHello_def split: sum.splits)

lemma sel_Acknowledge [simp]:
  "bf_next (Acknowledge b p ts) = bf_next b" "bf_capacity (Acknowledge b p ts) = bf_capacity b"
  "bf_closed (Acknowledge b p ts) = bf_closed b"
  "set (bf_entries (Acknowledge b p ts)) = {o' \<in> set (bf_entries b). \<not> (ob_sequence o' \<le> p \<or> ob_sequence o' \<in> set ts)}"
  by (auto simp: Acknowledge_def)

section \<open>Gaps\<close>

text \<open>The buffer and the counter are beyond the sequence number the server waits for.\<close>

definition gapped :: "string \<Rightarrow> link \<Rightarrow> bool" where
  "gapped key x = (buffer_inv (lk_buffer x) \<and> sv_clusters (lk_server x) key \<noteq> None
     \<and> unat (persisted (lk_server x) key) + 1 < unat (bf_next (lk_buffer x))
     \<and> (\<forall>o' \<in> set (bf_entries (lk_buffer x)). unat (persisted (lk_server x) key) + 1 < unat (ob_sequence o')))"

lemma gapped_Acknowledge: "gapped key x \<Longrightarrow> gapped key (x\<lparr> lk_buffer := Acknowledge (lk_buffer x) p ts, lk_rejected := r \<rparr>)"
  by (simp add: gapped_def buffer_inv_Acknowledge)

lemma gapped_connect: "gapped key x \<Longrightarrow> gapped key (x\<lparr> lk_buffer := Acknowledge (lk_buffer x) p ts \<rparr>)"
  by (simp add: gapped_def buffer_inv_Acknowledge)

lemma gapped_publish:
  assumes "gapped key x" "Publish cd clock (lk_buffer x) e = (b', r)" "bf_next (lk_buffer x) + 1 \<noteq> 0"
  shows "gapped key (x\<lparr> lk_buffer := b', lk_log := l \<rparr>)"
proof -
  have inv: "buffer_inv b'" using buffer_inv_Publish [OF _ assms(3,2)] assms(1) by (simp add: gapped_def)
  from assms(2) show ?thesis
  proof (cases rule: Publish_cases)
    case unchanged
    with assms(1) show ?thesis by (simp add: gapped_def)
  next
    case (added o')
    with assms(1) inv show ?thesis by (auto simp: gapped_def unat_Suc_no_wrap [OF assms(3)])
  qed
qed

lemma gapped_no_admit:
  assumes "gapped key x" "Batch (lk_buffer x) m = Batched obs" "obs \<noteq> []"
    "hb_admit cd now (lk_server x) key st (make_batch cd t cl obs) = (st', Continue (a, p))"
  shows False
proof -
  have inv: "buffer_inv (lk_buffer x)" using assms(1) by (simp add: gapped_def)
  have "hd obs = hd (bf_entries (lk_buffer x))" "bf_entries (lk_buffer x) \<noteq> []"
    using Batched_run [OF inv assms(2,3)] by (metis list.size(3) not_less_zero le_zero_eq gr_implies_not0)+
  then have "hd obs \<in> set (bf_entries (lk_buffer x))" by simp
  then have lt: "unat (persisted (lk_server x) key) + 1 < unat (ob_sequence (hd obs))"
    using assms(1) by (simp add: gapped_def)
  then have "persisted (lk_server x) key < ob_sequence (hd obs)" by (simp add: word_less_nat_alt)
  from unat_Suc_less [OF this] lt have "persisted (lk_server x) key + 1 < ob_sequence (hd obs)" by (simp add: word_less_nat_alt)
  with hb_admit_Continue(2,6) [OF assms(4)] show False by simp
qed

lemma exchange_gapped:
  assumes "exchange cd c key x y" "gapped key x"
  shows "gapped key y \<and> lk_server y = lk_server x"
  using assms(1)
proof cases
  case (publish clock e b' r)
  with gapped_publish [OF assms(2) publish(2,3)] show ?thesis by simp
next
  case (connect env now sid b' r)
  with assms(2) handshake_ack [OF connect(2)] gapped_connect show ?thesis by auto
next
  case (answered obs batch now now' st' b')
  obtain ts where "b' = Acknowledge (lk_buffer x) (persisted (lk_server x) key) ts"
    using answered_ack [OF answered(5,6)] by metis
  with answered(1) assms(2) gapped_Acknowledge show ?thesis by simp
next
  case (persisted obs batch now now' st' a p b')
  then show ?thesis using gapped_no_admit [OF assms(2)] by blast
qed

lemma exchanges_gapped:
  "(exchange cd c key)\<^sup>*\<^sup>* x y \<Longrightarrow> gapped key x \<Longrightarrow> gapped key y \<and> lk_server y = lk_server x"
  by (induction rule: rtranclp_induct) (auto dest: exchange_gapped)

section \<open>In step\<close>

definition link_init :: "server \<Rightarrow> int \<Rightarrow> link" where
  "link_init sv capacity = \<lparr> lk_server = sv, lk_buffer = NewBuffer capacity, lk_log = [], lk_rejected = {} \<rparr>"

definition link_inv :: "string \<Rightarrow> link \<Rightarrow> bool" where
  "link_inv key x = (buffer_inv (lk_buffer x) \<and> sv_clusters (lk_server x) key \<noteq> None
     \<and> entry_seqs (lk_log x) = [1 ..< unat (bf_next (lk_buffer x))]
     \<and> set (bf_entries (lk_buffer x)) \<subseteq> set (lk_log x)
     \<and> persisted (lk_server x) key < bf_next (lk_buffer x)
     \<and> (\<forall>o' \<in> set (lk_log x). o' \<in> set (bf_entries (lk_buffer x))
          \<or> ob_sequence o' \<le> persisted (lk_server x) key \<or> ob_sequence o' \<in> lk_rejected x))"

lemma link_inv_publish:
  assumes "link_inv key x" "Publish cd clock (lk_buffer x) e = (b', r)" "bf_next (lk_buffer x) + 1 \<noteq> 0"
  shows "link_inv key (x\<lparr> lk_buffer := b', lk_log := lk_log x @ drop (length (bf_entries (lk_buffer x))) (bf_entries b') \<rparr>)"
proof -
  have b: "buffer_inv (lk_buffer x)" using assms(1) by (simp add: link_inv_def)
  have inv: "buffer_inv b'" by (rule buffer_inv_Publish [OF b assms(3,2)])
  from assms(2) show ?thesis
  proof (cases rule: Publish_cases)
    case unchanged
    with assms(1) show ?thesis by (simp add: link_inv_def)
  next
    case (added o')
    have "0 < unat (bf_next (lk_buffer x))" using b by (auto simp: buffer_inv_def word_less_nat_alt)
    moreover have "persisted (lk_server x) key < bf_next (lk_buffer x) + 1"
      using assms(1) word_less_Suc [OF assms(3)] by (auto simp: link_inv_def)
    ultimately show ?thesis using assms(1) added inv
      by (auto simp: link_inv_def unat_Suc_no_wrap [OF assms(3)])
  qed
qed

lemma link_inv_ack:
  assumes "link_inv key x"
  shows "link_inv key (x\<lparr> lk_buffer := Acknowledge (lk_buffer x) (persisted (lk_server x) key) ts, lk_rejected := lk_rejected x \<union> set ts \<rparr>)"
  using assms by (auto simp: link_inv_def buffer_inv_Acknowledge)

lemma persisted_advance: "sv_clusters s key \<noteq> None \<Longrightarrow> persisted (advance s key n) key = n"
  by (auto simp: advance_def persisted_def)

lemma link_inv_advance:
  assumes "link_inv key x" "persisted (lk_server x) key \<le> n" "n < bf_next (lk_buffer x)"
  shows "link_inv key (x\<lparr> lk_buffer := Acknowledge (lk_buffer x) n [], lk_server := advance (lk_server x) key n \<rparr>)"
proof -
  have c: "sv_clusters (lk_server x) key \<noteq> None" using assms(1) by (simp add: link_inv_def)
  have p: "persisted (advance (lk_server x) key n) key = n" by (rule persisted_advance [OF c])
  have "sv_clusters (advance (lk_server x) key n) key \<noteq> None" using c by (simp add: advance_def)
  note p = p this
  show ?thesis using assms p by (auto simp: link_inv_def buffer_inv_Acknowledge)
qed

lemma exchange_link_inv:
  assumes "exchange cd c key x y" "link_inv key x"
  shows "link_inv key y"
  using assms(1)
proof cases
  case (publish clock e b' r)
  then show ?thesis using link_inv_publish [OF assms(2) publish(2,3)] by simp
next
  case (connect env now sid b' r)
  from handshake_ack [OF connect(2)] show ?thesis
    using link_inv_ack [OF assms(2), of "[]"] assms(2) connect(1) by auto
next
  case (answered obs batch now now' st' b')
  obtain ts where "b' = Acknowledge (lk_buffer x) (persisted (lk_server x) key) ts" "rejected_by (st_sent st') = set ts"
    using answered_ack [OF answered(5,6)] by metis
  with answered(1) link_inv_ack [OF assms(2)] show ?thesis by simp
next
  case (persisted obs batch now now' st' a p b')
  note c = hb_admit_Continue [OF persisted(5)]
  have b: "buffer_inv (lk_buffer x)" using assms(2) by (simp add: link_inv_def)
  from b persisted(2,3) obtain k where k: "obs = take k (bf_entries (lk_buffer x))" by (rule Batched_run)
  then have "last obs \<in> set (bf_entries (lk_buffer x))" using persisted(3) by (metis in_set_takeD last_in_set)
  then have "ob_sequence (last obs) < bf_next (lk_buffer x)" using b by (simp add: buffer_inv_def)
  moreover have "b' = Acknowledge (lk_buffer x) (ob_sequence (last obs)) []"
    using persisted(4,6) by (simp add: await_ack terminal_sequences_def del: awaitAcknowledgement.simps)
  moreover have "persisted (lk_server x) key \<le> ob_sequence (last obs)" using c(2,5) persisted(4) by simp
  ultimately show ?thesis using link_inv_advance [OF assms(2)] persisted(1,4) by simp
qed

lemma exchanges_link_inv: "(exchange cd c key)\<^sup>*\<^sup>* x y \<Longrightarrow> link_inv key x \<Longrightarrow> link_inv key y"
  by (induction rule: rtranclp_induct) (auto dest: exchange_link_inv)

lemma link_inv_init:
  "sv_clusters sv key \<noteq> None \<Longrightarrow> persisted sv key = 0 \<Longrightarrow> link_inv key (link_init sv capacity)"
  using buffer_inv_New [of capacity] by (simp add: link_inv_def link_init_def) (simp add: NewBuffer_def)

lemma link_head:
  assumes "link_inv key x" "lk_rejected x = {}" "bf_entries (lk_buffer x) \<noteq> []"
  shows "unat (ob_sequence (hd (bf_entries (lk_buffer x)))) \<le> unat (persisted (lk_server x) key) + 1"
proof (rule ccontr)
  let ?es = "bf_entries (lk_buffer x)" and ?p = "persisted (lk_server x) key"
  assume gap: "\<not> unat (ob_sequence (hd ?es)) \<le> unat ?p + 1"
  have b: "buffer_inv (lk_buffer x)" using assms(1) by (simp add: link_inv_def)
  have "hd ?es \<in> set ?es" using assms(3) by simp
  then have "unat (ob_sequence (hd ?es)) < unat (bf_next (lk_buffer x))" using b by (simp add: buffer_inv_def word_less_nat_alt)
  then have "unat ?p + 1 \<in> set (entry_seqs (lk_log x))" using gap assms(1) by (simp add: link_inv_def)
  then obtain o' where o': "o' \<in> set (lk_log x)" "unat (ob_sequence o') = unat ?p + 1" by auto
  then have "o' \<in> set ?es" using assms(1,2) by (auto simp: link_inv_def word_le_nat_alt)
  then have "unat (ob_sequence (hd ?es)) \<le> unat (ob_sequence o')"
    using b by (cases ?es) (auto simp: buffer_inv_def word_less_nat_alt)
  with gap o'(2) show False by simp
qed

section \<open>Properties\<close>


definition sample_client :: client_config where
  "sample_client = \<lparr> cc_TenantID = ''t'', cc_ClusterID = ''c'', cc_AgentInstanceID = ''a'', cc_AgentVersion = [],
     cc_KubernetesVersion = [], cc_Endpoint = [], cc_Insecure = True, cc_CAFile = [], cc_CertFile = [], cc_KeyFile = [],
     cc_ServerName = [], cc_BatchSize = 2, cc_DialOptions = [] \<rparr>"

definition sample_turn :: turn_env where
  "sample_turn = \<lparr> te_now = 0, te_idle = IdleNothing, te_send = None, te_wait = [] \<rparr>"

definition tiny_codec :: codec where
  "tiny_codec = sample_codec\<lparr> cd_size := (\<lambda>_. 1) \<rparr>"



definition fresh_server :: server where
  "fresh_server = sample_server\<lparr> sv_clusters := [''k'' \<mapsto> \<lparr> cs_persistedThrough = 0, cs_loaded = True \<rparr>] \<rparr>"

lemma fresh_server_simps: "sv_clusters fresh_server ''k'' \<noteq> None" "persisted fresh_server ''k'' = 0"
  "sv_config fresh_server = sample_config"
  by (simp_all add: fresh_server_def persisted_def sample_server_def)

definition one_published :: "codec \<Rightarrow> link" where
  "one_published cd = (link_init fresh_server 1)\<lparr> lk_buffer := (bs_buffer (filled cd))\<lparr> bf_notify := True \<rparr>,
     lk_log := bf_entries (bs_buffer (filled cd)) \<rparr>"

lemma one_published_reached: "(exchange cd c key)\<^sup>*\<^sup>* (link_init fresh_server 1) (one_published cd)"
proof -
  have "Publish cd [] (NewBuffer 1) (sample_event ''a'') = ((bs_buffer (filled cd))\<lparr> bf_notify := True \<rparr>, Returns None)"
    by (subst Publish_added [OF sample_event_valid])
      (auto simp: NewBuffer_def sample_event_def sample_observation_def signal_def filled_def)
  then have "exchange cd c key (link_init fresh_server 1) (one_published cd)"
    using exchange.publish [of cd "[]" "link_init fresh_server 1" "sample_event ''a''"
        "(bs_buffer (filled cd))\<lparr> bf_notify := True \<rparr>" None c key]
    by (simp add: link_init_def one_published_def NewBuffer_def)
  then show ?thesis by blast
qed



definition strict_server :: server where
  "strict_server = fresh_server\<lparr> sv_config := sample_config\<lparr> sc_MaxBatchBytes := 5 \<rparr> \<rparr>"


definition publish_all :: "codec \<Rightarrow> string \<Rightarrow> buffer \<Rightarrow> event list \<Rightarrow> buffer" where
  "publish_all cd clock b es = fold (\<lambda>e b. fst (Publish cd clock b e)) es b"

lemma unat_Suc_le: "unat ((n :: u64) + 1) \<le> unat n + 1"
  by (simp add: unat_word_ariths)

lemma publish_bound:
  assumes "\<forall>o' \<in> set (bf_entries b). unat (ob_sequence o') \<le> n" "unat (bf_next b) \<le> n + 1"
  shows "(\<forall>o' \<in> set (bf_entries (fst (Publish cd clock b e))). unat (ob_sequence o') \<le> n + 1)
    \<and> unat (bf_next (fst (Publish cd clock b e))) \<le> n + 2"
proof -
  obtain b' r where p: "Publish cd clock b e = (b', r)" by (cases "Publish cd clock b e")
  from p show ?thesis
  proof (cases rule: Publish_cases)
    case unchanged
    with p assms show ?thesis by (auto intro: le_SucI)
  next
    case (added o')
    with p assms unat_Suc_le [of "bf_next b"] show ?thesis by (auto intro: le_SucI)
  qed
qed

lemma publish_all_bound:
  assumes "\<forall>o' \<in> set (bf_entries b). unat (ob_sequence o') \<le> n" "unat (bf_next b) \<le> n + 1"
  shows "\<forall>o' \<in> set (bf_entries (publish_all cd clock b es)). unat (ob_sequence o') \<le> n + length es"
  using assms
proof (induction es arbitrary: b n)
  case (Cons e es)
  from publish_bound [OF Cons.prems, of cd clock e] Cons.IH [of "fst (Publish cd clock b e)" "n + 1"]
  show ?case by (simp add: publish_all_def)
qed (simp add: publish_all_def)

text \<open>C12: A restarted agent throws away fresh observations.  A new agent process numbers its observations from 1 again.  If the server
  still holds the watermark \<^verbatim>\<open>N\<close> of the previous process, the handshake of the new one empties its
  buffer of everything it published so far, up to \<^verbatim>\<open>N\<close> observations, none of which was ever sent.\<close>

theorem restart_discards_observations:
  assumes "length es \<le> unat N" "dialOptions env c = Inr options"
  shows "bf_entries (fst (client_handshake env (FirstFrame (serverHello now sid N cfg)) c (publish_all cd clock (NewBuffer capacity) es))) = []"
proof -
  let ?b = "publish_all cd clock (NewBuffer capacity) es"
  have "\<forall>o' \<in> set (bf_entries ?b). unat (ob_sequence o') \<le> 0 + length es"
    by (rule publish_all_bound) (simp_all add: NewBuffer_def)
  then have "\<forall>o' \<in> set (bf_entries ?b). ob_sequence o' \<le> N" using assms(1) by (auto simp: word_le_nat_alt intro: order_trans)
  then have "bf_entries (Acknowledge ?b N []) = []" by (simp add: Acknowledge_def filter_empty_conv)
  then show ?thesis using assms(2) by (simp add: client_handshake_def serverHello_def)
qed

theorem restart_discards_observations_witness:
  "bf_entries (publish_all sample_codec [] (NewBuffer 10) [sample_event ''a'']) \<noteq> []
   \<and> bf_entries (fst (client_handshake
        \<lparr> de_ReadFile = Inl, de_SystemCertPool = None, de_AppendCerts = (\<lambda>_. True), de_LoadKeyPair = (\<lambda>_ _. None) \<rparr>
        (FirstFrame (serverHello 0 ''s'' 5 sample_config)) sample_client
        (publish_all sample_codec [] (NewBuffer 10) [sample_event ''a'']))) = []"
proof
  show "bf_entries (publish_all sample_codec [] (NewBuffer 10) [sample_event ''a'']) \<noteq> []"
  proof -
    have "Publish sample_codec [] (NewBuffer 10) (sample_event ''a'') = (signal ((NewBuffer 10)\<lparr> bf_next := bf_next (NewBuffer 10) + 1,
        bf_entries := bf_entries (NewBuffer 10) @ [numbered sample_codec [] (bf_next (NewBuffer 10)) (ev_Key (sample_event ''a''))
          (the (sample_observation 0))] \<rparr>), Returns None)"
      by (rule Publish_added [OF sample_event_valid]) (simp_all add: NewBuffer_def sample_event_def sample_observation_def)
    then show ?thesis by (simp add: publish_all_def)
  qed
qed (rule restart_discards_observations [where options = "[InsecureCredentials]"],
    simp_all add: dialOptions_def sample_client_def)

end
