(* ===== verification/Agent_Builders.thy ===== *)
theory Agent_Builders
  imports Agent_Buffer "HOL-Library.Char_ord" "HOL-Library.List_Lexorder"
begin

text \<open>
  The inventory events the agent builds from Kubernetes objects (\<^verbatim>\<open>agent/inventory/builders.go\<close>).  The objects
  are records with the fields the builders read; a quantity is what its methods return.  A Go map that is iterated is a
  list of its entries, in the order of the iteration.
\<close>

section \<open>Kubernetes objects\<close>

definition zero_time :: gotime where
  "zero_time = - 62135596800 * Second"

record owner_reference =
  own_APIVersion :: string
  own_Kind :: string
  own_Name :: string
  own_UID :: string
  own_Controller :: "bool option"

record object_meta =
  mt_UID :: string
  mt_Name :: string
  mt_Namespace :: string
  mt_ResourceVersion :: string
  mt_Labels :: labels
  mt_CreationTimestamp :: gotime
  mt_DeletionTimestamp :: "gotime option"
  mt_OwnerReferences :: "owner_reference list"

record quantity =
  qt_MilliValue :: i64
  qt_Value :: i64
  qt_String :: string

type_synonym resource_list = "(string \<times> quantity) list"

record taint =
  tn_Key :: string
  tn_Value :: string
  tn_Effect :: string

record k8s_node =
  nd_meta :: object_meta
  nd_ProviderID :: string
  nd_Unschedulable :: bool
  nd_Taints :: "taint list"
  nd_Architecture :: string
  nd_OperatingSystem :: string
  nd_Capacity :: resource_list
  nd_Allocatable :: resource_list

record k8s_namespace =
  nsp_meta :: object_meta
  nsp_Phase :: string

record k8s_deployment =
  dp_meta :: object_meta
  dp_Replicas :: "i32 option"
  dp_AvailableReplicas :: i32
  dp_Selector :: string
  dp_StrategyType :: string

record container_spec =
  ct_Name :: string
  ct_Image :: string
  ct_Requests :: resource_list
  ct_Limits :: resource_list

record container_status =
  cst_Name :: string
  cst_ContainerID :: string
  cst_ImageID :: string
  cst_RestartCount :: i32
  cst_Running :: "gotime option"
  cst_Terminated :: "(gotime \<times> gotime) option"
  cst_LastTerminated :: "(gotime \<times> gotime) option"

record pod_condition =
  pc_Type :: string
  pc_Status :: string
  pc_LastTransitionTime :: gotime

record k8s_pod =
  pd_meta :: object_meta
  pd_NodeName :: string
  pd_ServiceAccountName :: string
  pd_PriorityClassName :: string
  pd_InitContainers :: "container_spec list"
  pd_Containers :: "container_spec list"
  pd_Phase :: string
  pd_QOSClass :: string
  pd_Conditions :: "pod_condition list"
  pd_StartTime :: "gotime option"
  pd_InitContainerStatuses :: "container_status list"
  pd_ContainerStatuses :: "container_status list"

section \<open>Builders\<close>

text \<open>Reading a missing key of a Go map of strings gives the empty string.\<close>

definition label :: "labels \<Rightarrow> string \<Rightarrow> string" where
  "label m k = (case m k of None \<Rightarrow> [] | Some v \<Rightarrow> v)"

fun builder_firstNonEmpty :: "string list \<Rightarrow> string" where
  "builder_firstNonEmpty [] = []"
| "builder_firstNonEmpty (v # vs) = (if v \<noteq> [] then v else builder_firstNonEmpty vs)"

definition builder_cloneMap :: "labels \<Rightarrow> labels" where
  "builder_cloneMap m = m"

definition valueOrZero :: "i32 option \<Rightarrow> i32" where
  "valueOrZero v = (case v of None \<Rightarrow> 0 | Some x \<Rightarrow> x)"

definition inventoryRecord :: "inventory_operation \<Rightarrow> inventory_record option" where
  "inventoryRecord op = Some \<lparr> ir_operation = op, ir_snapshot_id = [], ir_snapshot_record = False \<rparr>"

definition builder_timestamp :: "gotime option \<Rightarrow> timestamp option" where
  "builder_timestamp v = (case v of
       None \<Rightarrow> None
     | Some t \<Rightarrow> if t = zero_time then None else Some (timestamp_New t))"

text \<open>The builder reads the clock once for the observation and mostly once more before, for \<^verbatim>\<open>observedAt\<close>.\<close>

record clock =
  ck_observed :: gotime
  ck_now :: gotime

definition builder_observation :: "gotime \<Rightarrow> string \<Rightarrow> gotime \<Rightarrow> payload \<Rightarrow> observation" where
  "builder_observation now resourceVersion observedAt payload =
     \<lparr> ob_sequence = 0, ob_event_id = [],
       ob_observed_at = Some (timestamp_New (if observedAt = zero_time then now else observedAt)),
       ob_collected_at = Some (timestamp_New now), ob_source_resource_version = resourceVersion,
       ob_payload = Some payload \<rparr>"

definition metadata :: "object_meta \<Rightarrow> object_metadata option" where
  "metadata m = Some \<lparr> om_uid = mt_UID m, om_name = mt_Name m, om_namespace = mt_Namespace m,
     om_labels = builder_cloneMap (mt_Labels m), om_annotations = Map.empty,
     om_created_at = Some (timestamp_New (mt_CreationTimestamp m)),
     om_deleted_at = builder_timestamp (mt_DeletionTimestamp m),
     om_owner_references = map (\<lambda>o'. \<lparr> or_api_version = own_APIVersion o', or_kind = own_Kind o', or_namespace = [],
        or_name = own_Name o', or_uid = own_UID o' \<rparr>) (mt_OwnerReferences m) \<rparr>"

text \<open>\<^verbatim>\<open>strings.ToLower\<close> on ASCII letters; no other character becomes one of the letters searched for.\<close>

definition lower_char :: "char \<Rightarrow> char" where
  "lower_char c = (let n = (of_char c :: nat) in if 65 \<le> n \<and> n \<le> 90 then char_of (n + 32) else c)"

definition standard_resources :: "string list" where
  "standard_resources = [''cpu'', ''memory'', ''ephemeral-storage'', ''storage'']"

definition is_gpu :: "string \<Rightarrow> bool" where
  "is_gpu name = Contains (map lower_char name) ''gpu''"

text \<open>The loop over the resources: the GPU count, whether there was one, and the extended resources.\<close>

fun resource_loop :: "resource_list \<Rightarrow> i64 \<times> bool \<times> labels \<Rightarrow> i64 \<times> bool \<times> labels" where
  "resource_loop [] acc = acc"
| "resource_loop ((name, q) # rs) (gpu, hasGPU, ext) =
     (if name \<in> set standard_resources then resource_loop rs (gpu, hasGPU, ext)
      else if is_gpu name then resource_loop rs (gpu + qt_Value q, True, ext(name \<mapsto> qt_String q))
      else resource_loop rs (gpu, hasGPU, ext(name \<mapsto> qt_String q)))"

definition resourceValues :: "resource_list \<Rightarrow> resource_values option" where
  "resourceValues rs = (case resource_loop rs (0, False, Map.empty) of
       (gpu, hasGPU, ext) \<Rightarrow> Some
         \<lparr> rv_cpu_millicores = map_option qt_MilliValue (map_of rs ''cpu''),
           rv_memory_bytes = map_option qt_Value (map_of rs ''memory''),
           rv_ephemeral_storage_bytes = map_option qt_Value (map_of rs ''ephemeral-storage''),
           rv_gpu_count = (if hasGPU then Some gpu else None), rv_extended_resources = ext \<rparr>)"

definition taints :: "taint list \<Rightarrow> string list" where
  "taints ts = sort (map (\<lambda>t. tn_Key t @ ''='' @ tn_Value t @ '':'' @ tn_Effect t) ts)"

definition workloadOwner :: "owner_reference list \<Rightarrow> string \<times> string" where
  "workloadOwner owners = (case List.find (\<lambda>o'. own_Controller o' = Some True) owners of
       Some o' \<Rightarrow> (own_Kind o', own_UID o')
     | None \<Rightarrow> (case owners of [] \<Rightarrow> ([], []) | o' # _ \<Rightarrow> (own_Kind o', own_UID o')))"

definition conditionTime :: "pod_condition list \<Rightarrow> string \<Rightarrow> timestamp option" where
  "conditionTime cs typ = (case List.find (\<lambda>c. pc_Type c = typ \<and> pc_Status c = ''True'') cs of
       None \<Rightarrow> None
     | Some c \<Rightarrow> Some (timestamp_New (pc_LastTransitionTime c)))"

definition containerTimes :: "container_status \<Rightarrow> timestamp option \<times> timestamp option" where
  "containerTimes s = (case cst_Running s of
       Some t \<Rightarrow> (Some (timestamp_New t), None)
     | None \<Rightarrow> (case cst_Terminated s of
           Some (a, f) \<Rightarrow> (Some (timestamp_New a), Some (timestamp_New f))
         | None \<Rightarrow> (case cst_LastTerminated s of
               Some (a, f) \<Rightarrow> (Some (timestamp_New a), Some (timestamp_New f))
             | None \<Rightarrow> (None, None))))"

definition build_Cluster :: "gotime \<Rightarrow> string \<Rightarrow> string \<Rightarrow> k8s_namespace \<Rightarrow> event" where
  "build_Cluster now clusterID version ns =
     \<lparr> ev_Key = ''cluster/'' @ clusterID,
       ev_Observation = Some (builder_observation now (mt_ResourceVersion (nsp_meta ns)) (mt_CreationTimestamp (nsp_meta ns))
         (ClusterInventory (Some \<lparr> ci_record = inventoryRecord UPSERT, ci_cluster_uid = mt_UID (nsp_meta ns), ci_name = clusterID,
            ci_kubernetes_version = version, ci_provider = [], ci_region = [], ci_account_id = [], ci_labels = Map.empty \<rparr>))) \<rparr>"

definition phase_String :: "snapshot_phase \<Rightarrow> string" where
  "phase_String p = (case p of
       PHASE_UNSPECIFIED \<Rightarrow> ''INVENTORY_SNAPSHOT_PHASE_UNSPECIFIED''
     | STARTED \<Rightarrow> ''INVENTORY_SNAPSHOT_PHASE_STARTED''
     | COMPLETED \<Rightarrow> ''INVENTORY_SNAPSHOT_PHASE_COMPLETED''
     | ABORTED \<Rightarrow> ''INVENTORY_SNAPSHOT_PHASE_ABORTED''
     | PHASE_OTHER n \<Rightarrow> if n < 0 then ''-'' @ itoa (nat (- n)) else itoa (nat n))"

definition build_Snapshot :: "clock \<Rightarrow> string \<Rightarrow> snapshot_phase \<Rightarrow> event" where
  "build_Snapshot ck snapshotID phase =
     \<lparr> ev_Key = ''snapshot/'' @ snapshotID @ ''/'' @ phase_String phase,
       ev_Observation = Some (builder_observation (ck_now ck) [] (ck_observed ck)
         (InventorySnapshotMarker (Some \<lparr> sm_snapshot_id = snapshotID, sm_phase = phase,
            sm_resource_kinds = [''Cluster'', ''Node'', ''Namespace'', ''Deployment'', ''Pod'', ''Container''],
            sm_record_count = 0,
            sm_started_at = (if phase = STARTED then Some (timestamp_New (ck_observed ck)) else None),
            sm_completed_at = (if phase = COMPLETED then Some (timestamp_New (ck_observed ck)) else None), sm_detail = [] \<rparr>))) \<rparr>"

definition build_Node :: "clock \<Rightarrow> k8s_node \<Rightarrow> inventory_operation \<Rightarrow> event" where
  "build_Node ck n op = (let m = nd_meta n; l = label (mt_Labels m) in
     \<lparr> ev_Key = ''node/'' @ mt_UID m,
       ev_Observation = Some (builder_observation (ck_now ck) (mt_ResourceVersion m) (ck_observed ck)
         (NodeInventory (Some \<lparr> ni_record = inventoryRecord op, ni_metadata = metadata m, ni_provider_id = nd_ProviderID n,
            ni_instance_type = builder_firstNonEmpty [l ''node.kubernetes.io/instance-type'', l ''beta.kubernetes.io/instance-type''],
            ni_architecture = nd_Architecture n, ni_operating_system = nd_OperatingSystem n,
            ni_region = builder_firstNonEmpty [l ''topology.kubernetes.io/region'', l ''failure-domain.beta.kubernetes.io/region''],
            ni_zone = builder_firstNonEmpty [l ''topology.kubernetes.io/zone'', l ''failure-domain.beta.kubernetes.io/zone''],
            ni_capacity_type = builder_firstNonEmpty [l ''karpenter.sh/capacity-type'', l ''eks.amazonaws.com/capacityType''],
            ni_capacity = resourceValues (nd_Capacity n), ni_allocatable = resourceValues (nd_Allocatable n),
            ni_schedulable = (\<not> nd_Unschedulable n), ni_taints = taints (nd_Taints n),
            ni_karpenter_node_claim_uid = l ''karpenter.sh/nodeclaim'', ni_karpenter_node_pool = l ''karpenter.sh/nodepool'' \<rparr>))) \<rparr>)"

definition build_Namespace :: "clock \<Rightarrow> k8s_namespace \<Rightarrow> inventory_operation \<Rightarrow> event" where
  "build_Namespace ck n op =
     \<lparr> ev_Key = ''namespace/'' @ mt_UID (nsp_meta n),
       ev_Observation = Some (builder_observation (ck_now ck) (mt_ResourceVersion (nsp_meta n)) (ck_observed ck)
         (NamespaceInventory (Some \<lparr> nsi_record = inventoryRecord op, nsi_metadata = metadata (nsp_meta n), nsi_phase = nsp_Phase n \<rparr>))) \<rparr>"

text \<open>\<^verbatim>\<open>selector\<close> stands for \<^verbatim>\<open>metav1.FormatLabelSelector\<close>.\<close>

definition build_Deployment :: "(string \<Rightarrow> string) \<Rightarrow> clock \<Rightarrow> k8s_deployment \<Rightarrow> string \<Rightarrow> inventory_operation \<Rightarrow> event" where
  "build_Deployment selector ck d namespaceUID op =
     \<lparr> ev_Key = ''deployment/'' @ mt_UID (dp_meta d),
       ev_Observation = Some (builder_observation (ck_now ck) (mt_ResourceVersion (dp_meta d)) (ck_observed ck)
         (DeploymentInventory (Some \<lparr> di_record = inventoryRecord op, di_metadata = metadata (dp_meta d),
            di_desired_replicas = valueOrZero (dp_Replicas d), di_available_replicas = dp_AvailableReplicas d,
            di_selector = selector (dp_Selector d), di_strategy = dp_StrategyType d, di_namespace_uid = namespaceUID \<rparr>))) \<rparr>"

definition build_Pod :: "clock \<Rightarrow> k8s_pod \<Rightarrow> string \<Rightarrow> inventory_operation \<Rightarrow> event" where
  "build_Pod ck p namespaceUID op = (case workloadOwner (mt_OwnerReferences (pd_meta p)) of (kind, uid) \<Rightarrow>
     \<lparr> ev_Key = ''pod/'' @ mt_UID (pd_meta p),
       ev_Observation = Some (builder_observation (ck_now ck) (mt_ResourceVersion (pd_meta p)) (ck_observed ck)
         (PodInventory (Some \<lparr> pi_record = inventoryRecord op, pi_metadata = metadata (pd_meta p), pi_node_name = pd_NodeName p,
            pi_node_uid = [], pi_phase = pd_Phase p, pi_qos_class = pd_QOSClass p,
            pi_service_account_name = pd_ServiceAccountName p, pi_priority_class_name = pd_PriorityClassName p,
            pi_workload_kind = kind, pi_workload_uid = uid,
            pi_scheduled_at = conditionTime (pd_Conditions p) ''PodScheduled'',
            pi_started_at = builder_timestamp (pd_StartTime p), pi_namespace_uid = namespaceUID \<rparr>))) \<rparr>)"

definition build_container ::
  "clock \<Rightarrow> k8s_pod \<Rightarrow> container_spec \<Rightarrow> container_status \<Rightarrow> string \<Rightarrow> string \<times> string \<Rightarrow> bool \<Rightarrow> inventory_operation \<Rightarrow> event" where
  "build_container ck p c s namespaceUID owner init op = (case containerTimes s of (startedAt, finishedAt) \<Rightarrow>
     \<lparr> ev_Key = (if init then ''init-container'' else ''container'') @ ''/'' @ mt_UID (pd_meta p) @ ''/'' @ ct_Name c,
       ev_Observation = Some (builder_observation (ck_now ck) (mt_ResourceVersion (pd_meta p)) (ck_observed ck)
         (ContainerInventory (Some \<lparr> coi_record = inventoryRecord op, coi_pod_uid = mt_UID (pd_meta p),
            coi_namespace = mt_Namespace (pd_meta p), coi_pod_name = mt_Name (pd_meta p), coi_container_name = ct_Name c,
            coi_container_id = cst_ContainerID s, coi_image = ct_Image c, coi_image_id = cst_ImageID s,
            coi_requests = resourceValues (ct_Requests c), coi_limits = resourceValues (ct_Limits c),
            coi_restart_count = cst_RestartCount s, coi_init_container = init, coi_started_at = startedAt,
            coi_finished_at = finishedAt, coi_namespace_uid = namespaceUID, coi_workload_kind = fst owner,
            coi_workload_uid = snd owner \<rparr>))) \<rparr>)"

text \<open>The status of a container by name; a name without one reads the zero value.\<close>

definition zero_status :: container_status where
  "zero_status = \<lparr> cst_Name = [], cst_ContainerID = [], cst_ImageID = [], cst_RestartCount = 0, cst_Running = None,
     cst_Terminated = None, cst_LastTerminated = None \<rparr>"

definition status_of :: "k8s_pod \<Rightarrow> string \<Rightarrow> container_status" where
  "status_of p name = (case fold (\<lambda>s m. m(cst_Name s \<mapsto> s)) (pd_InitContainerStatuses p @ pd_ContainerStatuses p) Map.empty name of
       None \<Rightarrow> zero_status | Some s \<Rightarrow> s)"

definition build_Containers :: "(nat \<Rightarrow> clock) \<Rightarrow> k8s_pod \<Rightarrow> string \<Rightarrow> inventory_operation \<Rightarrow> event list" where
  "build_Containers cks p namespaceUID op =
     (let owner = workloadOwner (mt_OwnerReferences (pd_meta p)) in
      map (\<lambda>(i, init, c). build_container (cks i) p c (status_of p (ct_Name c)) namespaceUID owner init op)
        (enumerate 0 (map (Pair True) (pd_InitContainers p) @ map (Pair False) (pd_Containers p))))"

end
