(* ===== verification/Agent_Inventory.thy ===== *)
theory Agent_Inventory
  imports Agent_Builders "HOL-Library.AList" "HOL-Library.Multiset"
begin

text \<open>
  The agent's inventory collector (\<^verbatim>\<open>agent/inventory/cache.go\<close>, \<^verbatim>\<open>collector.go\<close>): the fingerprint cache that suppresses
  unchanged objects, the processing of a change, and the worker's queue with its retries.  The informer's lister, the
  order of map iterations and the publisher's answers are arguments.
\<close>

section \<open>The cache\<close>

type_synonym cache = "string \<Rightarrow> string option"

definition NewCache :: cache where
  "NewCache = Map.empty"

definition Changed :: "codec \<Rightarrow> cache \<Rightarrow> event \<Rightarrow> (bool \<times> string) result" where
  "Changed cd cache e = (case event_Validate e of
       Some err \<Rightarrow> Inl err
     | None \<Rightarrow> (case Fingerprint cd (ev_Observation e) of
           Inl err \<Rightarrow> Inl err
         | Inr fp \<Rightarrow> Inr (cache (ev_Key e) \<noteq> Some fp, fp)))"

definition Exists :: "cache \<Rightarrow> string \<Rightarrow> bool" where
  "Exists cache key = (cache key \<noteq> None)"

definition Commit :: "cache \<Rightarrow> string \<Rightarrow> string \<Rightarrow> cache \<times> error option" where
  "Commit cache key fp =
     (if key = [] \<or> fp = [] then (cache, Some ''cache key and fingerprint are required'')
      else (cache(key \<mapsto> fp), None))"

definition cache_Delete :: "cache \<Rightarrow> string \<Rightarrow> cache" where
  "cache_Delete cache key = cache(key := None)"

definition cache_Len :: "cache \<Rightarrow> nat" where
  "cache_Len cache = card (dom cache)"

section \<open>The collector\<close>

text \<open>The object of a change; \<^verbatim>\<open>Unknown\<close> is any other dynamic type.\<close>

datatype k8s_object = ObjEvent event | ObjNode k8s_node | ObjNamespace k8s_namespace | ObjDeployment k8s_deployment
  | ObjPod k8s_pod | ObjUnknown

record change =
  ch_kind :: string
  ch_object :: k8s_object
  ch_operation :: inventory_operation

text \<open>What the collector's environment provides: the clock readings, \<^verbatim>\<open>metav1.FormatLabelSelector\<close>,
  the namespace lister, the order in which the runtime iterates over a map of containers, and the publisher's answer to
  each publication.\<close>

record collector_env =
  ce_clock :: "nat \<Rightarrow> clock"
  ce_selector :: "string \<Rightarrow> string"
  ce_namespaces :: "string \<Rightarrow> string option"
  ce_iter :: "(string \<times> event) list \<Rightarrow> (string \<times> event) list"
  ce_publishErr :: "nat \<Rightarrow> error option"

record collector =
  co_cache :: cache
  co_podContainers :: "string \<Rightarrow> (string \<times> event) list option"
  co_published :: "event list"
  co_calls :: nat

definition NewCollector :: collector where
  "NewCollector = \<lparr> co_cache = NewCache, co_podContainers = Map.empty, co_published = [], co_calls = 0 \<rparr>"

definition namespaceUID :: "collector_env \<Rightarrow> string \<Rightarrow> string" where
  "namespaceUID env ns = (if ns = [] then [] else case ce_namespaces env ns of None \<Rightarrow> [] | Some uid \<Rightarrow> uid)"

text \<open>The container of a payload is never nil: the events come from the builder.\<close>

definition asDelete :: "event \<Rightarrow> event" where
  "asDelete e = (case ev_Observation e of
       Some o' \<Rightarrow> (case ob_payload o' of
           Some (ContainerInventory (Some ci)) \<Rightarrow> e\<lparr> ev_Observation := Some
             \<lparr> ob_sequence = 0, ob_event_id = [], ob_observed_at = ob_observed_at o', ob_collected_at = ob_collected_at o',
               ob_source_resource_version = ob_source_resource_version o',
               ob_payload = Some (ContainerInventory (Some (ci\<lparr> coi_record := inventoryRecord DELETE \<rparr>))) \<rparr> \<rparr>
         | _ \<Rightarrow> e)
     | None \<Rightarrow> e)"

definition deletes :: "inventory_record option \<Rightarrow> bool" where
  "deletes r = (getf ir_operation OPERATION_UNSPECIFIED r = DELETE)"

definition isDelete :: "event \<Rightarrow> bool" where
  "isDelete e = (case getP ob_payload (ev_Observation e) of
       Some (ClusterInventory p) \<Rightarrow> deletes (getP ci_record p)
     | Some (NodeInventory p) \<Rightarrow> deletes (getP ni_record p)
     | Some (NamespaceInventory p) \<Rightarrow> deletes (getP nsi_record p)
     | Some (DeploymentInventory p) \<Rightarrow> deletes (getP di_record p)
     | Some (PodInventory p) \<Rightarrow> deletes (getP pi_record p)
     | Some (ContainerInventory p) \<Rightarrow> deletes (getP coi_record p)
     | _ \<Rightarrow> False)"

text \<open>Containers of an earlier state of the pod that are gone.\<close>

definition removed_containers :: "collector_env \<Rightarrow> collector \<Rightarrow> string \<Rightarrow> event list \<Rightarrow> event list" where
  "removed_containers env co uid current =
     (case co_podContainers co uid of None \<Rightarrow> []
      | Some prev \<Rightarrow> map (\<lambda>(k, e). asDelete e) (filter (\<lambda>(k, e). k \<notin> ev_Key ` set current) (ce_iter env prev)))"

definition pod_events :: "collector_env \<Rightarrow> collector \<Rightarrow> k8s_pod \<Rightarrow> inventory_operation \<Rightarrow> event list" where
  "pod_events env co p op =
     (let ns = namespaceUID env (mt_Namespace (pd_meta p));
          cs = build_Containers (\<lambda>i. ce_clock env (Suc i)) p ns op
      in build_Pod (ce_clock env 0) p ns op # cs
         @ (if op = UPSERT then removed_containers env co (mt_UID (pd_meta p)) cs else []))"

text \<open>The texts of the type errors leave out the name of the dynamic type.\<close>

definition change_events :: "collector_env \<Rightarrow> collector \<Rightarrow> change \<Rightarrow> event list result" where
  "change_events env co item =
     (if ch_kind item = ''cluster'' \<or> ch_kind item = ''snapshot''
      then (case ch_object item of ObjEvent e \<Rightarrow> Inr [e] | _ \<Rightarrow> Inl ''unexpected cluster object'')
      else if ch_kind item = ''node''
      then (case ch_object item of ObjNode n \<Rightarrow> Inr [build_Node (ce_clock env 0) n (ch_operation item)] | _ \<Rightarrow> Inl ''unexpected node object'')
      else if ch_kind item = ''namespace''
      then (case ch_object item of ObjNamespace n \<Rightarrow> Inr [build_Namespace (ce_clock env 0) n (ch_operation item)]
            | _ \<Rightarrow> Inl ''unexpected namespace object'')
      else if ch_kind item = ''deployment''
      then (case ch_object item of
              ObjDeployment d \<Rightarrow> Inr [build_Deployment (ce_selector env) (ce_clock env 0) d
                (namespaceUID env (mt_Namespace (dp_meta d))) (ch_operation item)]
            | _ \<Rightarrow> Inl ''unexpected deployment object'')
      else if ch_kind item = ''pod''
      then (case ch_object item of ObjPod p \<Rightarrow> Inr (pod_events env co p (ch_operation item)) | _ \<Rightarrow> Inl ''unexpected pod object'')
      else Inl (''unsupported inventory kind '' @ [CHR 0x22] @ ch_kind item @ [CHR 0x22]))"

definition publish_event :: "collector_env \<Rightarrow> collector \<Rightarrow> event \<Rightarrow> collector \<times> error option" where
  "publish_event env co e = (case ce_publishErr env (co_calls co) of
       Some err \<Rightarrow> (co\<lparr> co_calls := Suc (co_calls co) \<rparr>, Some err)
     | None \<Rightarrow> (co\<lparr> co_calls := Suc (co_calls co), co_published := co_published co @ [e] \<rparr>, None))"

definition publishDelta :: "codec \<Rightarrow> collector_env \<Rightarrow> inventory_operation \<Rightarrow> collector \<Rightarrow> event \<Rightarrow> collector \<times> error option" where
  "publishDelta cd env op co e =
     (if op = DELETE \<or> isDelete e
      then if \<not> Exists (co_cache co) (ev_Key e) then (co, None)
           else case publish_event env co e of
               (co', Some err) \<Rightarrow> (co', Some err)
             | (co', None) \<Rightarrow> (co'\<lparr> co_cache := cache_Delete (co_cache co') (ev_Key e) \<rparr>, None)
      else case Changed cd (co_cache co) e of
          Inl err \<Rightarrow> (co, Some err)
        | Inr (False, fp) \<Rightarrow> (co, None)
        | Inr (True, fp) \<Rightarrow> (case publish_event env co e of
              (co', Some err) \<Rightarrow> (co', Some err)
            | (co', None) \<Rightarrow> (case Commit (co_cache co') (ev_Key e) fp of
                  (cache', err) \<Rightarrow> (co'\<lparr> co_cache := cache' \<rparr>, err))))"

fun publish_deltas :: "codec \<Rightarrow> collector_env \<Rightarrow> inventory_operation \<Rightarrow> event list \<Rightarrow> collector \<Rightarrow> collector \<times> error option" where
  "publish_deltas cd env op [] co = (co, None)"
| "publish_deltas cd env op (e # es) co = (case publishDelta cd env op co e of
       (co', Some err) \<Rightarrow> (co', Some err)
     | (co', None) \<Rightarrow> publish_deltas cd env op es co')"

text \<open>A map literal built by a loop: a later entry of the same key replaces the value.\<close>

definition container_table :: "event list \<Rightarrow> (string \<times> event) list" where
  "container_table es = fold (\<lambda>e. AList.update (ev_Key e) e) (filter (\<lambda>e. \<not> isDelete e) es) []"

definition updatePodContainers :: "change \<Rightarrow> event list \<Rightarrow> collector \<Rightarrow> collector" where
  "updatePodContainers item es co = (case ch_object item of
       ObjPod p \<Rightarrow>
         if ch_operation item = DELETE
         then co\<lparr> co_podContainers := (co_podContainers co)(mt_UID (pd_meta p) := None) \<rparr>
         else co\<lparr> co_podContainers := (co_podContainers co)(mt_UID (pd_meta p) \<mapsto> container_table (tl es)) \<rparr>
     | _ \<Rightarrow> co)"

definition process :: "codec \<Rightarrow> collector_env \<Rightarrow> change \<Rightarrow> collector \<Rightarrow> collector \<times> error option" where
  "process cd env item co = (case change_events env co item of
       Inl err \<Rightarrow> (co, Some err)
     | Inr es \<Rightarrow> (case publish_deltas cd env (ch_operation item) es co of
           (co', Some err) \<Rightarrow> (co', Some err)
         | (co', None) \<Rightarrow> (if ch_kind item = ''pod'' then updatePodContainers item es co' else co', None)))"

text \<open>Informer notifications and the worker's queue.  A failed change waits in \<^verbatim>\<open>cs_delayed\<close> until the rate limiter
  returns it to the queue.\<close>

datatype informer_object = Live k8s_object | DeletedFinalStateUnknown k8s_object

datatype notification = AddFunc informer_object | UpdateFunc informer_object informer_object | DeleteFunc informer_object

definition object_of :: "informer_object \<Rightarrow> k8s_object" where
  "object_of ob = (case ob of Live x \<Rightarrow> x | DeletedFinalStateUnknown _ \<Rightarrow> ObjUnknown)"

definition collector_handler :: "string \<Rightarrow> notification \<Rightarrow> change" where
  "collector_handler kind n = (case n of
       AddFunc ob \<Rightarrow> \<lparr> ch_kind = kind, ch_object = object_of ob, ch_operation = UPSERT \<rparr>
     | UpdateFunc _ ob \<Rightarrow> \<lparr> ch_kind = kind, ch_object = object_of ob, ch_operation = UPSERT \<rparr>
     | DeleteFunc ob \<Rightarrow> \<lparr> ch_kind = kind,
         ch_object = (case ob of Live x \<Rightarrow> x | DeletedFinalStateUnknown x \<Rightarrow> x), ch_operation = DELETE \<rparr>)"

record collector_sys =
  cs_collector :: collector
  cs_queue :: "change list"
  cs_delayed :: "change list"

definition processNext :: "codec \<Rightarrow> collector_env \<Rightarrow> collector_sys \<Rightarrow> collector_sys" where
  "processNext cd env s = (case cs_queue s of
       [] \<Rightarrow> s
     | item # rest \<Rightarrow> (case process cd env item (cs_collector s) of
           (co, Some err) \<Rightarrow> s\<lparr> cs_collector := co, cs_queue := rest, cs_delayed := cs_delayed s @ [item] \<rparr>
         | (co, None) \<Rightarrow> s\<lparr> cs_collector := co, cs_queue := rest \<rparr>))"

text \<open>\<^verbatim>\<open>Start\<close> up to the start of the worker: the changes it queues, with those the informers queue meanwhile.\<close>

record start_env =
  se_registerErr :: "string \<Rightarrow> error option"
  se_nanos :: string
  se_clock :: "nat \<Rightarrow> clock"
  se_now :: gotime
  se_early :: "change list"
  se_synced :: bool
  se_version :: "string result"
  se_kubeSystem :: "k8s_namespace result"
  se_late :: "change list"

fun register_handlers :: "start_env \<Rightarrow> string list \<Rightarrow> error option" where
  "register_handlers env [] = None"
| "register_handlers env (k # ks) = (case se_registerErr env k of
       Some err \<Rightarrow> Some (''register '' @ k @ '' informer: '' @ err)
     | None \<Rightarrow> register_handlers env ks)"

definition collector_Start :: "start_env \<Rightarrow> string \<Rightarrow> change list result" where
  "collector_Start env clusterID = (case register_handlers env [''node'', ''namespace'', ''deployment'', ''pod''] of
       Some err \<Rightarrow> Inl err
     | None \<Rightarrow>
         let snapshotID = clusterID @ ''-'' @ se_nanos env;
             marker = (\<lambda>i phase. \<lparr> ch_kind = ''snapshot'', ch_object = ObjEvent (build_Snapshot (se_clock env i) snapshotID phase),
               ch_operation = UPSERT \<rparr>)
         in if \<not> se_synced env then Inl ''inventory informer cache synchronization failed''
            else case se_version env of
                Inl err \<Rightarrow> Inl (''discover Kubernetes version: '' @ err)
              | Inr version \<Rightarrow> (case se_kubeSystem env of
                    Inl err \<Rightarrow> Inl (''read kube-system namespace: '' @ err)
                  | Inr ns \<Rightarrow> Inr (marker 0 STARTED # se_early env
                      @ \<lparr> ch_kind = ''cluster'', ch_object = ObjEvent (build_Cluster (se_now env) clusterID version ns),
                          ch_operation = UPSERT \<rparr>
                      # se_late env @ [marker 1 COMPLETED])))"

text \<open>What the API server guarantees of its objects: identifiers, and containers named uniquely within their list.\<close>

definition k8s_ok :: "k8s_object \<Rightarrow> bool" where
  "k8s_ok ob = (case ob of
       ObjNode n \<Rightarrow> mt_UID (nd_meta n) \<noteq> []
     | ObjNamespace n \<Rightarrow> mt_UID (nsp_meta n) \<noteq> []
     | ObjDeployment d \<Rightarrow> mt_UID (dp_meta d) \<noteq> []
     | ObjPod p \<Rightarrow> mt_UID (pd_meta p) \<noteq> []
         \<and> [] \<notin> set (map ct_Name (pd_InitContainers p @ pd_Containers p))
         \<and> distinct (map ct_Name (pd_InitContainers p)) \<and> distinct (map ct_Name (pd_Containers p))
     | _ \<Rightarrow> True)"

text \<open>An iteration visits every entry of a map once.\<close>

definition iterates :: "('a list \<Rightarrow> 'a list) \<Rightarrow> bool" where
  "iterates f = (\<forall>xs. mset (f xs) = mset xs)"

definition informer_kinds :: "string list" where
  "informer_kinds = [''node'', ''namespace'', ''deployment'', ''pod'']"

inductive cstep :: "codec \<Rightarrow> collector_sys \<Rightarrow> collector_sys \<Rightarrow> bool" for cd where
  Notify: "kind \<in> set informer_kinds \<Longrightarrow> item = collector_handler kind n \<Longrightarrow> k8s_ok (ch_object item) \<Longrightarrow>
     cstep cd s (s\<lparr> cs_queue := cs_queue s @ [item] \<rparr>)"
| Work: "cs_queue s \<noteq> [] \<Longrightarrow> iterates (ce_iter env) \<Longrightarrow> cstep cd s (processNext cd env s)"
| Retry: "cs_delayed s = xs @ item # ys \<Longrightarrow>
     cstep cd s (s\<lparr> cs_queue := cs_queue s @ [item], cs_delayed := xs @ ys \<rparr>)"

definition collector_init :: "change list \<Rightarrow> collector_sys" where
  "collector_init q = \<lparr> cs_collector = NewCollector, cs_queue = q, cs_delayed = [] \<rparr>"

inductive creach :: "codec \<Rightarrow> change list \<Rightarrow> collector_sys \<Rightarrow> bool" for cd q where
  Start: "creach cd q (collector_init q)"
| Step: "creach cd q s \<Longrightarrow> cstep cd s s' \<Longrightarrow> creach cd q s'"

section \<open>What is published\<close>

definition valid_event :: "event \<Rightarrow> bool" where
  "valid_event e = (event_Validate e = None \<and> validateInventoryObservation (ev_Observation e) = None)"

definition container_event :: "event \<Rightarrow> bool" where
  "container_event e = (case ev_Observation e of
       None \<Rightarrow> False
     | Some o' \<Rightarrow> (case ob_payload o' of
           Some (ContainerInventory (Some ci)) \<Rightarrow>
             coi_pod_uid ci \<noteq> [] \<and> coi_container_name ci \<noteq> [] \<and> ev_Key e \<noteq> [] \<and> hd (ev_Key e) \<noteq> CHR ''p''
         | _ \<Rightarrow> False))"

text \<open>The events of a change that the informers or \<^verbatim>\<open>Start\<close> queue.\<close>

definition change_ok :: "change \<Rightarrow> bool" where
  "change_ok item =
     (k8s_ok (ch_object item)
      \<and> (if ch_kind item \<in> set informer_kinds then ch_operation item \<in> {UPSERT, DELETE}
         else ch_operation item = UPSERT \<and> (\<forall>e. ch_object item = ObjEvent e \<longrightarrow> valid_event e)))"

definition table_ok :: "(string \<times> event) list \<Rightarrow> bool" where
  "table_ok tbl = (distinct (map fst tbl) \<and> (\<forall>(k, e) \<in> set tbl. ev_Key e = k \<and> container_event e))"

definition tables_ok :: "collector \<Rightarrow> bool" where
  "tables_ok co = (\<forall>uid tbl. co_podContainers co uid = Some tbl \<longrightarrow> table_ok tbl)"

text \<open>The state a consumer of the stream has after the events: the latest fingerprint of each live object.\<close>

definition replay_event :: "codec \<Rightarrow> event \<Rightarrow> cache \<Rightarrow> cache" where
  "replay_event cd e m =
     (if isDelete e then m(ev_Key e := None)
      else case Fingerprint cd (ev_Observation e) of Inl _ \<Rightarrow> m | Inr fp \<Rightarrow> m(ev_Key e \<mapsto> fp))"

definition replay :: "codec \<Rightarrow> event list \<Rightarrow> cache" where
  "replay cd es = fold (replay_event cd) es NewCache"

lemma replay_snoc [simp]: "replay cd (es @ [e]) = replay_event cd e (replay cd es)"
  by (simp add: replay_def)

lemma Fingerprint_nonempty: "Fingerprint cd ob = Inr fp \<Longrightarrow> fp \<noteq> []"
proof -
  have "hex_EncodeToString (sha256 d) \<noteq> []" for d
  proof
    assume "hex_EncodeToString (sha256 d) = []"
    hence "hex_EncodeToString (sha256 d) = hex_EncodeToString []" by (simp add: hex_EncodeToString_def)
    hence "sha256 d = []" by simp
    thus False using sha256_length [of d] by simp
  qed
  thus "Fingerprint cd ob = Inr fp \<Longrightarrow> fp \<noteq> []" by (auto simp: Fingerprint_def split: option.splits if_splits)
qed

lemma deletes_record [simp]: "deletes (inventoryRecord op) \<longleftrightarrow> op = DELETE"
  by (simp add: deletes_def inventoryRecord_def getf_def)

lemma record_valid: "op \<in> {UPSERT, DELETE} \<Longrightarrow> validateInventoryRecord (inventoryRecord op) = None"
  by (auto simp: validateInventoryRecord_def inventoryRecord_def getf_def)

lemmas builder_defs = build_Node_def build_Namespace_def build_Deployment_def build_Pod_def build_container_def
  builder_observation_def

lemma isDelete_built [simp]:
  "isDelete (build_Node ck n op) \<longleftrightarrow> op = DELETE"
  "isDelete (build_Namespace ck ns op) \<longleftrightarrow> op = DELETE"
  "isDelete (build_Deployment sel ck d u op) \<longleftrightarrow> op = DELETE"
  "isDelete (build_Pod ck p u op) \<longleftrightarrow> op = DELETE"
  "isDelete (build_container ck p c st u ow i op) \<longleftrightarrow> op = DELETE"
  by (simp_all add: isDelete_def builder_defs Let_def split: prod.split)

lemma valid_built:
  assumes "op \<in> {UPSERT, DELETE}"
  shows "mt_UID (nd_meta n) \<noteq> [] \<Longrightarrow> valid_event (build_Node ck n op)"
    and "mt_UID (nsp_meta ns) \<noteq> [] \<Longrightarrow> valid_event (build_Namespace ck ns op)"
    and "mt_UID (dp_meta d) \<noteq> [] \<Longrightarrow> valid_event (build_Deployment sel ck d u op)"
    and "mt_UID (pd_meta p) \<noteq> [] \<Longrightarrow> valid_event (build_Pod ck p u op)"
  using record_valid [OF assms]
  by (simp_all add: valid_event_def event_Validate_def validateInventoryObservation_def builder_defs Let_def record_then_def
      metadata_def split: prod.split)

lemma container_eventE:
  assumes "container_event e"
  obtains o' ci where "ev_Observation e = Some o'" "ob_payload o' = Some (ContainerInventory (Some ci))"
    "coi_pod_uid ci \<noteq> []" "coi_container_name ci \<noteq> []" "ev_Key e \<noteq> []" "hd (ev_Key e) \<noteq> CHR ''p''"
  using assms by (force simp: container_event_def split: option.splits payload.splits)

lemma container_event_valid:
  assumes "container_event e"
  shows "container_event (asDelete e)" and "valid_event (asDelete e)" and "isDelete (asDelete e)"
    and "ev_Key (asDelete e) = ev_Key e"
proof -
  obtain o' ci where c: "ev_Observation e = Some o'" "ob_payload o' = Some (ContainerInventory (Some ci))"
    "coi_pod_uid ci \<noteq> []" "coi_container_name ci \<noteq> []" "ev_Key e \<noteq> []" "hd (ev_Key e) \<noteq> CHR ''p''"
    using assms by (rule container_eventE)
  show "ev_Key (asDelete e) = ev_Key e" using c(1,2) by (simp add: asDelete_def)
  show "isDelete (asDelete e)" using c(1,2) by (simp add: asDelete_def isDelete_def)
  show "container_event (asDelete e)" using c by (simp add: asDelete_def container_event_def)
  show "valid_event (asDelete e)" using c record_valid [of DELETE]
    by (simp add: asDelete_def valid_event_def event_Validate_def validateInventoryObservation_def record_then_def)
qed

lemma container_built:
  assumes "mt_UID (pd_meta p) \<noteq> []" "ct_Name c \<noteq> []"
  shows "container_event (build_container ck p c st u ow i op)"
    and "op \<in> {UPSERT, DELETE} \<Longrightarrow> valid_event (build_container ck p c st u ow i op)"
  using assms record_valid [of op]
  by (auto simp: container_event_def build_container_def builder_observation_def valid_event_def event_Validate_def
      validateInventoryObservation_def record_then_def split: prod.split)

lemma update_entries: "set (AList.update k v tbl) \<subseteq> insert (k, v) (set tbl)"
  by (induction tbl) auto

lemma container_table_ok:
  assumes "\<forall>e \<in> set es. container_event e"
  shows "table_ok (container_table es)"
proof -
  have "table_ok tbl \<Longrightarrow> \<forall>e \<in> set xs. container_event e \<Longrightarrow> table_ok (fold (\<lambda>e. AList.update (ev_Key e) e) xs tbl)" for xs tbl
  proof (induction xs arbitrary: tbl)
    case (Cons x xs)
    have "table_ok (AList.update (ev_Key x) x tbl)"
      using Cons.prems update_entries [of "ev_Key x" x tbl]
      by (auto simp: table_ok_def distinct_update)
    thus ?case using Cons by simp
  qed simp
  from this [of "[]" "filter (\<lambda>e. \<not> isDelete e) es"] show ?thesis
    using assms by (simp add: container_table_def table_ok_def [of "[]"])
qed

lemma container_table_keys: "fst ` set (container_table es) = ev_Key ` {e \<in> set es. \<not> isDelete e}"
proof -
  have "fst ` set (fold (\<lambda>e. AList.update (ev_Key e) e) xs tbl) = fst ` set tbl \<union> ev_Key ` set xs"
    for xs :: "event list" and tbl
    by (induction xs arbitrary: tbl) (auto simp: dom_update)
  from this [of "filter (\<lambda>e. \<not> isDelete e) es" "[]"] show ?thesis by (simp add: container_table_def)
qed

lemma enumerate_member: "(i, x) \<in> set (enumerate n xs) \<Longrightarrow> x \<in> set xs"
  by (induction xs arbitrary: n) auto

lemma build_Containers_set:
  "e \<in> set (build_Containers cks p ns op) \<Longrightarrow>
     \<exists>ck c st ow i. c \<in> set (pd_InitContainers p @ pd_Containers p) \<and> e = build_container ck p c st ns ow i op"
proof -
  assume "e \<in> set (build_Containers cks p ns op)"
  then obtain i init c where e: "(i, init, c) \<in> set (enumerate 0 (map (Pair True) (pd_InitContainers p) @ map (Pair False) (pd_Containers p)))"
      "e = build_container (cks i) p c (status_of p (ct_Name c)) ns (workloadOwner (mt_OwnerReferences (pd_meta p))) init op"
    by (auto simp: build_Containers_def Let_def)
  have "(init, c) \<in> set (map (Pair True) (pd_InitContainers p) @ map (Pair False) (pd_Containers p))"
    using e(1) by (rule enumerate_member)
  hence "c \<in> set (pd_InitContainers p @ pd_Containers p)" by auto
  thus ?thesis using e(2) by blast
qed

lemma removed_containers_set:
  assumes "tables_ok co" "iterates (ce_iter env)" "e \<in> set (removed_containers env co uid cs)"
  shows "container_event e \<and> valid_event e \<and> isDelete e \<and> ev_Key e \<notin> ev_Key ` set cs"
proof -
  obtain prev k e0 where p: "co_podContainers co uid = Some prev" "(k, e0) \<in> set (ce_iter env prev)"
      "e = asDelete e0" "k \<notin> ev_Key ` set cs"
    using assms(3) by (cases "co_podContainers co uid") (auto simp: removed_containers_def)
  have "set (ce_iter env prev) = set prev" using assms(2) by (metis iterates_def set_mset_mset)
  hence "(k, e0) \<in> set prev" using p(2) by simp
  moreover have "table_ok prev" using assms(1) p(1) by (auto simp: tables_ok_def)
  ultimately have "ev_Key e0 = k" "container_event e0" by (auto simp: table_ok_def)
  thus ?thesis using p(3,4) container_event_valid [of e0] by simp
qed

lemma pod_events_ok:
  assumes "tables_ok co" "iterates (ce_iter env)" "k8s_ok (ObjPod p)" "op \<in> {UPSERT, DELETE}"
  shows "\<forall>e \<in> set (pod_events env co p op). valid_event e \<and> (op = DELETE \<longrightarrow> isDelete e)"
    and "\<forall>e \<in> set (tl (pod_events env co p op)). container_event e"
proof -
  have c: "container_event e \<and> valid_event e \<and> (op = DELETE \<longrightarrow> isDelete e)"
    if "e \<in> set (build_Containers cks p ns op)" for e cks ns
  proof -
    note m = that
    obtain ck c st ow i where e: "c \<in> set (pd_InitContainers p @ pd_Containers p)" "e = build_container ck p c st ns ow i op"
      using build_Containers_set [OF m] by blast
    have "[] \<notin> set (map ct_Name (pd_InitContainers p @ pd_Containers p))" using assms(3) by (simp add: k8s_ok_def)
    hence "ct_Name c \<noteq> []" using e(1) by (metis in_set_conv_nth length_map nth_map)
    thus ?thesis using container_built [of p c] assms(3,4) e(2) by (simp add: k8s_ok_def)
  qed
  have "valid_event (build_Pod ck p ns op)" for ck ns using valid_built(4) [OF assms(4)] assms(3) by (simp add: k8s_ok_def)
  thus "\<forall>e \<in> set (pod_events env co p op). valid_event e \<and> (op = DELETE \<longrightarrow> isDelete e)"
    using c removed_containers_set [OF assms(1,2)] by (auto simp: pod_events_def Let_def)
  show "\<forall>e \<in> set (tl (pod_events env co p op)). container_event e"
    using c removed_containers_set [OF assms(1,2)] by (auto simp: pod_events_def Let_def)
qed

lemma informer_kinds_cases:
  assumes "k \<in> set informer_kinds"
  obtains "k = ''node''" | "k = ''namespace''" | "k = ''deployment''" | "k = ''pod''"
  using assms by (auto simp: informer_kinds_def)

lemma change_events_ok:
  assumes "tables_ok co" "iterates (ce_iter env)" "change_ok item" "change_events env co item = Inr es" "e \<in> set es"
  shows "valid_event e \<and> (ch_operation item = DELETE \<longrightarrow> isDelete e)"
proof (cases "ch_kind item \<in> set informer_kinds")
  case True
  hence o: "ch_operation item \<in> {UPSERT, DELETE}" "k8s_ok (ch_object item)" using assms(3) by (simp_all add: change_ok_def)
  from True show ?thesis
  proof (cases rule: informer_kinds_cases)
    case 4
    then obtain p where p: "ch_object item = ObjPod p" "es = pod_events env co p (ch_operation item)"
      using assms(4) by (simp add: change_events_def split: k8s_object.splits)
    show ?thesis using pod_events_ok(1) [OF assms(1,2), of p "ch_operation item"] o p assms(5) by metis
  next
    case 1
    then obtain n where "ch_object item = ObjNode n" "e = build_Node (ce_clock env 0) n (ch_operation item)"
      using assms(4,5) by (auto simp: change_events_def split: k8s_object.splits)
    thus ?thesis using valid_built(1) [OF o(1)] o(2) by (simp add: k8s_ok_def)
  next
    case 2
    then obtain n where "ch_object item = ObjNamespace n" "e = build_Namespace (ce_clock env 0) n (ch_operation item)"
      using assms(4,5) by (auto simp: change_events_def split: k8s_object.splits)
    thus ?thesis using valid_built(2) [OF o(1)] o(2) by (simp add: k8s_ok_def)
  next
    case 3
    then obtain d u where "ch_object item = ObjDeployment d"
        "e = build_Deployment (ce_selector env) (ce_clock env 0) d u (ch_operation item)"
      using assms(4,5) by (auto simp: change_events_def split: k8s_object.splits)
    thus ?thesis using valid_built(3) [OF o(1)] o(2) by (simp add: k8s_ok_def)
  qed
next
  case False
  hence "ch_kind item \<noteq> ''node''" "ch_kind item \<noteq> ''namespace''" "ch_kind item \<noteq> ''deployment''" "ch_kind item \<noteq> ''pod''"
    by (simp_all add: informer_kinds_def)
  then obtain x where "ch_object item = ObjEvent x" "es = [x]" using assms(4)
    by (simp add: change_events_def split: if_splits k8s_object.splits)
  hence "ch_object item = ObjEvent e" using assms(5) by simp
  thus ?thesis using assms(3) False by (simp add: change_ok_def)
qed

lemma publishDelta_delete:
  assumes "op = DELETE \<or> isDelete e" "publishDelta cd env op co e = (co', r)"
  shows "co_podContainers co' = co_podContainers co \<and>
     (co_published co' = co_published co \<and> co_cache co' = co_cache co \<and> (r = None \<longrightarrow> co_cache co (ev_Key e) = None)
      \<or> r = None \<and> co_published co' = co_published co @ [e] \<and> co_cache co' = (co_cache co)(ev_Key e := None))"
  using assms by (cases "Exists (co_cache co) (ev_Key e)"; cases "ce_publishErr env (co_calls co)")
    (auto simp: publishDelta_def publish_event_def cache_Delete_def Exists_def)

lemma publishDelta_upsert:
  assumes "\<not> (op = DELETE \<or> isDelete e)" "publishDelta cd env op co e = (co', r)"
  shows "co_podContainers co' = co_podContainers co \<and>
     (co_published co' = co_published co \<and> co_cache co' = co_cache co
        \<and> (r = None \<longrightarrow> (\<exists>fp. Changed cd (co_cache co) e = Inr (False, fp)))
      \<or> r = None \<and> co_published co' = co_published co @ [e]
        \<and> (\<exists>fp. Changed cd (co_cache co) e = Inr (True, fp) \<and> Fingerprint cd (ev_Observation e) = Inr fp
             \<and> co_cache co' = (co_cache co)(ev_Key e \<mapsto> fp)))"
proof (cases "Changed cd (co_cache co) e")
  case (Inl err)
  thus ?thesis using assms by (auto simp: publishDelta_def)
next
  case (Inr cf)
  obtain ch fp where cf: "cf = (ch, fp)" by fastforce
  have f: "ev_Key e \<noteq> []" "Fingerprint cd (ev_Observation e) = Inr fp"
    using Inr cf by (auto simp: Changed_def event_Validate_def split: if_splits sum.splits)
  show ?thesis using assms Inr cf f Fingerprint_nonempty [OF f(2)]
    by (cases ch; cases "ce_publishErr env (co_calls co)") (auto simp: publishDelta_def publish_event_def Commit_def dest!: sym [of "Some _"])
qed

definition published_ok :: "codec \<Rightarrow> collector \<Rightarrow> bool" where
  "published_ok cd co = (co_cache co = replay cd (co_published co) \<and> (\<forall>e \<in> set (co_published co). valid_event e))"

lemma publishDelta_inv:
  assumes "publishDelta cd env op co e = (co', r)" "published_ok cd co" "valid_event e" "op = DELETE \<longrightarrow> isDelete e"
  shows "published_ok cd co' \<and> co_podContainers co' = co_podContainers co"
proof (cases "op = DELETE \<or> isDelete e")
  case True
  hence "isDelete e" using assms(4) by auto
  thus ?thesis using publishDelta_delete [OF True assms(1)] assms(2,3) by (auto simp: published_ok_def replay_event_def)
next
  case False
  show ?thesis using publishDelta_upsert [OF False assms(1)] assms(2,3) False
    by (auto simp: published_ok_def replay_event_def)
qed

lemma publish_deltas_inv:
  assumes "publish_deltas cd env op es co = (co', r)" "published_ok cd co" "\<forall>e \<in> set es. valid_event e \<and> (op = DELETE \<longrightarrow> isDelete e)"
  shows "published_ok cd co' \<and> co_podContainers co' = co_podContainers co"
  using assms
proof (induction es arbitrary: co)
  case (Cons e es)
  obtain c1 r1 where d: "publishDelta cd env op co e = (c1, r1)" by fastforce
  have c1: "published_ok cd c1 \<and> co_podContainers c1 = co_podContainers co"
    using publishDelta_inv [OF d] Cons.prems(2,3) by simp
  show ?case
  proof (cases r1)
    case None
    thus ?thesis using Cons.IH [of c1] Cons.prems d c1 by simp
  next
    case (Some err)
    thus ?thesis using Cons.prems(1) d c1 by simp
  qed
qed simp

lemma process_inv:
  assumes "process cd env item co = (co', r)" "iterates (ce_iter env)" "change_ok item" "published_ok cd co" "tables_ok co"
  shows "published_ok cd co' \<and> tables_ok co'"
proof (cases "change_events env co item")
  case (Inl err)
  thus ?thesis using assms(1,4,5) by (simp add: process_def)
next
  case (Inr es)
  obtain c1 r1 where d: "publish_deltas cd env (ch_operation item) es co = (c1, r1)" by fastforce
  have c1: "published_ok cd c1" "tables_ok c1"
    using publish_deltas_inv [OF d assms(4)] change_events_ok [OF assms(5,2,3) Inr] assms(5) by (auto simp: tables_ok_def)
  have p: "tables_ok (updatePodContainers item es c1)" if k: "ch_kind item = ''pod''"
  proof -
    obtain p where p: "ch_object item = ObjPod p" "es = pod_events env co p (ch_operation item)"
      using Inr k by (simp add: change_events_def split: k8s_object.splits)
    have "''pod'' \<in> set informer_kinds" by (simp add: informer_kinds_def)
    hence "ch_operation item \<in> {UPSERT, DELETE}" "k8s_ok (ObjPod p)" using assms(3) k p(1) by (simp_all add: change_ok_def)
    hence "table_ok (container_table (tl es))"
      using container_table_ok pod_events_ok(2) [OF assms(5,2)] p(2) by simp
    thus ?thesis using c1(2) p(1) by (simp add: updatePodContainers_def tables_ok_def)
  qed
  have "published_ok cd (updatePodContainers item es c1)"
    using c1(1) by (simp add: updatePodContainers_def published_ok_def split: k8s_object.splits)
  thus ?thesis using assms(1) Inr d c1 p by (auto simp: process_def split: option.splits if_splits)
qed

lemma processNext_fields:
  assumes "cs_queue s = item # rest" "process cd env item (cs_collector s) = (co, r)"
  shows "cs_collector (processNext cd env s) = co" "cs_queue (processNext cd env s) = rest"
    "set (cs_delayed (processNext cd env s)) \<subseteq> insert item (set (cs_delayed s))"
  using assms by (auto simp: processNext_def split: option.splits)

definition collector_inv :: "codec \<Rightarrow> collector_sys \<Rightarrow> bool" where
  "collector_inv cd s =
     (published_ok cd (cs_collector s) \<and> tables_ok (cs_collector s)
      \<and> (\<forall>item \<in> set (cs_queue s) \<union> set (cs_delayed s). change_ok item))"

lemma handler_ok:
  assumes "kind \<in> set informer_kinds" "item = collector_handler kind n" "k8s_ok (ch_object item)"
  shows "change_ok item"
  using assms by (cases n) (simp_all add: change_ok_def collector_handler_def)

lemma cstep_inv:
  assumes "cstep cd s s'" "collector_inv cd s" shows "collector_inv cd s'"
  using assms(1)
proof cases
  case (Notify kind item n)
  thus ?thesis using assms(2) handler_ok [OF Notify(2-4)] by (auto simp: collector_inv_def)
next
  case (Work env)
  then obtain item rest where q: "cs_queue s = item # rest" by (cases "cs_queue s") auto
  obtain co r where p: "process cd env item (cs_collector s) = (co, r)" by fastforce
  have "published_ok cd co \<and> tables_ok co"
    using process_inv [OF p] Work assms(2) q by (simp add: collector_inv_def)
  thus ?thesis using processNext_fields [OF q p] assms(2) q Work(1) by (auto simp: collector_inv_def)
next
  case (Retry xs item ys)
  thus ?thesis using assms(2) by (auto simp: collector_inv_def)
qed

lemma creach_inv:
  assumes "creach cd q s" "\<forall>item \<in> set q. change_ok item" shows "collector_inv cd s"
  using assms(1)
proof induction
  case Start
  show ?case using assms(2)
    by (simp add: collector_inv_def collector_init_def NewCollector_def published_ok_def tables_ok_def replay_def)
next
  case (Step s s')
  thus ?case using cstep_inv by blast
qed

section \<open>Resynchronisation\<close>

text \<open>What \<^verbatim>\<open>publishDelta\<close> leaves nothing to do for.\<close>

definition settled :: "codec \<Rightarrow> inventory_operation \<Rightarrow> cache \<Rightarrow> event \<Rightarrow> bool" where
  "settled cd op m e =
     (if op = DELETE \<or> isDelete e then m (ev_Key e) = None
      else \<exists>fp. event_Validate e = None \<and> Fingerprint cd (ev_Observation e) = Inr fp \<and> m (ev_Key e) = Some fp)"

definition same_content :: "event \<Rightarrow> event \<Rightarrow> bool" where
  "same_content a b = (ev_Key a = ev_Key b \<and> (\<exists>o' o''. ev_Observation a = Some o' \<and> ev_Observation b = Some o'' \<and> ob_payload o' = ob_payload o''))"

lemma Fingerprint_same: "ob_payload a = ob_payload b \<Longrightarrow> Fingerprint cd (Some a) = Fingerprint cd (Some b)"
  by (cases a; cases b) (simp add: Fingerprint_def)

lemma settled_same:
  assumes "same_content a b" shows "settled cd op m a = settled cd op m b"
proof -
  obtain o' o'' where o: "ev_Key a = ev_Key b" "ev_Observation a = Some o'" "ev_Observation b = Some o''" "ob_payload o' = ob_payload o''"
    using assms by (auto simp: same_content_def)
  show ?thesis using o Fingerprint_same [OF o(4), of cd] by (simp add: settled_def isDelete_def event_Validate_def)
qed

lemma publishDelta_quiet: "settled cd op (co_cache co) e \<Longrightarrow> publishDelta cd env op co e = (co, None)"
  by (auto simp: settled_def publishDelta_def Exists_def Changed_def split: if_splits)

lemma publish_deltas_quiet:
  "\<forall>e \<in> set es. settled cd op (co_cache co) e \<Longrightarrow> publish_deltas cd env op es co = (co, None)"
  by (induction es) (simp_all add: publishDelta_quiet)

lemma publishDelta_settles:
  assumes "publishDelta cd env op co e = (co', None)"
  shows "settled cd op (co_cache co') e" "ev_Key x \<noteq> ev_Key e \<Longrightarrow> settled cd op (co_cache co') x = settled cd op (co_cache co) x"
proof -
  have "settled cd op (co_cache co') e \<and> (\<forall>k. k \<noteq> ev_Key e \<longrightarrow> co_cache co' k = co_cache co k)"
  proof (cases "op = DELETE \<or> isDelete e")
    case True
    thus ?thesis using publishDelta_delete [OF True assms] by (auto simp: settled_def)
  next
    case False
    thus ?thesis using publishDelta_upsert [OF False assms] 
      by (auto simp: settled_def Changed_def split: option.splits sum.splits)
  qed
  thus "settled cd op (co_cache co') e" "ev_Key x \<noteq> ev_Key e \<Longrightarrow> settled cd op (co_cache co') x = settled cd op (co_cache co) x"
    by (auto simp: settled_def)
qed

lemma publish_deltas_settle:
  assumes "publish_deltas cd env op es co = (co', None)" "distinct (map ev_Key es)"
  shows "(\<forall>e \<in> set es. settled cd op (co_cache co') e)
    \<and> (\<forall>x. ev_Key x \<notin> ev_Key ` set es \<longrightarrow> settled cd op (co_cache co') x = settled cd op (co_cache co) x)"
  using assms
proof (induction es arbitrary: co)
  case (Cons e es)
  obtain c1 r1 where d0: "publishDelta cd env op co e = (c1, r1)" by fastforce
  hence d: "publishDelta cd env op co e = (c1, None)" "publish_deltas cd env op es c1 = (co', None)"
    using Cons.prems(1) by (auto split: option.splits)
  have k: "ev_Key e \<notin> ev_Key ` set es" "distinct (map ev_Key es)" using Cons.prems(2) by auto
  show ?case using Cons.IH [OF d(2) k(2)] publishDelta_settles [OF d(1)] k(1) by simp
qed simp

lemma built_same:
  "same_content (build_Node ck n op) (build_Node ck' n op)"
  "same_content (build_Namespace ck ns op) (build_Namespace ck' ns op)"
  "same_content (build_Deployment sel ck d u op) (build_Deployment sel ck' d u op)"
  "same_content (build_Pod ck p u op) (build_Pod ck' p u op)"
  "same_content (build_container ck p c st u ow i op) (build_container ck' p c st u ow i op)"
  by (simp_all add: same_content_def builder_defs Let_def split: prod.split)

lemma containers_same: "list_all2 same_content (build_Containers cks p u op) (build_Containers cks' p u op)"
  by (auto simp: build_Containers_def Let_def list.rel_map built_same intro!: list.rel_refl_strong)

lemma settled_list:
  "list_all2 same_content es es' \<Longrightarrow> \<forall>e \<in> set es. settled cd op m e \<Longrightarrow> \<forall>e \<in> set es'. settled cd op m e"
  by (induction rule: list_all2_induct) (auto simp: settled_same)

lemma built_keys:
  "ev_Key (build_container ck p c st u ow i op) =
     (if i then ''init-container'' else ''container'') @ ''/'' @ mt_UID (pd_meta p) @ ''/'' @ ct_Name c"
  "ev_Key (build_Pod ck p u op) = ''pod/'' @ mt_UID (pd_meta p)"
  by (simp_all add: build_container_def build_Pod_def split: prod.split)

lemma map_enumerate: "map (\<lambda>(i, x). f x) (enumerate n xs) = map f xs"
  by (induction xs arbitrary: n) auto

lemma containers_distinct:
  assumes "k8s_ok (ObjPod p)"
  shows "distinct (map ev_Key (build_Containers cks p u op))"
proof -
  let ?key = "\<lambda>(i, c). (if i then ''init-container'' else ''container'') @ ''/'' @ mt_UID (pd_meta p) @ ''/'' @ ct_Name c"
  let ?cs = "map (Pair True) (pd_InitContainers p) @ map (Pair False) (pd_Containers p)"
  have "map ev_Key (build_Containers cks p u op) = map (\<lambda>(i, x). ?key x) (enumerate 0 ?cs)"
    by (auto simp: build_Containers_def Let_def built_keys)
  hence "map ev_Key (build_Containers cks p u op) = map ?key ?cs" by (simp only: map_enumerate)
  moreover have "distinct (map ?key (map (Pair True) (pd_InitContainers p)))" "distinct (map ?key (map (Pair False) (pd_Containers p)))"
    using assms by (auto simp: k8s_ok_def distinct_map inj_on_def comp_def)
  ultimately show ?thesis by auto
qed

lemma removed_distinct:
  assumes "tables_ok co" "iterates (ce_iter env)"
  shows "distinct (map ev_Key (removed_containers env co uid cs))"
proof (cases "co_podContainers co uid")
  case (Some prev)
  have t: "table_ok prev" using assms(1) Some by (simp add: tables_ok_def)
  have m: "mset (ce_iter env prev) = mset prev" using assms(2) by (simp add: iterates_def)
  have "mset (map fst (ce_iter env prev)) = mset (map fst prev)" using m by simp
  hence d: "distinct (map fst (ce_iter env prev))" using t unfolding table_ok_def by (metis mset_eq_imp_distinct_iff)
  have "ev_Key (asDelete e) = k" if "(k, e) \<in> set (ce_iter env prev)" for k e
    using that t mset_eq_setD [OF m] container_event_valid(4) [of e] by (auto simp: table_ok_def)
  hence "map ev_Key (removed_containers env co uid cs) = map fst (filter (\<lambda>(k, e). k \<notin> ev_Key ` set cs) (ce_iter env prev))"
    using Some by (auto simp: removed_containers_def)
  thus ?thesis using d by (simp add: distinct_map_filter)
qed (simp add: removed_containers_def)

lemma disjoint_images: "(\<And>x. x \<in> B \<Longrightarrow> f x \<notin> f ` A) \<Longrightarrow> f ` A \<inter> f ` B = {}"
  by (auto, metis image_eqI)

lemma pod_events_distinct:
  assumes "tables_ok co" "iterates (ce_iter env)" "k8s_ok (ObjPod p)"
  shows "distinct (map ev_Key (pod_events env co p op))"
proof -
  let ?ns = "namespaceUID env (mt_Namespace (pd_meta p))"
  let ?cs = "build_Containers (\<lambda>i. ce_clock env (Suc i)) p ?ns op"
  let ?rs = "if op = UPSERT then removed_containers env co (mt_UID (pd_meta p)) ?cs else []"
  have "distinct (map ev_Key ?rs)" using removed_distinct [OF assms(1,2)] by simp
  moreover have "set (map ev_Key ?cs) \<inter> set (map ev_Key ?rs) = {}"
  proof -
    have "ev_Key e \<notin> ev_Key ` set ?cs" if e: "e \<in> set ?rs" for e
      using removed_containers_set [OF assms(1,2), of e] e by (cases "op = UPSERT") simp_all
    thus ?thesis unfolding list.set_map by (rule disjoint_images)
  qed
  moreover have "hd k \<noteq> CHR ''p''" if "k \<in> set (map ev_Key (?cs @ ?rs))" for k
  proof -
    have "hd (ev_Key e) \<noteq> CHR ''p''" if e: "e \<in> set ?cs" for e
    proof -
      obtain ck c st ow i where "e = build_container ck p c st ?ns ow i op" using build_Containers_set [OF e] by blast
      thus ?thesis by (simp add: built_keys)
    qed
    moreover have "hd (ev_Key e) \<noteq> CHR ''p''" if e: "e \<in> set ?rs" for e
      using removed_containers_set [OF assms(1,2), of e] e by (auto elim: container_eventE split: if_splits)
    ultimately show ?thesis using that by auto
  qed
  moreover have "hd (ev_Key (build_Pod (ce_clock env 0) p ?ns op)) = CHR ''p''" by (simp add: built_keys)
  ultimately have "ev_Key (build_Pod (ce_clock env 0) p ?ns op) \<notin> set (map ev_Key (?cs @ ?rs))" "distinct (map ev_Key (?cs @ ?rs))"
    using containers_distinct [OF assms(3)] by (metis, simp)
  thus ?thesis by (simp add: pod_events_def Let_def)
qed

text \<open>The second processing of a change finds the same contents, and no container to remove.\<close>

lemma pod_events_again:
  assumes "tables_ok co" "iterates (ce_iter env)" "iterates (ce_iter env')" "k8s_ok (ObjPod p)" "op \<in> {UPSERT, DELETE}"
    "namespaceUID env' (mt_Namespace (pd_meta p)) = namespaceUID env (mt_Namespace (pd_meta p))"
    "op = UPSERT \<Longrightarrow> co_podContainers co' (mt_UID (pd_meta p)) = Some (container_table (tl (pod_events env co p op)))"
    "\<forall>e \<in> set (pod_events env co p op). settled cd op m e"
  shows "\<forall>e \<in> set (pod_events env' co' p op). settled cd op m e"
proof -
  let ?ns = "namespaceUID env (mt_Namespace (pd_meta p))"
  let ?cs = "build_Containers (\<lambda>i. ce_clock env (Suc i)) p ?ns op"
  let ?cs' = "build_Containers (\<lambda>i. ce_clock env' (Suc i)) p ?ns op"
  have k: "ev_Key ` set ?cs = ev_Key ` set ?cs'"
  proof -
    have "map ev_Key ?cs = map ev_Key ?cs'"
      using containers_same by (rule list_all2_induct) (auto simp: same_content_def)
    thus ?thesis by (metis list.set_map)
  qed
  have "removed_containers env' co' (mt_UID (pd_meta p)) ?cs' = []" if u: "op = UPSERT"
  proof -
    let ?t = "container_table (tl (pod_events env co p op))"
    have "fst ` set ?t \<subseteq> ev_Key ` set ?cs"
      using removed_containers_set [OF assms(1,2)] by (auto simp: container_table_keys pod_events_def Let_def split: if_splits)
    moreover have "set (ce_iter env' ?t) = set ?t" using assms(3) by (metis iterates_def set_mset_mset)
    ultimately have "\<forall>(k, e) \<in> set (ce_iter env' ?t). k \<in> ev_Key ` set ?cs'" using k by force
    thus ?thesis using assms(7) [OF u] by (auto simp: removed_containers_def filter_empty_conv)
  qed
  hence "pod_events env' co' p op = build_Pod (ce_clock env' 0) p ?ns op # ?cs'"
    using assms(6) by (simp add: pod_events_def Let_def)
  moreover have "list_all2 same_content (build_Pod (ce_clock env 0) p ?ns op # ?cs) (build_Pod (ce_clock env' 0) p ?ns op # ?cs')"
    using built_same(4) containers_same by simp
  moreover have "\<forall>e \<in> set (build_Pod (ce_clock env 0) p ?ns op # ?cs). settled cd op m e"
    using assms(8) by (simp add: pod_events_def Let_def)
  ultimately show ?thesis using settled_list by metis
qed

lemma change_events_single:
  assumes "ch_kind item \<noteq> ''pod''" "change_events env co item = Inr es"
    "ce_namespaces env' = ce_namespaces env" "ce_selector env' = ce_selector env" 
  shows "\<exists>e e'. es = [e] \<and> change_events env' co' item = Inr [e'] \<and> (same_content e e' \<or> e = e')"
  using assms built_same
  by (auto simp: change_events_def namespaceUID_def split: if_splits k8s_object.splits)

lemma process_again:
  assumes "process cd env item co = (co', None)" "tables_ok co" "change_ok item" "iterates (ce_iter env)" "iterates (ce_iter env')"
    "ce_namespaces env' = ce_namespaces env" "ce_selector env' = ce_selector env"
  shows "\<exists>co''. process cd env' item co' = (co'', None) \<and> co_published co'' = co_published co' \<and> co_cache co'' = co_cache co'"
proof -
  obtain es where es: "change_events env co item = Inr es" using assms(1) by (cases "change_events env co item") (auto simp: process_def)
  obtain c1 where c1: "publish_deltas cd env (ch_operation item) es co = (c1, None)"
      "co' = (if ch_kind item = ''pod'' then updatePodContainers item es c1 else c1)"
    using assms(1) es by (auto simp: process_def split: prod.splits option.splits)
  have up: "co_published (updatePodContainers item xs c) = co_published c \<and> co_cache (updatePodContainers item xs c) = co_cache c" for xs c
    by (simp add: updatePodContainers_def split: k8s_object.splits)
  have cache: "co_cache c1 = co_cache co'" using c1(2) up by simp
  have "\<exists>es'. change_events env' co' item = Inr es' \<and> (\<forall>e \<in> set es'. settled cd (ch_operation item) (co_cache co') e)"
  proof (cases "ch_kind item = ''pod''")
    case True
    obtain p where p: "ch_object item = ObjPod p" "es = pod_events env co p (ch_operation item)"
      using es True by (simp add: change_events_def split: k8s_object.splits)
    have "''pod'' \<in> set informer_kinds" by (simp add: informer_kinds_def)
    hence ok: "k8s_ok (ObjPod p)" "ch_operation item \<in> {UPSERT, DELETE}" using assms(3) p(1) True by (simp_all add: change_ok_def)
    have "\<forall>e \<in> set es. settled cd (ch_operation item) (co_cache co') e"
      using publish_deltas_settle [OF c1(1)] pod_events_distinct [OF assms(2,4) ok(1)] p(2) cache by simp
    moreover have "ch_operation item = UPSERT \<Longrightarrow> co_podContainers co' (mt_UID (pd_meta p)) = Some (container_table (tl es))"
      using c1(2) True p(1) by (simp add: updatePodContainers_def)
    ultimately have "\<forall>e \<in> set (pod_events env' co' p (ch_operation item)). settled cd (ch_operation item) (co_cache co') e"
      using pod_events_again [OF assms(2,4,5) ok, of co' cd "co_cache co'"] p(2) assms(6) by (simp add: namespaceUID_def)
    thus ?thesis using True p(1) by (simp add: change_events_def)
  next
    case False
    obtain e e' where e: "es = [e]" "change_events env' co' item = Inr [e']" "same_content e e' \<or> e = e'"
      using change_events_single [OF False es assms(6,7)] by blast
    have "settled cd (ch_operation item) (co_cache co') e"
      using publish_deltas_settle [OF c1(1)] e(1) cache by simp
    thus ?thesis using e(2,3) settled_same by auto
  qed
  thus ?thesis using publish_deltas_quiet up by (auto simp: process_def)
qed

lemma start_changes_ok:
  assumes "collector_Start env clusterID = Inr q" "\<forall>item \<in> set (se_early env @ se_late env). change_ok item"
  shows "\<forall>item \<in> set q. change_ok item"
proof -
  have m: "valid_event (build_Snapshot ck i ph)" "valid_event (build_Cluster t c v ns)" for ck i ph t c v ns
    using record_valid [of UPSERT]
    by (simp_all add: valid_event_def event_Validate_def build_Snapshot_def build_Cluster_def builder_observation_def
        validateInventoryObservation_def)
  have "''snapshot'' \<notin> set informer_kinds" "''cluster'' \<notin> set informer_kinds" by (simp_all add: informer_kinds_def)
  hence "change_ok \<lparr> ch_kind = ''snapshot'', ch_object = ObjEvent (build_Snapshot ck i ph), ch_operation = UPSERT \<rparr>"
      "change_ok \<lparr> ch_kind = ''cluster'', ch_object = ObjEvent (build_Cluster t c v ns), ch_operation = UPSERT \<rparr>"
    for ck i ph t c v ns using m by (simp_all add: change_ok_def k8s_ok_def)
  moreover have "\<exists>ck ck' i t v ns. q = \<lparr> ch_kind = ''snapshot'', ch_object = ObjEvent (build_Snapshot ck i STARTED), ch_operation = UPSERT \<rparr>
      # se_early env @ \<lparr> ch_kind = ''cluster'', ch_object = ObjEvent (build_Cluster t clusterID v ns), ch_operation = UPSERT \<rparr>
      # se_late env @ [\<lparr> ch_kind = ''snapshot'', ch_object = ObjEvent (build_Snapshot ck' i COMPLETED), ch_operation = UPSERT \<rparr>]"
    using assms(1) unfolding collector_Start_def Let_def
    by (simp del: register_handlers.simps split: option.splits if_splits sum.splits) blast
  ultimately show ?thesis using assms(2) by auto
qed

text \<open>C10: The collector's cache is what a consumer of the published stream would hold: in every reachable state,
  whatever publications fail and are retried and in whatever order, it maps exactly the objects that the events
  leave alive to the fingerprints of their latest events; and every event ever published passes the agent's own
  validation and the ingestion server's validation of inventory observations.\<close>
theorem inventory_stream_mirrors:
  assumes "collector_Start env clusterID = Inr q" "\<forall>item \<in> set (se_early env @ se_late env). change_ok item" "creach cd q s"
  shows "co_cache (cs_collector s) = replay cd (co_published (cs_collector s))
    \<and> (\<forall>e \<in> set (co_published (cs_collector s)). event_Validate e = None \<and> validateInventoryObservation (ev_Observation e) = None)"
  using creach_inv [OF assms(3) start_changes_ok [OF assms(1,2)]]
  by (simp add: collector_inv_def published_ok_def valid_event_def)

definition sample_meta :: "string \<Rightarrow> object_meta" where
  "sample_meta uid = \<lparr> mt_UID = uid, mt_Name = uid, mt_Namespace = ''ns'', mt_ResourceVersion = ''1'', mt_Labels = Map.empty,
     mt_CreationTimestamp = 0, mt_DeletionTimestamp = None, mt_OwnerReferences = [] \<rparr>"

definition sample_start :: start_env where
  "sample_start = \<lparr> se_registerErr = (\<lambda>_. None), se_nanos = ''7'', se_clock = (\<lambda>_. \<lparr> ck_observed = 1, ck_now = 1 \<rparr>), se_now = 1,
     se_early = [], se_synced = True, se_version = Inr ''v1'',
     se_kubeSystem = Inr \<lparr> nsp_meta = sample_meta ''u'', nsp_Phase = ''Active'' \<rparr>, se_late = [] \<rparr>"

definition sample_collector_env :: "gotime \<Rightarrow> collector_env" where
  "sample_collector_env t = \<lparr> ce_clock = (\<lambda>_. \<lparr> ck_observed = t, ck_now = t \<rparr>), ce_selector = id, ce_namespaces = Map.empty, ce_iter = id,
     ce_publishErr = (\<lambda>_. None) \<rparr>"

definition sample_marker :: event where
  "sample_marker = build_Snapshot \<lparr> ck_observed = 1, ck_now = 1 \<rparr> ''c-7'' STARTED"

definition sample_changes :: "change list" where
  "sample_changes = [\<lparr> ch_kind = ''snapshot'', ch_object = ObjEvent sample_marker, ch_operation = UPSERT \<rparr>,
     \<lparr> ch_kind = ''cluster'', ch_object = ObjEvent (build_Cluster 1 ''c'' ''v1'' \<lparr> nsp_meta = sample_meta ''u'', nsp_Phase = ''Active'' \<rparr>),
        ch_operation = UPSERT \<rparr>,
     \<lparr> ch_kind = ''snapshot'', ch_object = ObjEvent (build_Snapshot \<lparr> ck_observed = 1, ck_now = 1 \<rparr> ''c-7'' COMPLETED), ch_operation = UPSERT \<rparr>]"

lemma sample_started: "collector_Start sample_start ''c'' = Inr sample_changes"
  by (simp add: collector_Start_def Let_def sample_start_def sample_changes_def sample_marker_def)

lemma publish_new:
  assumes "op \<noteq> DELETE" "\<not> isDelete e" "event_Validate e = None" "Fingerprint cd (ev_Observation e) = Inr fp"
    "co_cache co (ev_Key e) = None" "ce_publishErr env (co_calls co) = None"
  shows "publish_deltas cd env op [e] co = (co\<lparr> co_calls := Suc (co_calls co), co_published := co_published co @ [e],
     co_cache := (co_cache co)(ev_Key e \<mapsto> fp) \<rparr>, None)"
proof -
  have "ev_Key e \<noteq> []" using assms(3) by (auto simp: event_Validate_def)
  thus ?thesis using assms Fingerprint_nonempty [OF assms(4)]
    by (simp add: publishDelta_def Changed_def publish_event_def Commit_def)
qed

lemma sample_first:
  "\<exists>s. creach sample_codec sample_changes s \<and> co_published (cs_collector s) = [sample_marker] \<and> tables_ok (cs_collector s)"
proof -
  let ?env = "sample_collector_env 1" and ?s = "collector_init sample_changes"
  have q: "cs_queue ?s = hd sample_changes # tl sample_changes" by (simp add: collector_init_def sample_changes_def)
  have f: "Fingerprint sample_codec (ev_Observation sample_marker) = Inr (hex_EncodeToString (sha256 (itoa 0)))"
    by (simp add: Fingerprint_def sample_marker_def build_Snapshot_def builder_observation_def sample_codec_def)
  have v: "event_Validate sample_marker = None" "\<not> isDelete sample_marker" "ev_Key sample_marker \<noteq> []"
    by (simp_all add: event_Validate_def isDelete_def sample_marker_def build_Snapshot_def builder_observation_def)
  define co where "co = NewCollector\<lparr> co_calls := 1, co_published := [sample_marker],
     co_cache := [ev_Key sample_marker \<mapsto> hex_EncodeToString (sha256 (itoa 0))] \<rparr>"
  have "publish_deltas sample_codec ?env UPSERT [sample_marker] NewCollector = (co, None)"
    using publish_new [OF _ v(2,1) f] by (simp add: co_def NewCollector_def NewCache_def sample_collector_env_def)
  hence p: "process sample_codec ?env (hd sample_changes) NewCollector = (co, None)" "co_published co = [sample_marker]"
      "co_podContainers co = Map.empty"
    by (simp_all add: process_def sample_changes_def change_events_def co_def NewCollector_def)
  have "cstep sample_codec ?s (processNext sample_codec ?env ?s)"
    using q by (intro cstep.Work) (simp_all add: iterates_def sample_collector_env_def)
  hence "creach sample_codec sample_changes (processNext sample_codec ?env ?s)" by (rule creach.Step [OF creach.Start])
  moreover have "cs_collector (processNext sample_codec ?env ?s) = co"
    using processNext_fields(1) [OF q] p(1) by (simp add: collector_init_def)
  ultimately show ?thesis using p(2,3) by (intro exI [of _ "processNext sample_codec ?env ?s"]) (simp add: tables_ok_def)
qed

theorem inventory_stream_mirrors_witness:
  "\<exists>s. creach sample_codec sample_changes s \<and> co_published (cs_collector s) = [sample_marker]
     \<and> co_cache (cs_collector s) = replay sample_codec [sample_marker]"
proof -
  obtain s where s: "creach sample_codec sample_changes s" "co_published (cs_collector s) = [sample_marker]"
    using sample_first by blast
  have "co_cache (cs_collector s) = replay sample_codec [sample_marker]"
    using inventory_stream_mirrors [OF sample_started _ s(1)] s(2) by (simp add: sample_start_def)
  thus ?thesis using s by blast
qed

text \<open>A resynchronisation is silent.  Once an informer's change has been processed without error in a reachable state,
  processing the same change again, later and with any order of map iteration, succeeds, publishes nothing
  and leaves the cache as it is, for every kind of object and for deletions as well as updates.\<close>
theorem inventory_resync_silent:
  assumes "collector_Start start clusterID = Inr q" "\<forall>item \<in> set (se_early start @ se_late start). change_ok item" "creach cd q s"
    "kind \<in> set informer_kinds" "k8s_ok (ch_object (collector_handler kind n))"
    "iterates (ce_iter env)" "iterates (ce_iter env')" "ce_namespaces env' = ce_namespaces env" "ce_selector env' = ce_selector env"
    "process cd env (collector_handler kind n) (cs_collector s) = (co', None)"
  shows "\<exists>co''. process cd env' (collector_handler kind n) co' = (co'', None)
    \<and> co_published co'' = co_published co' \<and> co_cache co'' = co_cache co'"
proof -
  have "tables_ok (cs_collector s)"
    using creach_inv [OF assms(3) start_changes_ok [OF assms(1,2)]] by (simp add: collector_inv_def)
  thus ?thesis by (rule process_again [OF assms(10) _ handler_ok [OF assms(4) refl assms(5)] assms(6-9)])
qed

theorem inventory_resync_silent_witness:
  "\<exists>co' co''. process sample_codec (sample_collector_env 1)
        (collector_handler ''namespace'' (AddFunc (Live (ObjNamespace \<lparr> nsp_meta = sample_meta ''u'', nsp_Phase = ''Active'' \<rparr>)))) NewCollector = (co', None)
     \<and> length (co_published co') = 1
     \<and> process sample_codec (sample_collector_env 5)
        (collector_handler ''namespace'' (AddFunc (Live (ObjNamespace \<lparr> nsp_meta = sample_meta ''u'', nsp_Phase = ''Active'' \<rparr>)))) co' = (co'', None)
     \<and> co_published co'' = co_published co'"
proof -
  let ?ns = "\<lparr> nsp_meta = sample_meta ''u'', nsp_Phase = ''Active'' \<rparr>"
  let ?e = "build_Namespace \<lparr> ck_observed = 1, ck_now = 1 \<rparr> ?ns UPSERT"
  let ?n = "AddFunc (Live (ObjNamespace ?ns))"
  have f: "Fingerprint sample_codec (ev_Observation ?e) = Inr (hex_EncodeToString (sha256 (itoa 0)))"
    by (simp add: Fingerprint_def build_Namespace_def builder_observation_def sample_codec_def)
  have v: "event_Validate ?e = None" by (simp add: event_Validate_def build_Namespace_def builder_observation_def)
  obtain co' where co: "publish_deltas sample_codec (sample_collector_env 1) UPSERT [?e] NewCollector = (co', None)"
      "length (co_published co') = 1"
    using publish_new [OF _ _ v f, of UPSERT NewCollector "sample_collector_env 1"]
    by (simp add: NewCollector_def NewCache_def sample_collector_env_def)
  hence p: "process sample_codec (sample_collector_env 1) (collector_handler ''namespace'' ?n) NewCollector = (co', None)"
    by (simp add: process_def collector_handler_def object_of_def change_events_def sample_collector_env_def)
  have "k8s_ok (ch_object (collector_handler ''namespace'' ?n))"
    by (simp add: k8s_ok_def collector_handler_def object_of_def sample_meta_def)
  moreover have "''namespace'' \<in> set informer_kinds" by (simp add: informer_kinds_def)
  moreover have "cs_collector (collector_init sample_changes) = NewCollector" by (simp add: collector_init_def)
  ultimately show ?thesis
    using inventory_resync_silent [OF sample_started _ creach.Start, of "''namespace''" ?n "sample_collector_env 1" "sample_collector_env 5"
        sample_codec co'] p co(2)
    by (auto simp: sample_start_def sample_collector_env_def iterates_def)
qed

end
