(* ===== verification/Go_Http.thy ===== *)
theory Go_Http
  imports Ingestion_Auth
begin

text \<open>
  The parts of \<^verbatim>\<open>net/http\<close>, \<^verbatim>\<open>net/http/httputil\<close>, \<^verbatim>\<open>strconv\<close>, \<^verbatim>\<open>encoding/base64\<close>, \<^verbatim>\<open>strings\<close> and \<^verbatim>\<open>time\<close> that the
  gateway and the HTTP services call.  A header is a map from canonical names to their values; a response
  is a status with the problem code the services write, or a value.
\<close>

section \<open>Strings and numbers\<close>

fun Cut :: "char \<Rightarrow> string \<Rightarrow> (string \<times> string) option" where
  "Cut sep [] = None"
| "Cut sep (c # s) = (if c = sep then Some ([], s) else map_option (\<lambda>(a, b). (c # a, b)) (Cut sep s))"

definition TrimPrefix :: "string \<Rightarrow> string \<Rightarrow> string" where
  "TrimPrefix s p = (if prefix p s then drop (length p) s else s)"

definition TrimSuffix :: "string \<Rightarrow> string \<Rightarrow> string" where
  "TrimSuffix s p = (if suffix p s then take (length s - length p) s else s)"

definition itoa_int :: "int \<Rightarrow> string" where
  "itoa_int n = (if n < 0 then ''-'' @ itoa (nat (- n)) else itoa (nat n))"

definition is_digit :: "char \<Rightarrow> bool" where
  "is_digit c = (48 \<le> (of_char c :: nat) \<and> (of_char c :: nat) \<le> 57)"

text \<open>\<^verbatim>\<open>strconv.ParseInt(s, 10, 64)\<close>: an optional sign, digits, and the range of 64 bits.\<close>

definition ParseInt64 :: "string \<Rightarrow> int option" where
  "ParseInt64 s =
     (let (neg, ds) = (case s of
            c # t \<Rightarrow> if c = CHR ''-'' then (True, t) else if c = CHR ''+'' then (False, t) else (False, s)
          | [] \<Rightarrow> (False, [])) in
      if ds = [] \<or> \<not> list_all is_digit ds then None
      else let n = (if neg then - int (atoi ds) else int (atoi ds))
           in if - (2 ^ 63) \<le> n \<and> n < 2 ^ 63 then Some n else None)"

definition b64_char :: "nat \<Rightarrow> char" where
  "b64_char i = (if i < 26 then char_of (65 + i) else if i < 52 then char_of (71 + i) else if i < 62 then char_of (i - 4)
     else if i = 62 then CHR ''-'' else CHR ''_'')"

text \<open>\<^verbatim>\<open>base64.RawURLEncoding\<close>.\<close>

fun b64_EncodeToString :: "string \<Rightarrow> string" where
  "b64_EncodeToString [] = []"
| "b64_EncodeToString [a] = [b64_char (of_char a div 4), b64_char (of_char a mod 4 * 16)]"
| "b64_EncodeToString [a, b] =
     [b64_char (of_char a div 4), b64_char (of_char a mod 4 * 16 + of_char b div 16), b64_char (of_char b mod 16 * 4)]"
| "b64_EncodeToString (a # b # c # s) =
     b64_char (of_char a div 4) # b64_char (of_char a mod 4 * 16 + of_char b div 16)
     # b64_char (of_char b mod 16 * 4 + of_char c div 64) # b64_char (of_char c mod 64) # b64_EncodeToString s"

section \<open>Times\<close>

abbreviation Minute :: duration where "Minute \<equiv> 60 * Second"

text \<open>\<^verbatim>\<open>Unix()\<close> and \<^verbatim>\<open>time.Unix(sec, 0)\<close>, whose offset to year 1 wraps around; \<^verbatim>\<open>Sub\<close> saturates.\<close>

definition time_Unix :: "gotime \<Rightarrow> int" where
  "time_Unix t = t div Second"

definition unix_time :: "int \<Rightarrow> gotime" where
  "unix_time s = (sint (of_int (s + 62135596800) :: i64) - 62135596800) * Second"

definition time_Sub :: "gotime \<Rightarrow> gotime \<Rightarrow> duration" where
  "time_Sub t u = max (- (2 ^ 63)) (min (2 ^ 63 - 1) (t - u))"

section \<open>Requests and responses\<close>

type_synonym header = "string \<Rightarrow> string list option"

definition header_Get :: "header \<Rightarrow> string \<Rightarrow> string" where
  "header_Get h k = (case h k of Some (v # _) \<Rightarrow> v | _ \<Rightarrow> [])"

definition header_Set :: "header \<Rightarrow> string \<Rightarrow> string \<Rightarrow> header" where
  "header_Set h k v = h(k \<mapsto> [v])"

definition header_Del :: "header \<Rightarrow> string \<Rightarrow> header" where
  "header_Del h k = h(k := None)"

record request =
  rq_Method :: string
  rq_URL :: url
  rq_RawQuery :: string
  rq_Header :: header

text \<open>\<^verbatim>\<open>writeProblem\<close> and \<^verbatim>\<open>writeJSON\<close>.\<close>

datatype 'a response = Problem nat string string | JSON nat 'a

text \<open>\<^verbatim>\<open>textproto.CanonicalMIMEHeaderKey\<close>: unchanged if a byte is not a token character.\<close>

definition token_char :: "char \<Rightarrow> bool" where
  "token_char c = (alnum c \<or> c \<in> set ''!#$%&*+-.^_`|~'' \<or> c = CHR 0x27)"

fun canonical_from :: "bool \<Rightarrow> string \<Rightarrow> string" where
  "canonical_from up [] = []"
| "canonical_from up (c # s) =
     (let n = (of_char c :: nat);
          c' = (if up \<and> 97 \<le> n \<and> n \<le> 122 then char_of (n - 32)
                else if \<not> up \<and> 65 \<le> n \<and> n \<le> 90 then char_of (n + 32) else c)
      in c' # canonical_from (c' = CHR ''-'') s)"

definition CanonicalHeaderKey :: "string \<Rightarrow> string" where
  "CanonicalHeaderKey k = (if list_all token_char k then canonical_from True k else k)"

text \<open>The headers \<^verbatim>\<open>httputil.ReverseProxy\<close> removes before it forwards: those named in \<^verbatim>\<open>Connection\<close>, then the fixed
  hop-by-hop list (\<^verbatim>\<open>Te: trailers\<close> and upgrades are put back and do not matter here).  \<^verbatim>\<open>textproto.TrimString\<close> trims ASCII blanks.\<close>

definition hop_headers :: "string list" where
  "hop_headers = [''Connection'', ''Proxy-Connection'', ''Keep-Alive'', ''Proxy-Authenticate'', ''Proxy-Authorization'', ''Te'',
     ''Trailer'', ''Transfer-Encoding'', ''Upgrade'']"

definition TrimString :: "string \<Rightarrow> string" where
  "TrimString s = (let blank = (\<lambda>c. c \<in> {CHR 0x20, CHR 0x09, CHR 0x0A, CHR 0x0D})
     in rev (dropWhile blank (rev (dropWhile blank s))))"

definition connection_tokens :: "header \<Rightarrow> string list" where
  "connection_tokens h = (case h ''Connection'' of
       None \<Rightarrow> []
     | Some vs \<Rightarrow> map CanonicalHeaderKey (filter (\<lambda>t. t \<noteq> []) (map TrimString (concat (map (Split1 (CHR '','')) vs)))))"

definition removeHopByHopHeaders :: "header \<Rightarrow> header" where
  "removeHopByHopHeaders h = fold (\<lambda>k h. header_Del h k) (connection_tokens h @ hop_headers) h"

section \<open>Lemmas\<close>

lemma header_simps [simp]:
  "header_Get (header_Set h k v) k' = (if k = k' then v else header_Get h k')"
  "header_Get (header_Del h k) k' = (if k = k' then [] else header_Get h k')"
  by (simp_all add: header_Get_def header_Set_def header_Del_def)

lemma header_Dels: "header_Get (fold (\<lambda>k h. header_Del h k) ks h) k = (if k \<in> set ks then [] else header_Get h k)"
  by (induction ks arbitrary: h) auto

lemma space_width_prefix:
  assumes "prefix t s" "t \<noteq> []" "space_width ws s = 0" "[] \<notin> set ws" shows "space_width ws t = 0"
proof -
  obtain c u where t: "t = c # u" using assms(2) by (cases t) auto
  then obtain v where s: "s = c # v" using assms(1) by (cases s) auto
  have a: "\<not> ascii_space c" using assms(3) s by (auto split: if_splits)
  have "\<not> prefix w s" if m: "w \<in> set ws" for w
  proof
    assume "prefix w s"
    then obtain w' where "find (\<lambda>w. prefix w s) ws = Some w'" "w' \<in> set ws"
      using m by (cases "find (\<lambda>w. prefix w s) ws") (auto simp: find_None_iff find_Some_iff)
    thus False using assms(3,4) s a by auto
  qed
  hence "find (\<lambda>w. prefix w t) ws = None" using assms(1) by (auto simp: find_None_iff dest: prefix_order.trans)
  thus ?thesis using a t by simp
qed

lemma trim_front_space: "trim_front ws s = [] \<or> space_width ws (trim_front ws s) = 0"
proof (induction ws s rule: trim_front.induct)
  case (1 ws s)
  thus ?case by (cases "s = [] \<or> space_width ws s = 0") (auto simp: trim_front_stop trim_front_step)
qed

lemma TrimSpace_idem [simp]: "TrimSpace (TrimSpace s) = TrimSpace s"
proof -
  let ?f = "trim_front wide_spaces s"
  have p: "prefix (TrimSpace s) ?f"
    using trim_front_suffix [of "map rev wide_spaces" "rev ?f"] by (simp add: TrimSpace_def suffix_to_prefix)
  have "trim_front wide_spaces (TrimSpace s) = TrimSpace s"
  proof (cases "TrimSpace s = []")
    case False
    hence "?f \<noteq> []" using p by auto
    hence "space_width wide_spaces ?f = 0" using trim_front_space by blast
    hence "space_width wide_spaces (TrimSpace s) = 0"
      using space_width_prefix [OF p False] by (simp add: wide_spaces_def)
    thus ?thesis by (simp add: trim_front_stop)
  qed simp
  thus ?thesis by (simp add: TrimSpace_def [of "TrimSpace s"]) (simp add: TrimSpace_def)
qed

lemma b64_code:
  "i < 64 \<Longrightarrow> (of_char (b64_char i) :: nat) = (if i < 26 then 65 + i else if i < 52 then 71 + i else if i < 62 then i - 4
     else if i = 62 then 45 else 95)"
  by (simp add: b64_char_def of_char_of take_bit_nat_eq_self)

lemma b64_char_inj:
  assumes "i < 64" "j < 64" "b64_char i = b64_char j" shows "i = j"
proof -
  have "(of_char (b64_char i) :: nat) = of_char (b64_char j)" using assms(3) by simp
  thus ?thesis using assms(1,2) by (simp add: b64_code split: if_splits)
qed

lemma printable_ascii:
  assumes "33 \<le> (of_char c :: nat)" "(of_char c :: nat) \<le> 126" shows "printable c"
proof -
  have "list_all (\<lambda>c. 128 \<le> (of_char c :: nat)) (concat wide_spaces)" by (simp add: wide_spaces_def)
  hence "c \<notin> set (concat wide_spaces)" using assms by (auto simp only: list_all_iff)
  moreover have "\<not> ascii_space c" using assms by (auto simp: ascii_space_def)
  ultimately show ?thesis by (simp add: printable_def)
qed

lemma b64_char_printable: "i < 64 \<Longrightarrow> printable (b64_char i)"
  by (rule printable_ascii) (auto simp: b64_code)

lemma of_char_bound: "(of_char c :: nat) < 256"
  using nat_of_char_less_256 by blast

lemma b64_indices:
  "(of_char a :: nat) div 4 < 64" "(of_char a :: nat) mod 4 * 16 < 64" "(of_char a :: nat) mod 4 * 16 + of_char b div 16 < 64"
  "(of_char b :: nat) mod 16 * 4 < 64" "(of_char b :: nat) mod 16 * 4 + of_char c div 64 < 64" "(of_char c :: nat) mod 64 < 64"
  using of_char_bound [of a] of_char_bound [of b] of_char_bound [of c] by linarith+

lemma b64_length: "length (b64_EncodeToString s) = (4 * length s + 2) div 3"
  by (induction s rule: b64_EncodeToString.induct) auto

lemma b64_printable: "c \<in> set (b64_EncodeToString s) \<Longrightarrow> printable c"
  by (induction s rule: b64_EncodeToString.induct) (auto simp: b64_char_printable b64_indices)

lemma b64_eq: "i < 64 \<Longrightarrow> j < 64 \<Longrightarrow> b64_char i = b64_char j \<longleftrightarrow> i = j"
  using b64_char_inj by blast

lemma mixed_radix:
  fixes x y x' y' :: nat
  assumes "x * k + y = x' * k + y'" "y < k" "y' < k" shows "x = x' \<and> y = y'"
proof -
  have "(x * k + y) div k = x" "(x' * k + y') div k = x'" "(x * k + y) mod k = y" "(x' * k + y') mod k = y'" using assms(2,3) by simp_all
  thus ?thesis using assms(1) by metis
qed

lemma b64_triple:
  fixes a b c a' b' c' :: nat
  assumes "b < 256" "c < 256" "b' < 256" "c' < 256"
    "a div 4 = a' div 4" "a mod 4 * 16 + b div 16 = a' mod 4 * 16 + b' div 16" "b mod 16 * 4 + c div 64 = b' mod 16 * 4 + c' div 64"
    "c mod 64 = c' mod 64"
  shows "a = a' \<and> b = b' \<and> c = c'"
proof -
  have "a mod 4 = a' mod 4 \<and> b div 16 = b' div 16" by (rule mixed_radix [OF assms(6)]) (use assms(1,3) in simp_all)
  moreover have "b mod 16 = b' mod 16 \<and> c div 64 = c' div 64" by (rule mixed_radix [OF assms(7)]) (use assms(2,4) in simp_all)
  ultimately show ?thesis using assms(5,8) by (metis mult_div_mod_eq)
qed

lemma b64_EncodeToString_inject:
  "length s = length t \<Longrightarrow> b64_EncodeToString s = b64_EncodeToString t \<Longrightarrow> s = t"
proof (induction s arbitrary: t rule: b64_EncodeToString.induct)
  case 1
  thus ?case by simp
next
  case (2 a)
  then obtain a' where t: "t = [a']" by (cases t) auto
  have "(of_char a :: nat) div 4 = of_char a' div 4" "(of_char a :: nat) mod 4 * 16 = of_char a' mod 4 * 16"
    using 2 t by (simp_all add: b64_eq b64_indices)
  hence "(of_char a :: nat) = of_char a'" by (metis mult_div_mod_eq mult_cancel2 zero_neq_numeral)
  thus ?case using t by simp
next
  case (3 a b)
  then obtain a' b' where t: "t = [a', b']" using 3(1) by (cases t; cases "tl t") auto
  have e: "(of_char a :: nat) div 4 = of_char a' div 4" "(of_char a :: nat) mod 4 * 16 + of_char b div 16 = of_char a' mod 4 * 16 + of_char b' div 16"
      "(of_char b :: nat) mod 16 * 4 = of_char b' mod 16 * 4"
    using 3(2) t by (simp_all add: b64_eq b64_indices)
  have "(of_char a :: nat) = of_char a' \<and> (of_char b :: nat) = of_char b' \<and> (0 :: nat) = 0"
    by (rule b64_triple) (use e of_char_bound in simp_all)
  thus ?case using t by simp
next
  case (4 a b c s)
  then obtain a' b' c' u where t: "t = a' # b' # c' # u" using 4(2) by (cases t; cases "tl t"; cases "tl (tl t)") auto
  have e: "(of_char a :: nat) div 4 = of_char a' div 4" "(of_char a :: nat) mod 4 * 16 + of_char b div 16 = of_char a' mod 4 * 16 + of_char b' div 16"
      "(of_char b :: nat) mod 16 * 4 + of_char c div 64 = of_char b' mod 16 * 4 + of_char c' div 64" "(of_char c :: nat) mod 64 = of_char c' mod 64"
      "b64_EncodeToString s = b64_EncodeToString u"
    using 4(3) t by (simp_all add: b64_eq b64_indices)
  have "(of_char a :: nat) = of_char a' \<and> (of_char b :: nat) = of_char b' \<and> (of_char c :: nat) = of_char c'"
    by (rule b64_triple) (use e of_char_bound in simp_all)
  thus ?case using t 4(1) [of u] 4(2) e(5) by simp
qed

lemma digit_is_digit: "c \<in> set (itoa n) \<Longrightarrow> is_digit c"
  using itoa_digits [of n] by (fastforce simp: is_digit_def of_char_digit)

lemma ParseInt64_itoa:
  assumes "- (2 ^ 63) \<le> n" "n < 2 ^ 63" shows "ParseInt64 (itoa_int n) = Some n"
proof -
  have d: "list_all is_digit (itoa m)" for m using digit_is_digit by (auto simp: list_all_iff)
  have "\<not> is_digit (CHR ''-'')" "\<not> is_digit (CHR ''+'')" by (simp_all add: is_digit_def)
  hence h: "itoa m = c # t \<Longrightarrow> c \<noteq> CHR ''-'' \<and> c \<noteq> CHR ''+''" for m c t using d [of m] by auto
  show ?thesis
  proof (cases "n < 0")
    case True
    thus ?thesis using assms d [of "nat (- n)"] by (simp add: ParseInt64_def itoa_int_def itoa_nonempty atoi_itoa)
  next
    case False
    then obtain c t where c: "itoa (nat n) = c # t" using itoa_nonempty [of "nat n"] by (cases "itoa (nat n)") auto
    show ?thesis using assms d [of "nat n"] False h [OF c] atoi_itoa [of "nat n"] c by (simp add: ParseInt64_def itoa_int_def)
  qed
qed

end
