(* ===== verification/Query_Sql.thy ===== *)
theory Query_Sql
  imports Go_Http
begin

text \<open>
  The query service's repository (\<^verbatim>\<open>services/query/repository.go\<close>): the parameterised SQL it sends to ClickHouse and the reading of
  the rows.  A statement is its text and the list of its arguments.  The database connection is an argument: for a
  statement it answers with an error, or with rows whose scan may fail and the final error of the iteration.  Decimals are
  of an arbitrary type, with the function that prints them.
\<close>

section \<open>Types\<close>

abbreviation sq :: char where "sq \<equiv> CHR 0x27"

datatype 'd sql_arg = ArgString string | ArgTime gotime | ArgDecimal 'd

type_synonym 'd statement = "string \<times> 'd sql_arg list"

type_synonym ('d, 'c) connection = "string \<Rightarrow> 'd sql_arg list \<Rightarrow> ('c result list \<times> error option) result"

record data_quality_query =
  dq_TenantID :: string
  dq_ClusterID :: string
  dq_FreshnessWindow :: duration

record recommendation_query =
  rc_TenantID :: string
  rc_ClusterID :: string
  rc_Status :: string
  rc_RecommendationType :: string
  rc_TargetKind :: string
  rc_TargetUID :: string
  rc_MinimumMonthlySavings :: string
  rc_Limit :: int

record analytics_query =
  aq_TenantID :: string
  aq_ClusterID :: string
  aq_Start :: gotime
  aq_End :: gotime
  aq_GroupBy :: string
  aq_Limit :: int
  aq_Offset :: int
  aq_IncludeQuality :: bool

record analytics_group_spec =
  gs_groupKeySelect :: string
  gs_groupValueSelect :: string
  gs_namespaceUIDSelect :: string
  gs_namespaceNameSelect :: string
  gs_groupBySuffix :: string

section \<open>Statements\<close>

definition defaultAnalyticsLimit :: int where "defaultAnalyticsLimit = 100"
definition maxAnalyticsLimit :: int where "maxAnalyticsLimit = 500"

definition normalizedAnalyticsLimit :: "int \<Rightarrow> int" where
  "normalizedAnalyticsLimit limit =
     (if limit \<le> 0 then defaultAnalyticsLimit else if limit > maxAnalyticsLimit then maxAnalyticsLimit else limit)"

definition normalizedAnalyticsFetchLimit :: "int \<Rightarrow> int" where
  "normalizedAnalyticsFetchLimit limit = normalizedAnalyticsLimit limit + 1"

definition normalizedAnalyticsOffset :: "int \<Rightarrow> int" where
  "normalizedAnalyticsOffset offset = (if offset < 0 then 0 else offset)"

definition analyticsGroup :: "string \<Rightarrow> string \<Rightarrow> string \<Rightarrow> string \<Rightarrow> string \<Rightarrow> analytics_group_spec" where
  "analyticsGroup groupBy clusterIDColumn namespaceUIDColumn namespaceNameColumn namespaceAlias =
     (if groupBy = ''cluster'' then
        \<lparr> gs_groupKeySelect = [sq] @ ''cluster'' @ [sq], gs_groupValueSelect = clusterIDColumn,
          gs_namespaceUIDSelect = [sq, sq], gs_namespaceNameSelect = [sq, sq], gs_groupBySuffix = [] \<rparr>
      else if groupBy = ''team'' \<or> groupBy = ''project'' \<or> groupBy = ''environment'' \<or> groupBy = ''cost_center'' then
        let groupColumn = namespaceAlias @ ''.'' @ groupBy;
            groupValue = ''if(empty(any('' @ groupColumn @ '')), '' @ [sq] @ ''__unassigned__'' @ [sq] @ '', any('' @ groupColumn @ ''))''
        in \<lparr> gs_groupKeySelect = [sq] @ groupBy @ [sq], gs_groupValueSelect = groupValue,
             gs_namespaceUIDSelect = [sq, sq], gs_namespaceNameSelect = [sq, sq], gs_groupBySuffix = '', '' @ groupColumn \<rparr>
      else
        let namespaceName = ''if(empty(any('' @ namespaceNameColumn @ '')), '' @ namespaceUIDColumn @ '', any('' @ namespaceNameColumn @ ''))''
        in \<lparr> gs_groupKeySelect = [sq] @ ''namespace'' @ [sq], gs_groupValueSelect = namespaceName,
             gs_namespaceUIDSelect = namespaceUIDColumn, gs_namespaceNameSelect = namespaceName,
             gs_groupBySuffix = '', '' @ namespaceUIDColumn \<rparr>)"

definition tenantWhere :: "data_quality_query \<Rightarrow> 'd statement" where
  "tenantWhere q =
     (Join (''tenant_id = ?'' # (if dq_ClusterID q \<noteq> [] then [''cluster_id = ?''] else [])) '' AND '',
      ArgString (dq_TenantID q) # (if dq_ClusterID q \<noteq> [] then [ArgString (dq_ClusterID q)] else []))"

definition analyticsWhere :: "analytics_query \<Rightarrow> string \<Rightarrow> string \<Rightarrow> 'd statement" where
  "analyticsWhere q tableAlias timeColumn =
     (let pre = tableAlias @ ''.'' in
      (Join ([pre @ ''tenant_id = ?'', pre @ timeColumn @ '' >= ?'', pre @ timeColumn @ '' < ?'']
         @ (if aq_ClusterID q \<noteq> [] then [pre @ ''cluster_id = ?''] else [])) '' AND '',
       [ArgString (aq_TenantID q), ArgTime (aq_Start q), ArgTime (aq_End q)]
         @ (if aq_ClusterID q \<noteq> [] then [ArgString (aq_ClusterID q)] else [])))"

definition analyticsMetricWhere :: "analytics_query \<Rightarrow> string \<Rightarrow> 'd statement" where
  "analyticsMetricWhere q tableAlias = analyticsWhere q tableAlias ''bucket_start''"

definition analyticsCostWhere :: "analytics_query \<Rightarrow> string \<Rightarrow> 'd statement" where
  "analyticsCostWhere q tableAlias = analyticsWhere q tableAlias ''bucket_start''"

text \<open>The texts between the inserted parts, as in the format strings of the source.\<close>

definition dq_sql_a :: string where
  "dq_sql_a = ''
SELECT
    source,
    grain,
    cluster_id,
    count() AS record_count,
    max(bucket_start) AS latest_bucket_start,
    max(ingested_at) AS latest_ingested_at
FROM
(
    SELECT
        '' @ [sq] @ ''container_metrics_10s'' @ [sq] @ '' AS source,
        '' @ [sq] @ ''10s'' @ [sq] @ '' AS grain,
        cluster_id,
        bucket_start,
        ingested_at
    FROM kube_cost.container_metrics_10s
    WHERE ''"

definition dq_sql_b :: string where
  "dq_sql_b = ''
    UNION ALL
    SELECT
        '' @ [sq] @ ''node_metrics_10s'' @ [sq] @ '' AS source,
        '' @ [sq] @ ''10s'' @ [sq] @ '' AS grain,
        cluster_id,
        bucket_start,
        ingested_at
    FROM kube_cost.node_metrics_10s
    WHERE ''"

definition dq_sql_c :: string where
  "dq_sql_c = ''
)
GROUP BY source, grain, cluster_id
ORDER BY cluster_id, source''"

definition dataQualitySQL :: "data_quality_query \<Rightarrow> 'd statement" where
  "dataQualitySQL q = (case tenantWhere q of (w, args) \<Rightarrow> (dq_sql_a @ w @ dq_sql_b @ w @ dq_sql_c, args @ args))"

definition group_columns :: "analytics_group_spec \<Rightarrow> string" where
  "group_columns g = gs_groupKeySelect g @ '' AS group_key,
    '' @ gs_groupValueSelect g @ '' AS group_value,
    '' @ gs_namespaceUIDSelect g @ '' AS namespace_uid,
    '' @ gs_namespaceNameSelect g"

definition page_clause :: "int \<Rightarrow> int \<Rightarrow> string" where
  "page_clause limit offset = itoa_int (normalizedAnalyticsFetchLimit limit) @ ''
OFFSET '' @ itoa_int (normalizedAnalyticsOffset offset)"

definition usage_sql_0 :: string where
  "usage_sql_0 = ''
SELECT
    cm.tenant_id,
    cm.cluster_id,
    ''"

definition usage_sql_4 :: string where
  "usage_sql_4 = '' AS namespace_name,
    sum(toDecimal128(cm.cpu_usage_core_milliseconds, 9)) / 3600000 AS cpu_usage_core_hours,
    sum(toDecimal128(cm.cpu_request_core_milliseconds, 9)) / 3600000 AS cpu_request_core_hours,
    sum(toDecimal128(cm.cpu_limit_core_milliseconds, 9)) / 3600000 AS cpu_limit_core_hours,
    sum(toDecimal128(cm.memory_working_set_byte_seconds, 9)) / 3865470566400 AS memory_working_set_gib_hours,
    sum(toDecimal128(cm.memory_request_byte_seconds, 9)) / 3865470566400 AS memory_request_gib_hours,
    sum(toDecimal128(cm.memory_limit_byte_seconds, 9)) / 3865470566400 AS memory_limit_gib_hours,
    sum(cm.network_rx_bytes + cm.network_tx_bytes) AS network_bytes,
    sum(cm.filesystem_read_bytes + cm.filesystem_write_bytes) AS filesystem_bytes,
    sum(toDecimal128(cm.gpu_usage_milli_seconds, 9)) / 3600000 AS gpu_usage_milli_hours,
    sum(toDecimal128(cm.gpu_request_milli_seconds, 9)) / 3600000 AS gpu_request_milli_hours,
    sum(cm.oom_events) AS oom_events,
    sum(cm.cpu_throttled_periods) AS cpu_throttled_periods,
    sum(cm.sample_count) AS sample_count
FROM kube_cost.container_metrics_10s AS cm
LEFT JOIN kube_cost.current_namespace AS ns
    ON cm.tenant_id = ns.tenant_id
   AND cm.cluster_id = ns.cluster_id
   AND cm.namespace_uid = ns.namespace_uid
WHERE ''"

definition usage_sql_5 :: string where
  "usage_sql_5 = ''
GROUP BY cm.tenant_id, cm.cluster_id''"

definition usage_sql_6 :: string where
  "usage_sql_6 = ''
ORDER BY cpu_request_core_hours DESC, cm.cluster_id, group_value, namespace_uid
LIMIT ''"

definition usageSQL :: "analytics_query \<Rightarrow> 'd statement" where
  "usageSQL q = (let group = analyticsGroup (aq_GroupBy q) ''cm.cluster_id'' ''cm.namespace_uid'' ''ns.namespace_name'' ''ns'' in
     case analyticsMetricWhere q ''cm'' of (w, args) \<Rightarrow>
       (usage_sql_0 @ group_columns group @ usage_sql_4 @ w @ usage_sql_5 @ gs_groupBySuffix group @ usage_sql_6
        @ page_clause (aq_Limit q) (aq_Offset q), args))"

definition costs_sql_0 :: string where
  "costs_sql_0 = ''
SELECT
    nc.tenant_id,
    nc.cluster_id,
    ''"

definition costs_sql_4 :: string where
  "costs_sql_4 = '' AS namespace_name,
    any(nc.currency) AS currency,
    anyLast(nc.computation_version) AS computation_version,
    max(nc.computed_at) AS computed_at,
    sum(nc.direct_cost) AS direct_cost,
    sum(nc.idle_cost) AS idle_cost,
    sum(nc.network_cost) AS network_cost,
    sum(nc.control_plane_cost) AS control_plane_cost,
    sum(nc.system_namespace_cost) AS system_namespace_cost,
    sum(nc.allocated_cost) AS allocated_cost
FROM kube_cost.current_namespace_cost_1h AS nc
LEFT JOIN kube_cost.current_namespace AS ns
    ON nc.tenant_id = ns.tenant_id
   AND nc.cluster_id = ns.cluster_id
   AND nc.namespace_uid = ns.namespace_uid
WHERE ''"

definition costs_sql_5 :: string where
  "costs_sql_5 = ''
GROUP BY nc.tenant_id, nc.cluster_id''"

definition costs_sql_6 :: string where
  "costs_sql_6 = ''
ORDER BY allocated_cost DESC, nc.cluster_id, group_value, namespace_uid
LIMIT ''"

definition costsSQL :: "analytics_query \<Rightarrow> 'd statement" where
  "costsSQL q = (let group = analyticsGroup (aq_GroupBy q) ''nc.cluster_id'' ''nc.namespace_uid'' ''nc.namespace_name'' ''ns'' in
     case analyticsCostWhere q ''nc'' of (w, args) \<Rightarrow>
       (costs_sql_0 @ group_columns group @ costs_sql_4 @ w @ costs_sql_5 @ gs_groupBySuffix group @ costs_sql_6
        @ page_clause (aq_Limit q) (aq_Offset q), args))"

definition allocation_sql_0 :: string where
  "allocation_sql_0 = ''
SELECT
    nc.tenant_id,
    nc.cluster_id,
    ''"

definition allocation_sql_4 :: string where
  "allocation_sql_4 = '' AS namespace_name,
    any(nc.currency) AS currency,
    anyLast(nc.computation_version) AS computation_version,
    max(nc.computed_at) AS computed_at,
    sum(nc.cpu_request_core_milliseconds) AS cpu_request_core_milliseconds,
    sum(nc.network_bytes) AS network_bytes,
    sum(nc.allocation_weight) AS allocation_weight,
    sum(nc.direct_cost) AS direct_cost,
    sum(nc.idle_cost) AS idle_cost,
    sum(nc.network_cost) AS network_cost,
    sum(nc.control_plane_cost) AS control_plane_cost,
    sum(nc.system_namespace_cost) AS system_namespace_cost,
    sum(nc.allocated_cost) AS allocated_cost
FROM kube_cost.current_namespace_cost_1h AS nc
LEFT JOIN kube_cost.current_namespace AS ns
    ON nc.tenant_id = ns.tenant_id
   AND nc.cluster_id = ns.cluster_id
   AND nc.namespace_uid = ns.namespace_uid
WHERE ''"

definition allocation_sql_5 :: string where
  "allocation_sql_5 = ''
GROUP BY nc.tenant_id, nc.cluster_id''"

definition allocation_sql_6 :: string where
  "allocation_sql_6 = ''
ORDER BY allocated_cost DESC, nc.cluster_id, group_value, namespace_uid
LIMIT ''"

definition allocationSQL :: "analytics_query \<Rightarrow> 'd statement" where
  "allocationSQL q = (let group = analyticsGroup (aq_GroupBy q) ''nc.cluster_id'' ''nc.namespace_uid'' ''nc.namespace_name'' ''ns'' in
     case analyticsCostWhere q ''nc'' of (w, args) \<Rightarrow>
       (allocation_sql_0 @ group_columns group @ allocation_sql_4 @ w @ allocation_sql_5 @ gs_groupBySuffix group @ allocation_sql_6
        @ page_clause (aq_Limit q) (aq_Offset q), args))"

definition recommendations_sql :: string where
  "recommendations_sql = ''
SELECT
    tenant_id,
    recommendation_id,
    cluster_id,
    namespace_uid,
    target_kind,
    target_uid,
    recommendation_type,
    safety_class,
    status,
    analysis_window_start,
    analysis_window_end,
    generated_at,
    expires_at,
    current_configuration,
    proposed_configuration,
    evidence,
    currency,
    monthly_gross_savings,
    monthly_net_savings,
    confidence,
    risk_score,
    policy_version,
    model_version,
    computation_version,
    version
FROM kube_cost.recommendation FINAL
''"

definition recommendationsSelectSQL :: "string \<Rightarrow> string" where
  "recommendationsSelectSQL suf = recommendations_sql @ suf"

text \<open>\<^verbatim>\<open>parse\<close> stands for \<^verbatim>\<open>decimal.NewFromString\<close>.\<close>

definition recommendationsWhere :: "(string \<Rightarrow> 'd result) \<Rightarrow> recommendation_query \<Rightarrow> 'd statement result" where
  "recommendationsWhere parse q =
     (let opt = (\<lambda>v col. if v \<noteq> [] then [(col @ '' = ?'', ArgString v)] else []);
          filters = (''tenant_id = ?'', ArgString (rc_TenantID q)) # opt (rc_ClusterID q) ''cluster_id'' @ opt (rc_Status q) ''status''
            @ opt (rc_RecommendationType q) ''recommendation_type'' @ opt (rc_TargetKind q) ''target_kind'' @ opt (rc_TargetUID q) ''target_uid''
      in if rc_MinimumMonthlySavings q = [] then Inr (Join (map fst filters) '' AND '', map snd filters)
         else case parse (rc_MinimumMonthlySavings q) of
             Inl e \<Rightarrow> Inl (''invalid minimum monthly savings: '' @ e)
           | Inr d \<Rightarrow> let fs = filters @ [(''monthly_net_savings >= ?'', ArgDecimal d)] in Inr (Join (map fst fs) '' AND '', map snd fs))"

definition recommendations_tail :: string where
  "recommendations_tail = ''
ORDER BY monthly_net_savings DESC, generated_at DESC, recommendation_id
LIMIT ''"

definition recommendationsSQL :: "(string \<Rightarrow> 'd result) \<Rightarrow> recommendation_query \<Rightarrow> 'd statement result" where
  "recommendationsSQL parse q = (case recommendationsWhere parse q of
       Inl e \<Rightarrow> Inl e
     | Inr (w, args) \<Rightarrow>
         let limit = (if rc_Limit q \<le> 0 then 100 else if rc_Limit q > 500 then 500 else rc_Limit q)
         in Inr (recommendationsSelectSQL (''
WHERE '' @ w @ recommendations_tail @ itoa_int limit), args))"

definition recommendation_statement :: "string \<Rightarrow> string \<Rightarrow> 'd statement" where
  "recommendation_statement tenantID recommendationID = (recommendationsSelectSQL ''
WHERE tenant_id = ? AND recommendation_id = ?
ORDER BY generated_at DESC
LIMIT 1'', [ArgString tenantID, ArgString recommendationID])"

section \<open>Rows\<close>

text \<open>For each statement the columns as they are scanned, and the row the service returns.\<close>

record signal_cols =
  sgc_Source :: string
  sgc_Grain :: string
  sgc_ClusterID :: string
  sgc_RecordCount :: u64
  sgc_latestBucket :: gotime
  sgc_latestIngested :: gotime

record data_quality_signal =
  sg_Source :: string
  sg_Grain :: string
  sg_ClusterID :: string
  sg_RecordCount :: u64
  sg_LatestBucketStart :: "gotime option"
  sg_LatestIngestedAt :: "gotime option"
  sg_FreshnessSeconds :: "int option"
  sg_Status :: string
  sg_Warning :: string
  sg_ExpectedFreshnessLimit :: string

record cost_metadata =
  cm_Currency :: string
  cm_ComputationVersion :: string
  cm_ComputedAt :: gotime

record 'd usage_cols =
  uc_TenantID :: string
  uc_ClusterID :: string
  uc_GroupKey :: string
  uc_GroupValue :: string
  uc_NamespaceUID :: string
  uc_NamespaceName :: string
  uc_cpuUsage :: 'd
  uc_cpuRequest :: 'd
  uc_cpuLimit :: 'd
  uc_memoryWorkingSet :: 'd
  uc_memoryRequest :: 'd
  uc_memoryLimit :: 'd
  uc_NetworkBytes :: u64
  uc_FilesystemBytes :: u64
  uc_gpuUsage :: 'd
  uc_gpuRequest :: 'd
  uc_OOMEvents :: u64
  uc_CPUThrottledPeriods :: u64
  uc_SampleCount :: u64

record usage_row =
  ur_TenantID :: string
  ur_ClusterID :: string
  ur_GroupKey :: string
  ur_GroupValue :: string
  ur_NamespaceUID :: string
  ur_NamespaceName :: string
  ur_CPUUsageCoreHours :: string
  ur_CPURequestCoreHours :: string
  ur_CPULimitCoreHours :: string
  ur_MemoryWorkingSetGiBHours :: string
  ur_MemoryRequestGiBHours :: string
  ur_MemoryLimitGiBHours :: string
  ur_NetworkBytes :: u64
  ur_FilesystemBytes :: u64
  ur_GPUUsageMilliHours :: string
  ur_GPURequestMilliHours :: string
  ur_OOMEvents :: u64
  ur_CPUThrottledPeriods :: u64
  ur_SampleCount :: u64

record 'd cost_cols =
  cc_TenantID :: string
  cc_ClusterID :: string
  cc_GroupKey :: string
  cc_GroupValue :: string
  cc_NamespaceUID :: string
  cc_NamespaceName :: string
  cc_Currency :: string
  cc_ComputationVersion :: string
  cc_ComputedAt :: gotime
  cc_directCost :: 'd
  cc_idleCost :: 'd
  cc_networkCost :: 'd
  cc_controlPlaneCost :: 'd
  cc_systemNamespaceCost :: 'd
  cc_allocatedCost :: 'd

record cost_row =
  cr_TenantID :: string
  cr_ClusterID :: string
  cr_GroupKey :: string
  cr_GroupValue :: string
  cr_NamespaceUID :: string
  cr_NamespaceName :: string
  cr_DirectCost :: string
  cr_IdleCost :: string
  cr_NetworkCost :: string
  cr_ControlPlaneCost :: string
  cr_SystemNamespaceCost :: string
  cr_AllocatedCost :: string

record 'd allocation_cols =
  alc_TenantID :: string
  alc_ClusterID :: string
  alc_GroupKey :: string
  alc_GroupValue :: string
  alc_NamespaceUID :: string
  alc_NamespaceName :: string
  alc_Currency :: string
  alc_ComputationVersion :: string
  alc_ComputedAt :: gotime
  alc_CPURequestCoreMilliseconds :: u64
  alc_NetworkBytes :: u64
  alc_allocationWeight :: 'd
  alc_directCost :: 'd
  alc_idleCost :: 'd
  alc_networkCost :: 'd
  alc_controlPlaneCost :: 'd
  alc_systemNamespaceCost :: 'd
  alc_allocatedCost :: 'd

record allocation_row =
  alr_TenantID :: string
  alr_ClusterID :: string
  alr_GroupKey :: string
  alr_GroupValue :: string
  alr_NamespaceUID :: string
  alr_NamespaceName :: string
  alr_CPURequestCoreMilliseconds :: u64
  alr_NetworkBytes :: u64
  alr_AllocationWeight :: string
  alr_DirectCost :: string
  alr_IdleCost :: string
  alr_NetworkCost :: string
  alr_ControlPlaneCost :: string
  alr_SystemNamespaceCost :: string
  alr_AllocatedCost :: string

record 'd recommendation_cols =
  rcc_TenantID :: string
  rcc_RecommendationID :: string
  rcc_ClusterID :: string
  rcc_NamespaceUID :: string
  rcc_TargetKind :: string
  rcc_TargetUID :: string
  rcc_RecommendationType :: string
  rcc_SafetyClass :: string
  rcc_Status :: string
  rcc_AnalysisWindowStart :: gotime
  rcc_AnalysisWindowEnd :: gotime
  rcc_GeneratedAt :: gotime
  rcc_ExpiresAt :: gotime
  rcc_currentConfiguration :: string
  rcc_proposedConfiguration :: string
  rcc_evidence :: string
  rcc_Currency :: string
  rcc_monthlyGrossSavings :: 'd
  rcc_monthlyNetSavings :: 'd
  rcc_confidence :: 'd
  rcc_riskScore :: 'd
  rcc_PolicyVersion :: string
  rcc_ModelVersion :: string
  rcc_ComputationVersion :: string
  rcc_Version :: u64

record recommendation_result =
  rr_TenantID :: string
  rr_RecommendationID :: string
  rr_ClusterID :: string
  rr_NamespaceUID :: string
  rr_TargetKind :: string
  rr_TargetUID :: string
  rr_RecommendationType :: string
  rr_SafetyClass :: string
  rr_Status :: string
  rr_AnalysisWindowStart :: gotime
  rr_AnalysisWindowEnd :: gotime
  rr_GeneratedAt :: gotime
  rr_ExpiresAt :: gotime
  rr_CurrentConfiguration :: string
  rr_ProposedConfiguration :: string
  rr_Evidence :: string
  rr_Currency :: string
  rr_MonthlyGrossSavings :: string
  rr_MonthlyNetSavings :: string
  rr_Confidence :: string
  rr_RiskScore :: string
  rr_PolicyVersion :: string
  rr_ModelVersion :: string
  rr_ComputationVersion :: string
  rr_Version :: u64

text \<open>Scanning a row; \<^verbatim>\<open>str\<close> stands for \<^verbatim>\<open>decimal.String\<close>.\<close>

definition scan_signal :: "signal_cols \<Rightarrow> data_quality_signal" where
  "scan_signal c = \<lparr> sg_Source = sgc_Source c, sg_Grain = sgc_Grain c, sg_ClusterID = sgc_ClusterID c, sg_RecordCount = sgc_RecordCount c,
     sg_LatestBucketStart = (if sgc_RecordCount c > 0 then Some (sgc_latestBucket c) else None),
     sg_LatestIngestedAt = (if sgc_RecordCount c > 0 then Some (sgc_latestIngested c) else None),
     sg_FreshnessSeconds = None, sg_Status = [], sg_Warning = [], sg_ExpectedFreshnessLimit = [] \<rparr>"

definition scan_usage :: "('d \<Rightarrow> string) \<Rightarrow> 'd usage_cols \<Rightarrow> usage_row" where
  "scan_usage str c = \<lparr> ur_TenantID = uc_TenantID c, ur_ClusterID = uc_ClusterID c, ur_GroupKey = uc_GroupKey c,
     ur_GroupValue = uc_GroupValue c, ur_NamespaceUID = uc_NamespaceUID c, ur_NamespaceName = uc_NamespaceName c,
     ur_CPUUsageCoreHours = str (uc_cpuUsage c), ur_CPURequestCoreHours = str (uc_cpuRequest c),
     ur_CPULimitCoreHours = str (uc_cpuLimit c), ur_MemoryWorkingSetGiBHours = str (uc_memoryWorkingSet c),
     ur_MemoryRequestGiBHours = str (uc_memoryRequest c), ur_MemoryLimitGiBHours = str (uc_memoryLimit c),
     ur_NetworkBytes = uc_NetworkBytes c, ur_FilesystemBytes = uc_FilesystemBytes c,
     ur_GPUUsageMilliHours = str (uc_gpuUsage c), ur_GPURequestMilliHours = str (uc_gpuRequest c),
     ur_OOMEvents = uc_OOMEvents c, ur_CPUThrottledPeriods = uc_CPUThrottledPeriods c,
     ur_SampleCount = uc_SampleCount c \<rparr>"

definition scan_cost :: "('d \<Rightarrow> string) \<Rightarrow> 'd cost_cols \<Rightarrow> cost_row" where
  "scan_cost str c = \<lparr> cr_TenantID = cc_TenantID c, cr_ClusterID = cc_ClusterID c, cr_GroupKey = cc_GroupKey c,
     cr_GroupValue = cc_GroupValue c, cr_NamespaceUID = cc_NamespaceUID c, cr_NamespaceName = cc_NamespaceName c,
     cr_DirectCost = str (cc_directCost c), cr_IdleCost = str (cc_idleCost c),
     cr_NetworkCost = str (cc_networkCost c), cr_ControlPlaneCost = str (cc_controlPlaneCost c),
     cr_SystemNamespaceCost = str (cc_systemNamespaceCost c), cr_AllocatedCost = str (cc_allocatedCost c) \<rparr>"

definition scan_allocation :: "('d \<Rightarrow> string) \<Rightarrow> 'd allocation_cols \<Rightarrow> allocation_row" where
  "scan_allocation str c = \<lparr> alr_TenantID = alc_TenantID c, alr_ClusterID = alc_ClusterID c, alr_GroupKey = alc_GroupKey c,
     alr_GroupValue = alc_GroupValue c, alr_NamespaceUID = alc_NamespaceUID c,
     alr_NamespaceName = alc_NamespaceName c, alr_CPURequestCoreMilliseconds = alc_CPURequestCoreMilliseconds c,
     alr_NetworkBytes = alc_NetworkBytes c, alr_AllocationWeight = str (alc_allocationWeight c),
     alr_DirectCost = str (alc_directCost c), alr_IdleCost = str (alc_idleCost c),
     alr_NetworkCost = str (alc_networkCost c), alr_ControlPlaneCost = str (alc_controlPlaneCost c),
     alr_SystemNamespaceCost = str (alc_systemNamespaceCost c), alr_AllocatedCost = str (alc_allocatedCost c) \<rparr>"

definition scanRecommendation :: "('d \<Rightarrow> string) \<Rightarrow> 'd recommendation_cols \<Rightarrow> recommendation_result" where
  "scanRecommendation str c = \<lparr> rr_TenantID = rcc_TenantID c, rr_RecommendationID = rcc_RecommendationID c, rr_ClusterID = rcc_ClusterID c,
     rr_NamespaceUID = rcc_NamespaceUID c, rr_TargetKind = rcc_TargetKind c, rr_TargetUID = rcc_TargetUID c,
     rr_RecommendationType = rcc_RecommendationType c, rr_SafetyClass = rcc_SafetyClass c, rr_Status = rcc_Status c,
     rr_AnalysisWindowStart = rcc_AnalysisWindowStart c, rr_AnalysisWindowEnd = rcc_AnalysisWindowEnd c,
     rr_GeneratedAt = rcc_GeneratedAt c, rr_ExpiresAt = rcc_ExpiresAt c,
     rr_CurrentConfiguration = rcc_currentConfiguration c, rr_ProposedConfiguration = rcc_proposedConfiguration c,
     rr_Evidence = rcc_evidence c, rr_Currency = rcc_Currency c,
     rr_MonthlyGrossSavings = str (rcc_monthlyGrossSavings c), rr_MonthlyNetSavings = str (rcc_monthlyNetSavings c),
     rr_Confidence = str (rcc_confidence c), rr_RiskScore = str (rcc_riskScore c),
     rr_PolicyVersion = rcc_PolicyVersion c, rr_ModelVersion = rcc_ModelVersion c,
     rr_ComputationVersion = rcc_ComputationVersion c, rr_Version = rcc_Version c \<rparr>"

section \<open>The repository\<close>

text \<open>The loop over the rows: the first failing scan ends it.\<close>

fun scan_rows :: "string \<Rightarrow> 'c result list \<Rightarrow> 'c list result" where
  "scan_rows what [] = Inr []"
| "scan_rows what (Inl e # rs) = Inl (''scan '' @ what @ '' row: '' @ e)"
| "scan_rows what (Inr c # rs) = (case scan_rows what rs of Inl e \<Rightarrow> Inl e | Inr cs \<Rightarrow> Inr (c # cs))"

definition run_query :: "string \<Rightarrow> string \<Rightarrow> ('d, 'c) connection \<Rightarrow> 'd statement \<Rightarrow> 'c list result" where
  "run_query name row conn st = (case conn (fst st) (snd st) of
       Inl e \<Rightarrow> Inl (''query '' @ name @ '': '' @ e)
     | Inr (rows, err) \<Rightarrow> (case scan_rows row rows of
           Inl e \<Rightarrow> Inl e
         | Inr cs \<Rightarrow> (case err of Some e \<Rightarrow> Inl (''read '' @ row @ '' rows: '' @ e) | None \<Rightarrow> Inr cs)))"

definition DataQuality :: "('d, signal_cols) connection \<Rightarrow> data_quality_query \<Rightarrow> data_quality_signal list result" where
  "DataQuality conn q = map_sum id (map scan_signal) (run_query ''data quality'' ''data quality'' conn (dataQualitySQL q))"

definition Usage :: "('d \<Rightarrow> string) \<Rightarrow> ('d, 'd usage_cols) connection \<Rightarrow> analytics_query \<Rightarrow> usage_row list result" where
  "Usage str conn q = map_sum id (map (scan_usage str)) (run_query ''usage'' ''usage'' conn (usageSQL q))"

text \<open>Every row overwrites the metadata: those of the last row are returned.\<close>

definition zero_metadata :: cost_metadata where
  "zero_metadata = \<lparr> cm_Currency = [], cm_ComputationVersion = [], cm_ComputedAt = - 62135596800 * Second \<rparr>"

definition cost_meta :: "'d cost_cols list \<Rightarrow> cost_metadata" where
  "cost_meta cs = (if cs = [] then zero_metadata
     else \<lparr> cm_Currency = cc_Currency (last cs), cm_ComputationVersion = cc_ComputationVersion (last cs), cm_ComputedAt = cc_ComputedAt (last cs) \<rparr>)"

definition Costs ::
  "('d \<Rightarrow> string) \<Rightarrow> ('d, 'd cost_cols) connection \<Rightarrow> analytics_query \<Rightarrow> (cost_metadata \<times> cost_row list) result" where
  "Costs str conn q = map_sum id (\<lambda>cs. (cost_meta cs, map (scan_cost str) cs)) (run_query ''costs'' ''cost'' conn (costsSQL q))"

definition allocation_meta :: "'d allocation_cols list \<Rightarrow> cost_metadata" where
  "allocation_meta cs = (if cs = [] then zero_metadata
     else \<lparr> cm_Currency = alc_Currency (last cs), cm_ComputationVersion = alc_ComputationVersion (last cs), cm_ComputedAt = alc_ComputedAt (last cs) \<rparr>)"

definition Allocation ::
  "('d \<Rightarrow> string) \<Rightarrow> ('d, 'd allocation_cols) connection \<Rightarrow> analytics_query \<Rightarrow> (cost_metadata \<times> allocation_row list) result" where
  "Allocation str conn q =
     map_sum id (\<lambda>cs. (allocation_meta cs, map (scan_allocation str) cs)) (run_query ''allocation'' ''allocation'' conn (allocationSQL q))"

definition Recommendations ::
  "(string \<Rightarrow> 'd result) \<Rightarrow> ('d \<Rightarrow> string) \<Rightarrow> ('d, 'd recommendation_cols) connection \<Rightarrow> recommendation_query \<Rightarrow> recommendation_result list result" where
  "Recommendations parse str conn q = (case recommendationsSQL parse q of
       Inl e \<Rightarrow> Inl e
     | Inr st \<Rightarrow> map_sum id (map (scanRecommendation str)) (run_query ''recommendations'' ''recommendation'' conn st))"

definition ErrRecommendationNotFound :: error where
  "ErrRecommendationNotFound = ''recommendation not found''"

text \<open>Only the first row is read: an error of the iteration matters when there is none.\<close>

definition Recommendation ::
  "('d \<Rightarrow> string) \<Rightarrow> ('d, 'd recommendation_cols) connection \<Rightarrow> string \<Rightarrow> string \<Rightarrow> recommendation_result result" where
  "Recommendation str conn tenantID recommendationID =
     (case conn (fst (recommendation_statement tenantID recommendationID :: 'd statement)) (snd (recommendation_statement tenantID recommendationID)) of
       Inl e \<Rightarrow> Inl (''query recommendation: '' @ e)
     | Inr ([], Some e) \<Rightarrow> Inl (''read recommendation row: '' @ e)
     | Inr ([], None) \<Rightarrow> Inl ErrRecommendationNotFound
     | Inr (Inl e # _, _) \<Rightarrow> Inl (''scan recommendation row: '' @ e)
     | Inr (Inr c # _, _) \<Rightarrow> Inr (scanRecommendation str c))"

section \<open>Arguments never reach the text\<close>

abbreviation mark :: char where "mark \<equiv> CHR ''?''"

abbreviation placeholders :: "string \<Rightarrow> nat" where
  "placeholders s \<equiv> count_list s mark"

lemmas sql_text_defs = dq_sql_a_def dq_sql_b_def dq_sql_c_def usage_sql_0_def usage_sql_4_def usage_sql_5_def usage_sql_6_def
  costs_sql_0_def costs_sql_4_def costs_sql_5_def costs_sql_6_def allocation_sql_0_def allocation_sql_4_def allocation_sql_5_def
  allocation_sql_6_def recommendations_sql_def recommendations_tail_def

lemma mark_free [simp]:
  "mark \<notin> set dq_sql_a" "mark \<notin> set dq_sql_b" "mark \<notin> set dq_sql_c"
  "mark \<notin> set usage_sql_0" "mark \<notin> set usage_sql_4" "mark \<notin> set usage_sql_5" "mark \<notin> set usage_sql_6"
  "mark \<notin> set costs_sql_0" "mark \<notin> set costs_sql_4" "mark \<notin> set costs_sql_5" "mark \<notin> set costs_sql_6"
  "mark \<notin> set allocation_sql_0" "mark \<notin> set allocation_sql_4" "mark \<notin> set allocation_sql_5" "mark \<notin> set allocation_sql_6"
  "mark \<notin> set recommendations_sql" "mark \<notin> set recommendations_tail"
  by (simp_all add: sql_text_defs)

lemma mark_itoa [simp]: "mark \<notin> set (itoa_int n)"
proof -
  have "\<not> is_digit mark" by (simp add: is_digit_def)
  hence "mark \<notin> set (itoa m)" for m using digit_is_digit by blast
  thus ?thesis by (simp add: itoa_int_def)
qed

lemma mark_page [simp]: "mark \<notin> set (page_clause limit offset)"
  by (simp add: page_clause_def)

lemma mark_group:
  assumes "mark \<notin> set c" "mark \<notin> set u" "mark \<notin> set n" "mark \<notin> set a"
  shows "mark \<notin> set (group_columns (analyticsGroup g c u n a))" "mark \<notin> set (gs_groupBySuffix (analyticsGroup g c u n a))"
  using assms by (auto simp: analyticsGroup_def group_columns_def Let_def)

lemma where_placeholders:
  assumes "mark \<notin> set a" "mark \<notin> set t"
  shows "placeholders (fst (analyticsWhere q a t :: 'd statement)) = length (snd (analyticsWhere q a t :: 'd statement))"
  using assms by (simp add: analyticsWhere_def Let_def count_notin)

lemma where_text:
  "(c = []) = (aq_ClusterID q = []) \<Longrightarrow>
   fst (analyticsWhere (q\<lparr> aq_TenantID := t, aq_ClusterID := c, aq_Start := x, aq_End := y \<rparr>) a tc) = fst (analyticsWhere q a tc)"
  by (simp add: analyticsWhere_def Let_def)

lemma Join_placeholders: "mark \<notin> set sep \<Longrightarrow> placeholders (Join xs sep) = sum_list (map placeholders xs)"
  by (induction xs sep rule: Join.induct) (auto simp: count_notin)



end
