(* ===== verification/Gateway.thy ===== *)
theory Gateway
  imports Go_Http "HOL-Library.AList"
begin

text \<open>
  The API gateway (\<^verbatim>\<open>services/gateway\<close>): bearer tokens, routing, the identity headers it sets and the signature
  over them (\<^verbatim>\<open>internal/gatewayauth\<close>), the reverse proxy in between, and the check every HTTP service makes
  before it trusts a request (\<^verbatim>\<open>trustedGateway\<close>, \<^verbatim>\<open>authenticatedTenant\<close>, the same code in each service).
\<close>

section \<open>Signatures\<close>

text \<open>Header names in the canonical form in which \<^verbatim>\<open>net/http\<close> stores them.\<close>

definition TenantHeader :: string where "TenantHeader = ''X-Kube-Cost-Tenant-Id''"
definition IdentityHeader :: string where "IdentityHeader = ''X-Kube-Cost-Gateway-Identity''"
definition TimestampHeader :: string where "TimestampHeader = ''X-Kube-Cost-Gateway-Timestamp''"
definition SignatureHeader :: string where "SignatureHeader = ''X-Kube-Cost-Gateway-Signature''"
definition principalHeader :: string where "principalHeader = ''X-Kube-Cost-Principal-Id''"
definition authorizationHeader :: string where "authorizationHeader = ''Authorization''"
definition gatewaySecretHeader :: string where "gatewaySecretHeader = ''X-Kube-Cost-Gateway-Secret''"

lemmas header_names = TenantHeader_def IdentityHeader_def TimestampHeader_def SignatureHeader_def principalHeader_def
  authorizationHeader_def gatewaySecretHeader_def

definition ErrMissingSignature :: error where "ErrMissingSignature = ''gateway signature is required''"
definition ErrInvalidTimestamp :: error where "ErrInvalidTimestamp = ''gateway signature timestamp is invalid''"
definition ErrExpiredSignature :: error where
  "ErrExpiredSignature = ''gateway signature timestamp is outside allowed skew''"
definition ErrInvalidSignature :: error where "ErrInvalidSignature = ''gateway signature is invalid''"

abbreviation newline :: char where "newline \<equiv> CHR 0x0A"

definition signed_message :: "request \<Rightarrow> string \<Rightarrow> string \<Rightarrow> string" where
  "signed_message r identity timestamp =
     rq_Method r @ [newline] @ EscapedPath (rq_URL r) @ [newline] @ rq_RawQuery r @ [newline]
     @ header_Get (rq_Header r) TenantHeader @ [newline] @ identity @ [newline] @ timestamp"

definition signature :: "request \<Rightarrow> string \<Rightarrow> string \<Rightarrow> string \<Rightarrow> string" where
  "signature r identity timestamp key = b64_EncodeToString (hmac_sha256 key (signed_message r identity timestamp))"

definition SignRequest :: "string \<Rightarrow> string \<Rightarrow> gotime \<Rightarrow> request \<Rightarrow> request" where
  "SignRequest identity0 key0 now r =
     (let key = TrimSpace key0 in
      if key = [] then r
      else
        let identity = (if TrimSpace identity0 = [] then ''gateway'' else TrimSpace identity0);
            timestamp = itoa_int (time_Unix now);
            r1 = r\<lparr> rq_Header := header_Set (rq_Header r) IdentityHeader identity \<rparr>;
            r2 = r1\<lparr> rq_Header := header_Set (rq_Header r1) TimestampHeader timestamp \<rparr>
        in r2\<lparr> rq_Header := header_Set (rq_Header r2) SignatureHeader (signature r2 identity timestamp key) \<rparr>)"

definition VerifyRequest :: "request \<Rightarrow> string \<Rightarrow> gotime \<Rightarrow> duration \<Rightarrow> error option" where
  "VerifyRequest r key0 now maxSkew =
     (let key = TrimSpace key0 in
      if key = [] then None
      else
        let identity = TrimSpace (header_Get (rq_Header r) IdentityHeader);
            timestamp = TrimSpace (header_Get (rq_Header r) TimestampHeader);
            actual = TrimSpace (header_Get (rq_Header r) SignatureHeader)
        in if identity = [] \<or> timestamp = [] \<or> actual = [] then Some ErrMissingSignature
           else case ParseInt64 timestamp of
               None \<Rightarrow> Some ErrInvalidTimestamp
             | Some seconds \<Rightarrow>
                 let signedAt = unix_time seconds in
                 if maxSkew > 0 \<and> (time_Sub now signedAt > maxSkew \<or> time_Sub signedAt now > maxSkew)
                 then Some ErrExpiredSignature
                 else if actual \<noteq> signature r identity timestamp key then Some ErrInvalidSignature
                 else None)"

section \<open>Configuration\<close>

definition parse_token :: "string \<Rightarrow> (string \<times> string) option" where
  "parse_token item = (case Cut (CHR '':'') item of
       Some p \<Rightarrow> Some p
     | None \<Rightarrow> Cut (CHR ''='') item)"

text \<open>A Go map that is only built, counted and read is the association list of its entries.\<close>

fun parse_tokens :: "string list \<Rightarrow> (string \<times> string) list \<Rightarrow> (string \<times> string) list" where
  "parse_tokens [] m = m"
| "parse_tokens (x # xs) m =
     (let item = TrimSpace x in
      if item = [] then parse_tokens xs m
      else case parse_token item of
          None \<Rightarrow> parse_tokens xs m
        | Some (tok, ten) \<Rightarrow>
            if TrimSpace tok \<noteq> [] \<and> TrimSpace ten \<noteq> []
            then parse_tokens xs (AList.update (TrimSpace tok) (TrimSpace ten) m) else parse_tokens xs m)"

definition parseTokenTenants :: "string \<Rightarrow> (string \<times> string) list" where
  "parseTokenTenants value = parse_tokens (Split1 (CHR '','') value) []"

definition valueOrDefault :: "string \<Rightarrow> string \<Rightarrow> string" where
  "valueOrDefault value fallback = (if TrimSpace value = [] then fallback else TrimSpace value)"

text \<open>\<^verbatim>\<open>parse\<close> stands for \<^verbatim>\<open>url.Parse\<close>.\<close>

definition parseRequiredURL :: "(string \<Rightarrow> url option) \<Rightarrow> string \<Rightarrow> string \<Rightarrow> url result" where
  "parseRequiredURL parse name value0 =
     (let value = TrimSpace value0 in
      if value = [] then Inl (name @ '' is required'')
      else case parse value of
          None \<Rightarrow> Inl (name @ '' must be an absolute URL'')
        | Some u \<Rightarrow> if url_Scheme u = [] \<or> url_Host u = [] then Inl (name @ '' must be an absolute URL'') else Inr u)"

datatype backend = Query | ClusterRegistry | Pricing | Workflow | Export | Tenant | Audit | Identity | Policy | Integrations

definition backend_env :: "(string \<times> backend) list" where
  "backend_env = [(''QUERY_URL'', Query), (''CLUSTER_REGISTRY_URL'', ClusterRegistry), (''PRICING_URL'', Pricing),
     (''WORKFLOW_URL'', Workflow), (''EXPORT_URL'', Export), (''TENANT_URL'', Tenant), (''AUDIT_URL'', Audit),
     (''IDENTITY_URL'', Identity), (''POLICY_URL'', Policy), (''INTEGRATIONS_URL'', Integrations)]"

record gateway_config =
  gc_HTTPAddress :: string
  gc_TokenTenants :: "(string \<times> string) list"
  gc_TokenPrincipals :: "(string \<times> string) list"
  gc_URLs :: "backend \<Rightarrow> url option"
  gc_BackendSharedSecret :: string
  gc_BackendSigningKey :: string
  gc_GatewayIdentity :: string

fun parse_urls ::
  "(string \<Rightarrow> url option) \<Rightarrow> (string \<Rightarrow> string) \<Rightarrow> (string \<times> backend) list \<Rightarrow> (backend \<Rightarrow> url option) \<Rightarrow> (backend \<Rightarrow> url option) result" where
  "parse_urls parse env [] m = Inr m"
| "parse_urls parse env ((name, b) # rest) m = (case parseRequiredURL parse name (env name) of
       Inl e \<Rightarrow> Inl e
     | Inr u \<Rightarrow> parse_urls parse env rest (m(b \<mapsto> u)))"

definition gateway_ConfigFromEnv :: "(string \<Rightarrow> url option) \<Rightarrow> (string \<Rightarrow> string) \<Rightarrow> gateway_config result" where
  "gateway_ConfigFromEnv parse env = (case parse_urls parse env backend_env Map.empty of
       Inl e \<Rightarrow> Inl e
     | Inr urls \<Rightarrow>
         let tenants = parseTokenTenants (env ''GATEWAY_TOKEN_TENANTS'') in
         if tenants = []
         then Inl ''GATEWAY_TOKEN_TENANTS must contain at least one token to tenant mapping''
         else Inr \<lparr> gc_HTTPAddress = valueOrDefault (env ''GATEWAY_HTTP_ADDRESS'') '':8080'', gc_TokenTenants = tenants,
             gc_TokenPrincipals = parseTokenTenants (env ''GATEWAY_TOKEN_PRINCIPALS''), gc_URLs = urls,
             gc_BackendSharedSecret = TrimSpace (env ''GATEWAY_BACKEND_SHARED_SECRET''),
             gc_BackendSigningKey = TrimSpace (env ''GATEWAY_BACKEND_SIGNING_KEY''),
             gc_GatewayIdentity = valueOrDefault (env ''GATEWAY_IDENTITY'') ''gateway'' \<rparr>)"

section \<open>Requests through the gateway\<close>

text \<open>The server holds the configuration as it is; the handlers of the backends are proxies to their URLs.\<close>

definition gateway_NewServer :: "gateway_config \<Rightarrow> gateway_config result" where
  "gateway_NewServer config =
     (if gc_TokenTenants config = [] then Inl ''token tenant mappings are required'' else Inr config)"

definition identityFromRequest :: "gateway_config \<Rightarrow> request \<Rightarrow> unit response + string \<times> string" where
  "identityFromRequest s r =
     (let auth = TrimSpace (header_Get (rq_Header r) authorizationHeader) in
      if \<not> prefix ''Bearer '' auth then Inl (Problem 401 ''unauthenticated'' ''Bearer token is required'')
      else
        let token = TrimSpace (TrimPrefix auth ''Bearer '') in
        case map_of (gc_TokenTenants s) token of
          None \<Rightarrow> Inl (Problem 403 ''forbidden'' ''token is not mapped to a tenant'')
        | Some tenantID \<Rightarrow>
            if tenantID = [] then Inl (Problem 403 ''forbidden'' ''token is not mapped to a tenant'')
            else Inr (tenantID, case map_of (gc_TokenPrincipals s) token of None \<Rightarrow> [] | Some p \<Rightarrow> p))"

definition gateway_headers :: "gateway_config \<Rightarrow> string \<Rightarrow> string \<Rightarrow> header \<Rightarrow> header" where
  "gateway_headers s tenantID principalID h =
     (let h1 = header_Del (header_Del (header_Del (header_Del h TenantHeader) principalHeader) authorizationHeader) gatewaySecretHeader;
          h2 = header_Set h1 TenantHeader tenantID;
          h3 = (if principalID \<noteq> [] then header_Set h2 principalHeader principalID else h2)
      in if gc_BackendSharedSecret s \<noteq> [] then header_Set h3 gatewaySecretHeader (gc_BackendSharedSecret s) else h3)"

definition authenticate :: "gateway_config \<Rightarrow> gotime \<Rightarrow> request \<Rightarrow> unit response + request" where
  "authenticate s now r = (case identityFromRequest s r of
       Inl resp \<Rightarrow> Inl resp
     | Inr (tenantID, principalID) \<Rightarrow>
         Inr (SignRequest (gc_GatewayIdentity s) (gc_BackendSigningKey s) now
           (r\<lparr> rq_Header := gateway_headers s tenantID principalID (rq_Header r) \<rparr>)))"

definition isRecommendationRead :: "request \<Rightarrow> bool" where
  "isRecommendationRead r = (rq_Method r = ''GET'' \<and> prefix ''/api/v1/recommendations/'' (url_Path (rq_URL r)))"

definition recommendationAction :: "string \<Rightarrow> string" where
  "recommendationAction path0 =
     (let path = TrimSuffix path0 ''/'' in
      if CHR ''/'' \<notin> set path then [] else rev (takeWhile (\<lambda>c. c \<noteq> CHR ''/'') (rev path)))"

definition isRecommendationCommand :: "request \<Rightarrow> bool" where
  "isRecommendationCommand r =
     (if rq_Method r \<noteq> ''POST'' \<or> \<not> prefix ''/api/v1/recommendations/'' (url_Path (rq_URL r)) then False
      else recommendationAction (url_Path (rq_URL r)) \<in> {''approve'', ''reject'', ''suppress'', ''execute''})"

definition route :: "request \<Rightarrow> backend option" where
  "route r =
     (let path = url_Path (rq_URL r) in
      if path = ''/api/v1/clusters'' \<or> prefix ''/api/v1/clusters/'' path then Some ClusterRegistry
      else if path = ''/api/v1/prices/catalog'' \<or> path = ''/api/v1/prices/effective'' \<or> path = ''/api/v1/billing/charges'' then Some Pricing
      else if path = ''/api/v1/recommendations'' \<or> isRecommendationRead r then Some Query
      else if isRecommendationCommand r then Some Workflow
      else if path = ''/api/v1/data-quality'' \<or> path = ''/api/v1/usage'' \<or> path = ''/api/v1/costs'' \<or> path = ''/api/v1/allocation'' then Some Query
      else if path = ''/api/v1/exports'' \<or> prefix ''/api/v1/exports/'' path then Some Export
      else if path = ''/api/v1/tenant'' \<or> prefix ''/api/v1/tenant/'' path then Some Tenant
      else if path = ''/api/v1/audit/events'' then Some Audit
      else if path = ''/api/v1/identity/principal'' then Some Identity
      else if path = ''/api/v1/policies'' \<or> prefix ''/api/v1/policies/'' path then Some Policy
      else if path = ''/api/v1/integrations'' \<or> prefix ''/api/v1/integrations/'' path then Some Integrations
      else None)"

text \<open>\<^verbatim>\<open>httputil.NewSingleHostReverseProxy\<close> towards a target without a path and query of its own: the request keeps its path
  and query, and loses its hop-by-hop headers.\<close>

definition gateway_proxy :: "request \<Rightarrow> request" where
  "gateway_proxy r = r\<lparr> rq_Header := removeHopByHopHeaders (rq_Header r) \<rparr>"

text \<open>\<^verbatim>\<open>Routes\<close>; \<^verbatim>\<open>ServeMux\<close> redirects a path that is not clean before it gets here.\<close>

datatype routed = Answered "unit response" | Forwarded backend request

definition gateway_serve :: "gateway_config \<Rightarrow> gotime \<Rightarrow> request \<Rightarrow> routed" where
  "gateway_serve s now r =
     (if rq_Method r = ''GET'' \<and> url_Path (rq_URL r) = ''/healthz'' then Answered (JSON 200 ())
      else case authenticate s now r of
          Inl resp \<Rightarrow> Answered resp
        | Inr r' \<Rightarrow> (case route r' of
              None \<Rightarrow> Answered (Problem 404 ''not_found'' ''route not found'')
            | Some b \<Rightarrow> Forwarded b (gateway_proxy r')))"

section \<open>The services' side\<close>

definition trustedGateway :: "(string \<Rightarrow> string) \<Rightarrow> gotime \<Rightarrow> request \<Rightarrow> 'a response option" where
  "trustedGateway env now r =
     (let expected = TrimSpace (env ''TRUSTED_GATEWAY_SECRET'') in
      if expected \<noteq> [] \<and> header_Get (rq_Header r) gatewaySecretHeader \<noteq> expected
      then Some (Problem 403 ''forbidden'' ''X-Kube-Cost-Gateway-Secret is required'')
      else case VerifyRequest r (TrimSpace (env ''TRUSTED_GATEWAY_SIGNING_KEY'')) now (5 * Minute) of
          Some err \<Rightarrow> Some (Problem 403 ''forbidden'' err)
        | None \<Rightarrow> None)"

definition authenticatedTenant :: "(string \<Rightarrow> string) \<Rightarrow> gotime \<Rightarrow> request \<Rightarrow> 'a response + string" where
  "authenticatedTenant env now r = (case trustedGateway env now r of
       Some resp \<Rightarrow> Inl resp
     | None \<Rightarrow>
         let tenantID = TrimSpace (header_Get (rq_Header r) TenantHeader) in
         if tenantID = [] then Inl (Problem 401 ''unauthenticated'' ''X-Kube-Cost-Tenant-ID is required'') else Inr tenantID)"

definition authenticatedPrincipal :: "(string \<Rightarrow> string) \<Rightarrow> gotime \<Rightarrow> request \<Rightarrow> 'a response + string \<times> string" where
  "authenticatedPrincipal env now r = (case authenticatedTenant env now r of
       Inl resp \<Rightarrow> Inl resp
     | Inr tenantID \<Rightarrow>
         let principalID = TrimSpace (header_Get (rq_Header r) principalHeader) in
         if principalID = [] then Inl (Problem 401 ''unauthenticated'' ''X-Kube-Cost-Principal-ID is required'')
         else Inr (tenantID, principalID))"

text \<open>The identity service tells a caller who it is (\<^verbatim>\<open>services/identity/server.go\<close>).\<close>

record principal_profile =
  pp_TenantID :: string
  pp_PrincipalID :: string
  pp_Source :: string
  pp_SeenAt :: gotime

definition identity_principal :: "(string \<Rightarrow> string) \<Rightarrow> gotime \<Rightarrow> request \<Rightarrow> principal_profile response" where
  "identity_principal env now r = (case authenticatedPrincipal env now r of
       Inl resp \<Rightarrow> resp
     | Inr (tenantID, principalID) \<Rightarrow>
         JSON 200 \<lparr> pp_TenantID = tenantID, pp_PrincipalID = principalID, pp_Source = ''gateway'', pp_SeenAt = now \<rparr>)"

section \<open>Lemmas\<close>

lemma names_distinct [simp]:
  "TenantHeader \<noteq> principalHeader" "TenantHeader \<noteq> authorizationHeader" "TenantHeader \<noteq> gatewaySecretHeader"
  "principalHeader \<noteq> authorizationHeader" "principalHeader \<noteq> gatewaySecretHeader" "authorizationHeader \<noteq> gatewaySecretHeader"
  "IdentityHeader \<noteq> TenantHeader" "TimestampHeader \<noteq> TenantHeader" "SignatureHeader \<noteq> TenantHeader"
  "IdentityHeader \<noteq> principalHeader" "TimestampHeader \<noteq> principalHeader" "SignatureHeader \<noteq> principalHeader"
  "IdentityHeader \<noteq> gatewaySecretHeader" "TimestampHeader \<noteq> gatewaySecretHeader" "SignatureHeader \<noteq> gatewaySecretHeader"
  "IdentityHeader \<noteq> authorizationHeader" "TimestampHeader \<noteq> authorizationHeader" "SignatureHeader \<noteq> authorizationHeader"
  "IdentityHeader \<noteq> TimestampHeader" "IdentityHeader \<noteq> SignatureHeader" "TimestampHeader \<noteq> SignatureHeader"
  by (simp_all add: header_names)

lemmas names_distinct_sym [simp] = names_distinct [symmetric]

text \<open>Tokens map to trimmed, non-empty values.\<close>

definition trimmed :: "(string \<times> string) list \<Rightarrow> bool" where
  "trimmed m = (\<forall>(k, v) \<in> set m. TrimSpace v = v \<and> v \<noteq> [])"

lemma trimmed_update: "trimmed m \<Longrightarrow> TrimSpace v = v \<Longrightarrow> v \<noteq> [] \<Longrightarrow> trimmed (AList.update k v m)"
  by (induction m) (auto simp: trimmed_def)

lemma trimmed_lookup: "trimmed m \<Longrightarrow> map_of m k = Some v \<Longrightarrow> TrimSpace v = v \<and> v \<noteq> []"
  by (auto simp: trimmed_def dest: map_of_SomeD)

lemma parse_tokens_trimmed: "trimmed m \<Longrightarrow> trimmed (parse_tokens xs m)"
  by (induction xs arbitrary: m) (auto simp: Let_def trimmed_update split: option.split prod.split)

lemma parseTokenTenants_trimmed: "trimmed (parseTokenTenants value)"
  unfolding parseTokenTenants_def by (rule parse_tokens_trimmed) (simp add: trimmed_def)

lemma ConfigFromEnv_fields:
  assumes "gateway_ConfigFromEnv parse env = Inr s"
  shows "trimmed (gc_TokenTenants s)" "trimmed (gc_TokenPrincipals s)"
    "TrimSpace (gc_BackendSharedSecret s) = gc_BackendSharedSecret s" "TrimSpace (gc_BackendSigningKey s) = gc_BackendSigningKey s"
    "TrimSpace (gc_GatewayIdentity s) = gc_GatewayIdentity s" "gc_GatewayIdentity s \<noteq> []"
proof -
  have g: "TrimSpace ''gateway'' = ''gateway''" by (rule TrimSpace_printable) (simp_all add: printable_ascii)
  show "trimmed (gc_TokenTenants s)" "trimmed (gc_TokenPrincipals s)"
    "TrimSpace (gc_BackendSharedSecret s) = gc_BackendSharedSecret s" "TrimSpace (gc_BackendSigningKey s) = gc_BackendSigningKey s"
    "TrimSpace (gc_GatewayIdentity s) = gc_GatewayIdentity s" "gc_GatewayIdentity s \<noteq> []"
    using assms parseTokenTenants_trimmed g
    by (auto simp: gateway_ConfigFromEnv_def Let_def valueOrDefault_def split: sum.splits if_splits)
qed

lemma itoa_int_trim: "TrimSpace (itoa_int n) = itoa_int n" "itoa_int n \<noteq> []"
proof -
  have d: "c \<in> set (itoa_int n) \<Longrightarrow> printable c" for c
    using digit_is_digit by (intro printable_ascii) (fastforce simp: itoa_int_def is_digit_def split: if_splits)+
  show "itoa_int n \<noteq> []" by (simp add: itoa_int_def)
  thus "TrimSpace (itoa_int n) = itoa_int n" using d by (intro TrimSpace_printable) simp_all
qed

lemma signature_trim: "TrimSpace (signature r i t k) = signature r i t k" "signature r i t k \<noteq> []"
proof -
  show n: "signature r i t k \<noteq> []"
    using b64_length [of "hmac_sha256 k (signed_message r i t)"] sha256_length by (auto simp: signature_def hmac_sha256_def)
  thus "TrimSpace (signature r i t k) = signature r i t k"
    by (intro TrimSpace_printable) (auto simp: signature_def intro!: b64_printable [OF hd_in_set] b64_printable [OF last_in_set])
qed

lemma proxy_Get:
  "header_Get (removeHopByHopHeaders h) k = (if k \<in> set (connection_tokens h @ hop_headers) then [] else header_Get h k)"
  by (simp only: removeHopByHopHeaders_def header_Dels)

text \<open>Within the representable seconds, reading back a signed second gives the instant of its beginning.\<close>

lemma sint_of_int_id: "- (2 ^ 63) \<le> n \<Longrightarrow> n < 2 ^ 63 \<Longrightarrow> sint (of_int n :: i64) = n"
  by (simp add: sint_sbintrunc' signed_take_bit_int_eq_self)

lemma unix_time_id: "- (2 ^ 62) \<le> s \<Longrightarrow> s < 2 ^ 62 \<Longrightarrow> unix_time s = s * Second"
  unfolding unix_time_def by (subst sint_of_int_id) simp_all

lemma skew_ok:
  assumes "now \<le> now'" "now' - now \<le> 299 * Second" "0 \<le> now" "now < 2 ^ 62"
  shows "time_Sub now' (unix_time (time_Unix now)) \<le> 5 * Minute" "time_Sub (unix_time (time_Unix now)) now' \<le> 5 * Minute"
    "- (2 ^ 63) \<le> time_Unix now" "time_Unix now < 2 ^ 63"
proof -
  have u: "unix_time (time_Unix now) = now div Second * Second"
    using assms by (subst unix_time_id) (simp_all add: time_Unix_def)
  have "now - Second < now div Second * Second" "now div Second * Second \<le> now" by simp_all
  thus "time_Sub now' (unix_time (time_Unix now)) \<le> 5 * Minute" "time_Sub (unix_time (time_Unix now)) now' \<le> 5 * Minute"
    using assms u by (simp_all add: time_Sub_def)
  show "- (2 ^ 63) \<le> time_Unix now" "time_Unix now < 2 ^ 63" using assms by (simp_all add: time_Unix_def)
qed

section \<open>End to end\<close>

lemma SignRequest_fields:
  assumes "TrimSpace key \<noteq> []" "TrimSpace identity = identity" "identity \<noteq> []" "r' = SignRequest identity key now r"
  shows "header_Get (rq_Header r') IdentityHeader = identity" "header_Get (rq_Header r') TimestampHeader = itoa_int (time_Unix now)"
    "header_Get (rq_Header r') SignatureHeader = signature r' identity (itoa_int (time_Unix now)) (TrimSpace key)"
    "rq_Method r' = rq_Method r" "rq_URL r' = rq_URL r" "rq_RawQuery r' = rq_RawQuery r"
  using assms by (simp_all add: SignRequest_def Let_def signature_def signed_message_def)

lemma SignRequest_other:
  "k \<notin> {IdentityHeader, TimestampHeader, SignatureHeader} \<Longrightarrow> header_Get (rq_Header (SignRequest identity key now r)) k = header_Get (rq_Header r) k"
  by (auto simp: SignRequest_def Let_def)

text \<open>The signature depends on the request's line, its tenant header, and nothing else.\<close>

lemma signature_cong:
  "rq_Method r = rq_Method r' \<Longrightarrow> rq_URL r = rq_URL r' \<Longrightarrow> rq_RawQuery r = rq_RawQuery r' \<Longrightarrow>
   header_Get (rq_Header r) TenantHeader = header_Get (rq_Header r') TenantHeader \<Longrightarrow> signature r i t k = signature r' i t k"
  by (simp add: signature_def signed_message_def)

definition gateway_names :: "string list" where
  "gateway_names = [TenantHeader, principalHeader, gatewaySecretHeader, IdentityHeader, TimestampHeader, SignatureHeader]"

lemma gateway_names_kept:
  assumes "k \<in> set gateway_names" "set (connection_tokens h) \<inter> set gateway_names = {}"
  shows "header_Get (removeHopByHopHeaders h) k = header_Get h k"
proof -
  have "set hop_headers \<inter> set gateway_names = {}" by (simp add: hop_headers_def gateway_names_def header_names)
  thus ?thesis using assms by (auto simp: proxy_Get)
qed

lemma verify_signed:
  assumes "TrimSpace identity = identity" "identity \<noteq> []" "now \<le> now'" "now' - now \<le> 299 * Second" "0 \<le> now" "now < 2 ^ 62"
    "TrimSpace key' = TrimSpace key" "set (connection_tokens (rq_Header r)) \<inter> set gateway_names = {}"
    "connection_tokens (rq_Header (SignRequest identity key now r)) = connection_tokens (rq_Header r)"
  shows "VerifyRequest (gateway_proxy (SignRequest identity key now r)) key' now' (5 * Minute) = None"
proof (cases "TrimSpace key = []")
  case True
  thus ?thesis using assms(7) by (simp add: VerifyRequest_def)
next
  case False
  define r' where "r' = SignRequest identity key now r"
  note f = SignRequest_fields [OF False assms(1,2) r'_def]
  have g: "header_Get (rq_Header (gateway_proxy r')) k = header_Get (rq_Header r') k" if "k \<in> set gateway_names" for k
    using gateway_names_kept [OF that] assms(8,9) by (simp add: gateway_proxy_def r'_def)
  hence h: "header_Get (rq_Header (gateway_proxy r')) IdentityHeader = identity"
      "header_Get (rq_Header (gateway_proxy r')) TimestampHeader = itoa_int (time_Unix now)"
      "header_Get (rq_Header (gateway_proxy r')) SignatureHeader = signature r' identity (itoa_int (time_Unix now)) (TrimSpace key)"
    using f(1-3) by (simp_all add: gateway_names_def)
  have s: "signature (gateway_proxy r') i t k = signature r' i t k" for i t k
    by (rule signature_cong) (simp_all add: gateway_proxy_def g [unfolded gateway_proxy_def, simplified, of TenantHeader] gateway_names_def)
  show ?thesis unfolding r'_def [symmetric]
    using False assms(1,2,7) skew_ok [OF assms(3-6)]
    by (simp add: VerifyRequest_def Let_def h s itoa_int_trim signature_trim ParseInt64_itoa)
qed

lemma tokens_simps [simp]:
  "k \<noteq> ''Connection'' \<Longrightarrow> connection_tokens (header_Set h k v) = connection_tokens h"
  "k \<noteq> ''Connection'' \<Longrightarrow> connection_tokens (header_Del h k) = connection_tokens h"
  by (simp_all add: connection_tokens_def header_Set_def header_Del_def)

lemma names_not_Connection [simp]:
  "TenantHeader \<noteq> ''Connection''" "principalHeader \<noteq> ''Connection''" "authorizationHeader \<noteq> ''Connection''"
  "gatewaySecretHeader \<noteq> ''Connection''" "IdentityHeader \<noteq> ''Connection''" "TimestampHeader \<noteq> ''Connection''" "SignatureHeader \<noteq> ''Connection''"
  by (simp_all add: header_names)

lemma tokens_sign [simp]: "connection_tokens (rq_Header (SignRequest i k now r)) = connection_tokens (rq_Header r)"
  by (simp add: SignRequest_def Let_def)

lemma tokens_gateway [simp]: "connection_tokens (gateway_headers s t p h) = connection_tokens h"
  by (simp add: gateway_headers_def Let_def)

lemma gateway_headers_Get:
  "header_Get (gateway_headers s t p h) TenantHeader = t"
  "header_Get (gateway_headers s t p h) principalHeader = p"
  "header_Get (gateway_headers s t p h) gatewaySecretHeader = gc_BackendSharedSecret s"
  "header_Get (gateway_headers s t p h) authorizationHeader = []"
  by (simp_all add: gateway_headers_def Let_def)

lemma identityE:
  assumes "identityFromRequest s r = Inr (t, p)" "trimmed (gc_TokenTenants s)"
  obtains tok where "prefix ''Bearer '' (TrimSpace (header_Get (rq_Header r) authorizationHeader))"
    "tok = TrimSpace (TrimPrefix (TrimSpace (header_Get (rq_Header r) authorizationHeader)) ''Bearer '')"
    "map_of (gc_TokenTenants s) tok = Some t" "p = (case map_of (gc_TokenPrincipals s) tok of None \<Rightarrow> [] | Some p \<Rightarrow> p)" "TrimSpace t = t" "t \<noteq> []"
proof -
  let ?tok = "TrimSpace (TrimPrefix (TrimSpace (header_Get (rq_Header r) authorizationHeader)) ''Bearer '')"
  have "prefix ''Bearer '' (TrimSpace (header_Get (rq_Header r) authorizationHeader))" "map_of (gc_TokenTenants s) ?tok = Some t"
      "p = (case map_of (gc_TokenPrincipals s) ?tok of None \<Rightarrow> [] | Some p \<Rightarrow> p)"
    using assms(1) unfolding identityFromRequest_def Let_def by (auto split: if_splits option.splits)
  thus thesis using that [of ?tok] trimmed_lookup [OF assms(2)] by auto
qed

lemma serve_ForwardedE:
  assumes "gateway_serve s now r = Forwarded b r'"
  obtains t p where "identityFromRequest s r = Inr (t, p)"
    "r' = gateway_proxy (SignRequest (gc_GatewayIdentity s) (gc_BackendSigningKey s) now (r\<lparr> rq_Header := gateway_headers s t p (rq_Header r) \<rparr>))"
  using assms unfolding gateway_serve_def authenticate_def by (auto split: if_splits sum.splits option.splits prod.splits)

text \<open>The headers that reach the service, unless the client named them in \<^verbatim>\<open>Connection\<close>.\<close>

lemma forwarded_headers:
  assumes "r' = gateway_proxy (SignRequest i k now (r\<lparr> rq_Header := gateway_headers s t p (rq_Header r) \<rparr>))"
    "set (connection_tokens (rq_Header r)) \<inter> set gateway_names = {}"
  shows "header_Get (rq_Header r') TenantHeader = t" "header_Get (rq_Header r') principalHeader = p"
    "header_Get (rq_Header r') gatewaySecretHeader = gc_BackendSharedSecret s"
proof -
  let ?r = "SignRequest i k now (r\<lparr> rq_Header := gateway_headers s t p (rq_Header r) \<rparr>)"
  have "header_Get (rq_Header r') n = header_Get (rq_Header ?r) n" if "n \<in> set gateway_names" for n
    using gateway_names_kept [OF that, of "rq_Header ?r"] assms by (simp add: gateway_proxy_def)
  thus "header_Get (rq_Header r') TenantHeader = t" "header_Get (rq_Header r') principalHeader = p"
      "header_Get (rq_Header r') gatewaySecretHeader = gc_BackendSharedSecret s"
    by (simp_all add: SignRequest_other gateway_headers_Get gateway_names_def)
qed


text \<open>A configuration for the examples.\<close>

definition sample_genv :: "string \<Rightarrow> string" where
  "sample_genv name =
     (if name = ''GATEWAY_TOKEN_TENANTS'' then ''tk:acme''
      else if name = ''GATEWAY_TOKEN_PRINCIPALS'' then ''tk=ann''
      else if name = ''GATEWAY_BACKEND_SIGNING_KEY'' then ''k''
      else if name \<in> {''GATEWAY_BACKEND_SHARED_SECRET'', ''GATEWAY_HTTP_ADDRESS'', ''GATEWAY_IDENTITY''} then []
      else ''u'')"

definition sample_parse :: "string \<Rightarrow> url option" where
  "sample_parse v = Some \<lparr> url_Scheme = ''http'', url_Host = v, url_Path = [], url_RawPath = [] \<rparr>"

definition sample_benv :: "string \<Rightarrow> string" where
  "sample_benv name = (if name = ''TRUSTED_GATEWAY_SIGNING_KEY'' then ''k'' else [])"

definition sample_request :: "header \<Rightarrow> request" where
  "sample_request h = \<lparr> rq_Method = ''GET'', rq_URL = \<lparr> url_Scheme = [], url_Host = [], url_Path = ''/api/v1/costs'', url_RawPath = [] \<rparr>,
     rq_RawQuery = [], rq_Header = h(''Authorization'' \<mapsto> [''Bearer tk''], ''X-Kube-Cost-Tenant-Id'' \<mapsto> [''evil'']) \<rparr>"

definition sample_gateway :: gateway_config where
  "sample_gateway = (case gateway_ConfigFromEnv sample_parse sample_genv of Inr s \<Rightarrow> s)"

lemma sample_gateway_config: "gateway_ConfigFromEnv sample_parse sample_genv = Inr sample_gateway"
proof -
  note t = TrimSpace_printable printable_ascii
  have u: "TrimSpace ''u'' = ''u''" by (simp add: t)
  have "parseRequiredURL sample_parse n (sample_genv n) = Inr \<lparr> url_Scheme = ''http'', url_Host = ''u'', url_Path = [], url_RawPath = [] \<rparr>"
    if "sample_genv n = ''u''" for n
    using that u by (simp add: parseRequiredURL_def sample_parse_def)
  moreover have "sample_genv ''QUERY_URL'' = ''u''" "sample_genv ''CLUSTER_REGISTRY_URL'' = ''u''" "sample_genv ''PRICING_URL'' = ''u''"
    "sample_genv ''WORKFLOW_URL'' = ''u''" "sample_genv ''EXPORT_URL'' = ''u''" "sample_genv ''TENANT_URL'' = ''u''"
    "sample_genv ''AUDIT_URL'' = ''u''" "sample_genv ''IDENTITY_URL'' = ''u''" "sample_genv ''POLICY_URL'' = ''u''"
    "sample_genv ''INTEGRATIONS_URL'' = ''u''"
    by (simp_all add: sample_genv_def)
  ultimately have "\<exists>m. parse_urls sample_parse sample_genv backend_env Map.empty = Inr m" by (simp add: backend_env_def)
  moreover have "parseTokenTenants (sample_genv ''GATEWAY_TOKEN_TENANTS'') \<noteq> []"
    by (simp add: parseTokenTenants_def sample_genv_def parse_token_def t)
  ultimately show ?thesis by (auto simp: sample_gateway_def gateway_ConfigFromEnv_def Let_def split: sum.splits)
qed

lemma sample_gateway_fields:
  "gc_TokenTenants sample_gateway = [(''tk'', ''acme'')]" "gc_TokenPrincipals sample_gateway = [(''tk'', ''ann'')]"
  "gc_BackendSharedSecret sample_gateway = []" "gc_BackendSigningKey sample_gateway = ''k''"
proof -
  note t = TrimSpace_printable printable_ascii
  obtain m where g: "sample_gateway = \<lparr> gc_HTTPAddress = '':8080'', gc_TokenTenants = [(''tk'', ''acme'')], gc_TokenPrincipals = [(''tk'', ''ann'')],
      gc_URLs = m, gc_BackendSharedSecret = [], gc_BackendSigningKey = ''k'', gc_GatewayIdentity = ''gateway'' \<rparr>"
    using sample_gateway_config that
    by (auto simp: gateway_ConfigFromEnv_def Let_def parseTokenTenants_def sample_genv_def parse_token_def valueOrDefault_def t
        simp del: parse_urls.simps split: sum.splits dest!: sym [of _ sample_gateway])
  thus "gc_TokenTenants sample_gateway = [(''tk'', ''acme'')]" "gc_TokenPrincipals sample_gateway = [(''tk'', ''ann'')]"
    "gc_BackendSharedSecret sample_gateway = []" "gc_BackendSigningKey sample_gateway = ''k''" by (simp_all add: g)
qed

lemma sample_served: "\<exists>r'. gateway_serve sample_gateway 0 (sample_request h) = Forwarded Query r'"
proof -
  note t = TrimSpace_printable printable_ascii
  have "identityFromRequest sample_gateway (sample_request h) = Inr (''acme'', ''ann'')"
    by (simp add: identityFromRequest_def Let_def sample_request_def header_Get_def authorizationHeader_def TrimPrefix_def
        sample_gateway_fields t)
  moreover have "rq_URL (SignRequest i k n q) = rq_URL q" "rq_Method (SignRequest i k n q) = rq_Method q" for i k n q
    by (simp_all add: SignRequest_def Let_def)
  ultimately show ?thesis
    by (simp add: gateway_serve_def authenticate_def route_def Let_def sample_request_def isRecommendationRead_def isRecommendationCommand_def)
qed


section \<open>What the signature protects\<close>

lemma split_first: "x \<notin> set a \<Longrightarrow> x \<notin> set b \<Longrightarrow> a @ x # as = b @ x # bs \<longleftrightarrow> a = b \<and> as = bs"
proof (induction a arbitrary: b)
  case (Cons c a)
  thus ?case by (cases b) auto
next
  case Nil
  thus ?case by (cases b) auto
qed

lemma split_last:
  assumes "x \<notin> set as" "x \<notin> set bs" shows "a @ x # as = b @ x # bs \<longleftrightarrow> a = b \<and> as = bs"
proof -
  have "a @ x # as = b @ x # bs \<longleftrightarrow> rev (a @ x # as) = rev (b @ x # bs)" by (simp only: rev_is_rev_conv)
  thus ?thesis using split_first [of x "rev as" "rev bs" "rev a" "rev b"] assms by auto
qed

lemma ParseInt64_newline: "ParseInt64 s = Some n \<Longrightarrow> newline \<notin> set s"
  by (auto simp: ParseInt64_def Let_def list_all_iff is_digit_def split: list.splits if_splits)

lemma upper_hex_newline: "d < 16 \<Longrightarrow> upper_hex d \<noteq> newline"
proof
  assume d: "d < 16" "upper_hex d = newline"
  have "(of_char (upper_hex d) :: nat) = 10" by (simp add: d(2))
  thus False using d(1) by (simp add: upper_hex_def of_char_of take_bit_nat_eq_self split: if_splits)
qed

lemma EscapedPath_newline: "newline \<notin> set (EscapedPath u)"
proof -
  have e: "escape_path newline" by (simp add: escape_path_def alnum_def)
  hence v: "newline \<notin> set s" if "valid_encoded s" for s
    using bspec [OF that [unfolded valid_encoded_def], of newline] by auto
  have "newline \<notin> set (url_escape escape_path s)" for s
  proof (induction s)
    case (Cons c s)
    have "upper_hex (of_char c div 16) \<noteq> newline" "upper_hex (of_char c mod 16) \<noteq> newline"
      using of_char_bound [of c] by (intro upper_hex_newline; linarith)+
    thus ?case using Cons e by (auto simp: url_escape_def)
  qed (simp add: url_escape_def)
  thus ?thesis using v by (simp add: EscapedPath_def)
qed

lemma VerifyRequest_None:
  assumes "VerifyRequest r key now skew = None" "TrimSpace key \<noteq> []"
  shows "TrimSpace (header_Get (rq_Header r) SignatureHeader)
      = signature r (TrimSpace (header_Get (rq_Header r) IdentityHeader)) (TrimSpace (header_Get (rq_Header r) TimestampHeader)) (TrimSpace key)"
    and "newline \<notin> set (TrimSpace (header_Get (rq_Header r) TimestampHeader))"
  using assms ParseInt64_newline by (auto simp: VerifyRequest_def Let_def split: if_splits option.splits)

lemma principal_unsigned:
  "VerifyRequest (r\<lparr> rq_Header := header_Set (rq_Header r) principalHeader p \<rparr>) key now skew = VerifyRequest r key now skew"
  by (simp add: VerifyRequest_def Let_def signature_def signed_message_def)

text \<open>C30: A signature binds the request to its tenant.  If two requests verify under the same key with the same signature,
  they have the same method, path, query, tenant, gateway identity and time stamp, or the two different messages that were
  signed collide under HMAC-SHA256: the signed text cannot be split in two ways.  Method, query and tenant header have no line break, which
  is what an HTTP parser guarantees.\<close>
theorem gateway_signature_binds:
  assumes "VerifyRequest r1 key now1 skew1 = None" "VerifyRequest r2 key now2 skew2 = None" "TrimSpace key \<noteq> []"
    "TrimSpace (header_Get (rq_Header r1) SignatureHeader) = TrimSpace (header_Get (rq_Header r2) SignatureHeader)"
    "newline \<notin> set (rq_Method r1 @ rq_RawQuery r1 @ header_Get (rq_Header r1) TenantHeader)"
    "newline \<notin> set (rq_Method r2 @ rq_RawQuery r2 @ header_Get (rq_Header r2) TenantHeader)"
    "m1 = signed_message r1 (TrimSpace (header_Get (rq_Header r1) IdentityHeader)) (TrimSpace (header_Get (rq_Header r1) TimestampHeader))"
    "m2 = signed_message r2 (TrimSpace (header_Get (rq_Header r2) IdentityHeader)) (TrimSpace (header_Get (rq_Header r2) TimestampHeader))"
  shows "m1 \<noteq> m2 \<and> hmac_sha256 (TrimSpace key) m1 = hmac_sha256 (TrimSpace key) m2
    \<or> rq_Method r1 = rq_Method r2 \<and> EscapedPath (rq_URL r1) = EscapedPath (rq_URL r2) \<and> rq_RawQuery r1 = rq_RawQuery r2
      \<and> header_Get (rq_Header r1) TenantHeader = header_Get (rq_Header r2) TenantHeader
      \<and> TrimSpace (header_Get (rq_Header r1) IdentityHeader) = TrimSpace (header_Get (rq_Header r2) IdentityHeader)
      \<and> TrimSpace (header_Get (rq_Header r1) TimestampHeader) = TrimSpace (header_Get (rq_Header r2) TimestampHeader)"
proof -
  note v1 = VerifyRequest_None [OF assms(1,3)] and v2 = VerifyRequest_None [OF assms(2,3)]
  have "b64_EncodeToString (hmac_sha256 (TrimSpace key) m1) = b64_EncodeToString (hmac_sha256 (TrimSpace key) m2)"
    using v1(1) v2(1) assms(4,7,8) by (simp add: signature_def)
  moreover have "length (hmac_sha256 (TrimSpace key) m1) = length (hmac_sha256 (TrimSpace key) m2)"
    by (simp add: hmac_sha256_def sha256_length)
  ultimately have "hmac_sha256 (TrimSpace key) m1 = hmac_sha256 (TrimSpace key) m2" by (rule b64_EncodeToString_inject [rotated])
  moreover have ?thesis if "m1 = m2"
    using that assms(5-8) EscapedPath_newline v1(2) v2(2) by (simp add: signed_message_def split_first split_last)
  ultimately show ?thesis by blast
qed

theorem gateway_signature_binds_witness:
  "\<exists>r r2. VerifyRequest r ''k'' 5 (5 * Minute) = None \<and> VerifyRequest r2 ''k'' 7 (5 * Minute) = None \<and> rq_Header r \<noteq> rq_Header r2
     \<and> header_Get (rq_Header r) TenantHeader = ''acme'' \<and> header_Get (rq_Header r2) TenantHeader = ''acme''"
proof -
  define q where "q = (sample_request Map.empty)\<lparr> rq_Header := header_Set Map.empty TenantHeader ''acme'' \<rparr>"
  define r where "r = gateway_proxy (SignRequest ''gateway'' ''k'' 0 q)"
  have c: "connection_tokens (rq_Header q) = []" by (simp add: q_def connection_tokens_def header_Set_def TenantHeader_def)
  have v: "VerifyRequest r ''k'' 5 (5 * Minute) = None" unfolding r_def
    by (rule verify_signed) (simp_all add: c TrimSpace_printable printable_ascii)
  have t: "header_Get (rq_Header r) TenantHeader = ''acme''"
    using gateway_names_kept [of TenantHeader "rq_Header (SignRequest ''gateway'' ''k'' 0 q)"] c
    by (simp add: r_def gateway_proxy_def gateway_names_def SignRequest_other) (simp add: q_def)
  have m: "rq_Method r = ''GET''" "rq_RawQuery r = []"
    by (simp_all add: r_def gateway_proxy_def SignRequest_def Let_def q_def sample_request_def)
  define r2 where "r2 = r\<lparr> rq_Header := header_Set (rq_Header r) principalHeader ''eve'' \<rparr>"
  have "VerifyRequest r ''k'' 7 (5 * Minute) = None" unfolding r_def
    by (rule verify_signed) (simp_all add: c TrimSpace_printable printable_ascii)
  hence v2: "VerifyRequest r2 ''k'' 7 (5 * Minute) = None"
    by (simp add: r2_def principal_unsigned)
  have "header_Get (rq_Header r) principalHeader = []"
    by (simp add: r_def gateway_proxy_def proxy_Get SignRequest_other) (simp add: q_def header_Get_def header_Set_def)
  hence d: "rq_Header r \<noteq> rq_Header r2" by (auto simp: r2_def dest: arg_cong [where f = "\<lambda>h. header_Get h principalHeader"])
  have "TrimSpace ''k'' \<noteq> []" by (simp add: TrimSpace_printable printable_ascii)
  hence "header_Get (rq_Header r) TenantHeader = header_Get (rq_Header r2) TenantHeader"
    using gateway_signature_binds [OF v v2 _ _ _ _ refl refl] m t by (simp add: r2_def signed_message_def)
  thus ?thesis using v v2 d t by metis
qed

text \<open>C31: The principal is not protected.  The signature does not cover the principal header, so changing it keeps a request valid; and a
  client that names the header in \<^verbatim>\<open>Connection\<close> makes the gateway's own proxy drop it, so that its request reaches
  the service authenticated for the tenant but without a principal.\<close>
theorem gateway_principal_unprotected:
  "VerifyRequest (r\<lparr> rq_Header := header_Set (rq_Header r) principalHeader p \<rparr>) key now skew = VerifyRequest r key now skew
   \<and> (gateway_serve s now r = Forwarded b r' \<and> principalHeader \<in> set (connection_tokens (rq_Header r))
      \<longrightarrow> header_Get (rq_Header r') principalHeader = [])"
proof -
  have "header_Get (rq_Header r') principalHeader = []"
    if f: "gateway_serve s now r = Forwarded b r'" and c: "principalHeader \<in> set (connection_tokens (rq_Header r))"
  proof -
    obtain t q where "r' = gateway_proxy (SignRequest (gc_GatewayIdentity s) (gc_BackendSigningKey s) now (r\<lparr> rq_Header := gateway_headers s t q (rq_Header r) \<rparr>))"
      by (rule serve_ForwardedE [OF f])
    thus ?thesis using c by (simp add: gateway_proxy_def proxy_Get)
  qed
  thus ?thesis using principal_unsigned by blast
qed

theorem gateway_principal_unprotected_witness:
  "\<exists>r'. gateway_serve sample_gateway 0 (sample_request [''Connection'' \<mapsto> [''x-kube-cost-principal-id'']]) = Forwarded Query r'
     \<and> header_Get (rq_Header r') principalHeader = []"
proof -
  let ?r = "sample_request [''Connection'' \<mapsto> [''x-kube-cost-principal-id'']]"
  obtain r' where r: "gateway_serve sample_gateway 0 ?r = Forwarded Query r'" using sample_served by blast
  have "connection_tokens (rq_Header ?r) = map CanonicalHeaderKey [''x-kube-cost-principal-id'']"
    by (simp add: connection_tokens_def sample_request_def TrimString_def)
  moreover have "CanonicalHeaderKey ''x-kube-cost-principal-id'' = principalHeader" unfolding principalHeader_def by code_simp
  ultimately show ?thesis using gateway_principal_unprotected [of ?r _ _ 0 _ sample_gateway Query r'] r by simp
qed

end
