(* ===== verification/Go_Json.thy ===== *)
theory Go_Json
  imports Go_Http
begin

text \<open>
  The parts of \<^verbatim>\<open>encoding/json\<close>, \<^verbatim>\<open>unicode/utf8\<close> and \<^verbatim>\<open>encoding/base64\<close> that the services call: \<^verbatim>\<open>Marshal\<close> of strings with
  HTML escaping and of nested values, the scanner with \<^verbatim>\<open>Unmarshal\<close>'s treatment of escapes, surrogates and malformed UTF-8,
  the lookup of struct fields, and decoding of unpadded URL base64.  Values that decode back are the round trips at the end.
\<close>

section \<open>UTF-8\<close>

definition cont_byte :: "nat \<Rightarrow> nat \<Rightarrow> char \<Rightarrow> bool" where
  "cont_byte lo hi c = (lo \<le> (of_char c :: nat) \<and> (of_char c :: nat) \<le> hi)"

text \<open>The range \<^verbatim>\<open>acceptRanges\<close> allows for the second byte.\<close>

definition second_byte :: "nat \<Rightarrow> char \<Rightarrow> bool" where
  "second_byte x = cont_byte (if x = 0xE0 then 0xA0 else if x = 0xF0 then 0x90 else 0x80) (if x = 0xED then 0x9F else if x = 0xF4 then 0x8F else 0xBF)"

text \<open>\<^verbatim>\<open>utf8.DecodeRune\<close>: the width of the encoding at the front, 0 where Go reports \<^verbatim>\<open>RuneError\<close> of width 1.\<close>

fun utf8_width :: "string \<Rightarrow> nat" where
  "utf8_width [] = 0"
| "utf8_width (c # s) =
     (let x = (of_char c :: nat) in
      if x < 0x80 then 1
      else if x < 0xC2 then 0
      else if x < 0xE0 then (case s of a # _ \<Rightarrow> if cont_byte 0x80 0xBF a then 2 else 0 | _ \<Rightarrow> 0)
      else if x < 0xF0 then
        (case s of a # b # _ \<Rightarrow>
           if second_byte x a \<and> cont_byte 0x80 0xBF b then 3 else 0
         | _ \<Rightarrow> 0)
      else if x < 0xF5 then
        (case s of a # b # d # _ \<Rightarrow>
           if second_byte x a \<and> cont_byte 0x80 0xBF b \<and> cont_byte 0x80 0xBF d then 4 else 0
         | _ \<Rightarrow> 0)
      else 0)"

declare utf8_width.simps(2) [simp del]

function utf8_Valid :: "string \<Rightarrow> bool" where
  "utf8_Valid s = (if s = [] then True else if utf8_width s = 0 then False else utf8_Valid (drop (utf8_width s) s))"
  by pat_completeness auto
termination by (relation "measure length") auto

declare utf8_Valid.simps [simp del]

definition utf8_encode :: "nat \<Rightarrow> string" where
  "utf8_encode r =
     (if r < 0x80 then [char_of r]
      else if r < 0x800 then [char_of (0xC0 + r div 0x40), char_of (0x80 + r mod 0x40)]
      else if r < 0x10000 then [char_of (0xE0 + r div 0x1000), char_of (0x80 + r div 0x40 mod 0x40), char_of (0x80 + r mod 0x40)]
      else [char_of (0xF0 + r div 0x40000), char_of (0x80 + r div 0x1000 mod 0x40), char_of (0x80 + r div 0x40 mod 0x40),
            char_of (0x80 + r mod 0x40)])"

abbreviation rune_error :: string where
  "rune_error \<equiv> [CHR 0xEF, CHR 0xBF, CHR 0xBD]"

section \<open>Values and their encoding\<close>

datatype json = JNull | JBool bool | JNum string | JStr string | JArr "json list" | JObj "(string \<times> json) list"

abbreviation quote :: char where "quote \<equiv> CHR 0x22"
abbreviation backslash :: char where "backslash \<equiv> CHR 0x5C"

text \<open>The escape of an ASCII character; \<^verbatim>\<open>htmlSafeSet\<close> leaves out the control characters, quotes, the backslash and the three HTML characters.\<close>

definition escape_char :: "char \<Rightarrow> string" where
  "escape_char c =
     (if c = quote \<or> c = backslash then [backslash, c]
      else if c = CHR 0x08 then [backslash, CHR ''b'']
      else if c = CHR 0x0C then [backslash, CHR ''f'']
      else if c = CHR 0x0A then [backslash, CHR ''n'']
      else if c = CHR 0x0D then [backslash, CHR ''r'']
      else if c = CHR 0x09 then [backslash, CHR ''t'']
      else if (of_char c :: nat) < 0x20 \<or> c = CHR ''<'' \<or> c = CHR ''>'' \<or> c = CHR ''&''
      then backslash # ''u00'' @ [hex_digit (of_char c div 16), hex_digit (of_char c mod 16)]
      else [c])"

function escape_string :: "string \<Rightarrow> string" where
  "escape_string s = (case s of
       [] \<Rightarrow> []
     | c # t \<Rightarrow>
         if (of_char c :: nat) < 0x80 then escape_char c @ escape_string t
         else let n = utf8_width s in
           if n = 0 then backslash # ''ufffd'' @ escape_string t
           else if take n s = utf8_encode 0x2028 then backslash # ''u2028'' @ escape_string (drop n s)
           else if take n s = utf8_encode 0x2029 then backslash # ''u2029'' @ escape_string (drop n s)
           else take n s @ escape_string (drop n s))"
  by pat_completeness auto
termination by (relation "measure length") auto

declare escape_string.simps [simp del]

definition json_string :: "string \<Rightarrow> string" where
  "json_string s = quote # escape_string s @ [quote]"

fun Marshal :: "json \<Rightarrow> string" where
  "Marshal JNull = ''null''"
| "Marshal (JBool b) = (if b then ''true'' else ''false'')"
| "Marshal (JNum n) = n"
| "Marshal (JStr s) = json_string s"
| "Marshal (JArr vs) = ''['' @ Join (map Marshal vs) '','' @ '']''"
| "Marshal (JObj fs) = ''{'' @ Join (map (\<lambda>(k, v). json_string k @ '':'' @ Marshal v) fs) '','' @ ''}''"

section \<open>Scanning and unquoting\<close>

fun hex4 :: "string \<Rightarrow> (nat \<times> string) option" where
  "hex4 (a # b # c # d # s) = (case (hex_value a, hex_value b, hex_value c, hex_value d) of
       (Some w, Some x, Some y, Some z) \<Rightarrow> Some (4096 * w + 256 * x + 16 * y + z, s)
     | _ \<Rightarrow> None)"
| "hex4 s = None"

definition surrogate :: "nat \<Rightarrow> bool" where
  "surrogate r = (0xD800 \<le> r \<and> r < 0xE000)"

text \<open>\<^verbatim>\<open>utf16.DecodeRune\<close> of a surrogate and the escape that may follow it; an unpaired one is replaced.\<close>

definition low_pair :: "nat \<Rightarrow> string \<Rightarrow> (nat \<times> string) option" where
  "low_pair r s = (case s of
       a # b # t \<Rightarrow>
         if a = backslash \<and> b = CHR ''u'' then
           (case hex4 t of
              Some (r', u) \<Rightarrow> if r < 0xDC00 \<and> 0xDC00 \<le> r' \<and> r' < 0xE000
                then Some (0x10000 + (r - 0xD800) * 0x400 + (r' - 0xDC00), u) else None
            | None \<Rightarrow> None)
         else None
     | _ \<Rightarrow> None)"

definition simple_escape :: "char \<Rightarrow> char option" where
  "simple_escape e =
     (if e = quote \<or> e = backslash \<or> e = CHR ''/'' then Some e
      else if e = CHR ''b'' then Some (CHR 0x08) else if e = CHR ''f'' then Some (CHR 0x0C)
      else if e = CHR ''n'' then Some (CHR 0x0A) else if e = CHR ''r'' then Some (CHR 0x0D)
      else if e = CHR ''t'' then Some (CHR 0x09) else None)"

lemma hex4_length: "hex4 s = Some (r, t) \<Longrightarrow> length s = length t + 4"
  by (cases s rule: hex4.cases) (auto split: option.splits)

lemma low_pair_length: "low_pair r s = Some (r', t) \<Longrightarrow> length t < length s"
  by (auto simp: low_pair_def split: list.splits option.splits if_splits dest: hex4_length)

text \<open>A string literal after its opening quote: its value and what follows the closing quote.\<close>

abbreviation prepend :: "string \<Rightarrow> (string \<times> string) option \<Rightarrow> (string \<times> string) option" where
  "prepend p x \<equiv> map_option (\<lambda>(v, r). (p @ v, r)) x"

function scan_string :: "string \<Rightarrow> (string \<times> string) option" where
  "scan_string s = (case s of
       [] \<Rightarrow> None
     | c # t \<Rightarrow>
         if c = quote then Some ([], t)
         else if c = backslash then
           (case t of
              [] \<Rightarrow> None
            | e # u \<Rightarrow>
                (case simple_escape e of
                   Some x \<Rightarrow> prepend [x] (scan_string u)
                 | None \<Rightarrow>
                     if e \<noteq> CHR ''u'' then None
                     else case hex4 u of
                         None \<Rightarrow> None
                       | Some (r, v) \<Rightarrow>
                           if surrogate r then
                             (case low_pair r v of
                                Some (r', w) \<Rightarrow> prepend (utf8_encode r') (scan_string w)
                              | None \<Rightarrow> prepend rune_error (scan_string v))
                           else prepend (utf8_encode r) (scan_string v)))
         else if (of_char c :: nat) < 0x20 then None
         else if (of_char c :: nat) < 0x80 then prepend [c] (scan_string t)
         else if utf8_width s = 0 then prepend rune_error (scan_string t)
         else prepend (take (utf8_width s) s) (scan_string (drop (utf8_width s) s)))"
  by pat_completeness auto
termination by (relation "measure length") (auto dest!: hex4_length low_pair_length)

declare scan_string.simps [simp del]

definition json_space :: "char \<Rightarrow> bool" where
  "json_space c = (c = CHR '' '' \<or> c = CHR 0x09 \<or> c = CHR 0x0D \<or> c = CHR 0x0A)"

abbreviation skip_space :: "string \<Rightarrow> string" where
  "skip_space s \<equiv> dropWhile json_space s"

text \<open>The number literal at the front: sign, integer part without leading zeros, fraction, exponent.\<close>

definition scan_digits :: "string \<Rightarrow> (string \<times> string) option" where
  "scan_digits s = (let d = takeWhile is_digit s in if d = [] then None else Some (d, dropWhile is_digit s))"

definition scan_exponent :: "string \<Rightarrow> (string \<times> string) option" where
  "scan_exponent s = (case s of
       e # t \<Rightarrow>
         if e = CHR ''e'' \<or> e = CHR ''E'' then
           (case t of
              g # u \<Rightarrow> if g = CHR ''+'' \<or> g = CHR ''-'' then prepend [e, g] (scan_digits u) else prepend [e] (scan_digits t)
            | [] \<Rightarrow> None)
         else Some ([], s)
     | [] \<Rightarrow> Some ([], []))"

definition scan_fraction :: "string \<Rightarrow> (string \<times> string) option" where
  "scan_fraction s = (case s of
       p # t \<Rightarrow>
         if p = CHR ''.'' then
           (case scan_digits t of None \<Rightarrow> None | Some (d, u) \<Rightarrow> prepend (p # d) (scan_exponent u))
         else scan_exponent s
     | [] \<Rightarrow> Some ([], []))"

definition scan_unsigned :: "string \<Rightarrow> (string \<times> string) option" where
  "scan_unsigned s = (case s of
       c # t \<Rightarrow>
         if c = CHR ''0'' then prepend [c] (scan_fraction t)
         else (case scan_digits s of None \<Rightarrow> None | Some (d, u) \<Rightarrow> prepend d (scan_fraction u))
     | [] \<Rightarrow> None)"

definition scan_number :: "string \<Rightarrow> (string \<times> string) option" where
  "scan_number s = (case s of
       c # t \<Rightarrow> if c = CHR ''-'' then prepend [c] (scan_unsigned t) else scan_unsigned s
     | [] \<Rightarrow> None)"

definition scan_word :: "string \<Rightarrow> json \<Rightarrow> string \<Rightarrow> (json \<times> string) option" where
  "scan_word w v s = (if prefix w s then Some (v, drop (length w) s) else None)"

lemma skip_space_Cons: "skip_space s = c # t \<Longrightarrow> length t < length s"
  using length_dropWhile_le [of json_space s] by simp

text \<open>A value and what follows it.  The scanner refuses more than 10000 open brackets; \<^verbatim>\<open>d\<close> is how many may still be opened.
  The comparisons of lengths always hold and let the recursion be well-founded.\<close>

function scan_value :: "nat \<Rightarrow> string \<Rightarrow> (json \<times> string) option"
  and scan_elements :: "nat \<Rightarrow> string \<Rightarrow> (json list \<times> string) option"
  and scan_members :: "nat \<Rightarrow> string \<Rightarrow> ((string \<times> json) list \<times> string) option" where
  "scan_value d s = (case skip_space s of
       [] \<Rightarrow> None
     | c # t \<Rightarrow>
         if c = quote then map_option (\<lambda>(v, r). (JStr v, r)) (scan_string t)
         else if c = CHR ''{'' then
           (case (d, skip_space t) of
              (Suc d', x # u) \<Rightarrow>
                if x = CHR ''}'' then Some (JObj [], u) else map_option (\<lambda>(v, r). (JObj v, r)) (scan_members d' t)
            | _ \<Rightarrow> None)
         else if c = CHR ''['' then
           (case (d, skip_space t) of
              (Suc d', x # u) \<Rightarrow>
                if x = CHR '']'' then Some (JArr [], u) else map_option (\<lambda>(v, r). (JArr v, r)) (scan_elements d' t)
            | _ \<Rightarrow> None)
         else if c = CHR ''t'' then scan_word ''true'' (JBool True) (c # t)
         else if c = CHR ''f'' then scan_word ''false'' (JBool False) (c # t)
         else if c = CHR ''n'' then scan_word ''null'' JNull (c # t)
         else map_option (\<lambda>(v, r). (JNum v, r)) (scan_number (c # t)))"
| "scan_elements d s = (case scan_value d s of
       None \<Rightarrow> None
     | Some (v, r) \<Rightarrow>
         (case skip_space r of
            [] \<Rightarrow> None
          | c # t \<Rightarrow>
              if c = CHR '']'' then Some ([v], t)
              else if c = CHR '','' \<and> length t < length s then map_option (\<lambda>(vs, r). (v # vs, r)) (scan_elements d t)
              else None))"
| "scan_members d s = (case skip_space s of
       [] \<Rightarrow> None
     | q # s1 \<Rightarrow>
         if q \<noteq> quote then None
         else case scan_string s1 of
             None \<Rightarrow> None
           | Some (k, s2) \<Rightarrow>
               (case skip_space s2 of
                  [] \<Rightarrow> None
                | x # s3 \<Rightarrow>
                    if x \<noteq> CHR '':'' \<or> length s3 \<ge> length s then None
                    else case scan_value d s3 of
                        None \<Rightarrow> None
                      | Some (v, r) \<Rightarrow>
                          (case skip_space r of
                             [] \<Rightarrow> None
                           | c # t \<Rightarrow>
                               if c = CHR ''}'' then Some ([(k, v)], t)
                               else if c = CHR '','' \<and> length t < length s then map_option (\<lambda>(vs, r). ((k, v) # vs, r)) (scan_members d t)
                               else None)))"
  by pat_completeness auto
termination
proof (relation "measure (\<lambda>x. case x of Inl (d, s) \<Rightarrow> 2 * length s | Inr (Inl (d, s)) \<Rightarrow> 2 * length s + 1 | Inr (Inr (d, s)) \<Rightarrow> 2 * length s + 1)")
qed (auto dest!: skip_space_Cons dest: sym)

declare scan_value.simps [simp del] scan_elements.simps [simp del] scan_members.simps [simp del]

text \<open>\<^verbatim>\<open>Unmarshal\<close> accepts one value with blanks around it; \<^verbatim>\<open>Decoder.Decode\<close> reads the first value and leaves the rest.\<close>

definition maxNestingDepth :: nat where "maxNestingDepth = 10000"

definition parse_json :: "string \<Rightarrow> json option" where
  "parse_json s = (case scan_value maxNestingDepth s of Some (v, r) \<Rightarrow> if skip_space r = [] then Some v else None | None \<Rightarrow> None)"

definition decode_json :: "string \<Rightarrow> json option" where
  "decode_json s = map_option fst (scan_value maxNestingDepth s)"

section \<open>Struct fields\<close>

text \<open>A key names the field whose name it equals, else the first whose name equals it after case folding (\<^verbatim>\<open>foldName\<close>); besides
  ASCII letters only the Kelvin sign and the long s fold to ASCII.\<close>

fun fold_name :: "string \<Rightarrow> string" where
  "fold_name [] = []"
| "fold_name (c # s) =
     (let x = (of_char c :: nat) in
      if 97 \<le> x \<and> x \<le> 122 then char_of (x - 32) # fold_name s
      else if prefix [CHR 0xE2, CHR 0x84, CHR 0xAA] (c # s) then CHR ''K'' # fold_name (drop 2 s)
      else if prefix [CHR 0xC5, CHR 0xBF] (c # s) then CHR ''S'' # fold_name (drop 1 s)
      else c # fold_name s)"

definition field_of :: "string list \<Rightarrow> string \<Rightarrow> string option" where
  "field_of names k = (if k \<in> set names then Some k else find (\<lambda>n. fold_name n = fold_name k) names)"

text \<open>Decoding into a string, integer and boolean field; \<^verbatim>\<open>null\<close> leaves the field alone, another type is an error that is
  reported once the rest was decoded.\<close>

definition into_string :: "json \<Rightarrow> string \<Rightarrow> string option" where
  "into_string v old = (case v of JStr s \<Rightarrow> Some s | JNull \<Rightarrow> Some old | _ \<Rightarrow> None)"

definition into_int :: "json \<Rightarrow> int \<Rightarrow> int option" where
  "into_int v old = (case v of JNum n \<Rightarrow> ParseInt64 n | JNull \<Rightarrow> Some old | _ \<Rightarrow> None)"

definition into_bool :: "json \<Rightarrow> bool \<Rightarrow> bool option" where
  "into_bool v old = (case v of JBool b \<Rightarrow> Some b | JNull \<Rightarrow> Some old | _ \<Rightarrow> None)"

text \<open>An object is decoded member by member into the struct; \<^verbatim>\<open>strict\<close> is \<^verbatim>\<open>DisallowUnknownFields\<close>.  As every caller drops the
  struct on an error, the result is \<^const>\<open>None\<close> then.\<close>

fun into_members :: "bool \<Rightarrow> string list \<Rightarrow> (string \<Rightarrow> json \<Rightarrow> 's \<Rightarrow> 's option) \<Rightarrow> (string \<times> json) list \<Rightarrow> 's \<Rightarrow> 's option" where
  "into_members strict names put [] x = Some x"
| "into_members strict names put ((k, v) # fs) x = (case field_of names k of
       None \<Rightarrow> if strict then None else into_members strict names put fs x
     | Some n \<Rightarrow> (case put n v x of None \<Rightarrow> None | Some x' \<Rightarrow> into_members strict names put fs x'))"

definition into_struct :: "bool \<Rightarrow> string list \<Rightarrow> (string \<Rightarrow> json \<Rightarrow> 's \<Rightarrow> 's option) \<Rightarrow> json \<Rightarrow> 's \<Rightarrow> 's option" where
  "into_struct strict names put v x = (case v of
       JObj fs \<Rightarrow> into_members strict names put fs x
     | JNull \<Rightarrow> Some x
     | _ \<Rightarrow> None)"

section \<open>Base64\<close>

definition b64_value :: "char \<Rightarrow> nat option" where
  "b64_value c = (let x = (of_char c :: nat) in
     if 65 \<le> x \<and> x \<le> 90 then Some (x - 65) else if 97 \<le> x \<and> x \<le> 122 then Some (x - 71)
     else if 48 \<le> x \<and> x \<le> 57 then Some (x + 4) else if x = 45 then Some 62 else if x = 95 then Some 63 else None)"

fun b64_groups :: "nat list \<Rightarrow> string option" where
  "b64_groups [] = Some []"
| "b64_groups [a] = None"
| "b64_groups [a, b] = Some [char_of (a * 4 + b div 16)]"
| "b64_groups [a, b, c] = Some [char_of (a * 4 + b div 16), char_of (b mod 16 * 16 + c div 4)]"
| "b64_groups (a # b # c # d # s) =
     map_option (\<lambda>r. char_of (a * 4 + b div 16) # char_of (b mod 16 * 16 + c div 4) # char_of (c mod 4 * 64 + d) # r) (b64_groups s)"

text \<open>\<^verbatim>\<open>RawURLEncoding.DecodeString\<close> skips line breaks and does not check the unused bits.\<close>

definition b64_DecodeString :: "string \<Rightarrow> string option" where
  "b64_DecodeString s =
     (let vs = map b64_value (filter (\<lambda>c. c \<noteq> CHR 0x0A \<and> c \<noteq> CHR 0x0D) s)
      in if list_all (\<lambda>v. v \<noteq> None) vs then b64_groups (map the vs) else None)"

section \<open>Round trips\<close>

lemma b64_value_char: "i < 64 \<Longrightarrow> b64_value (b64_char i) = Some i"
  by (auto simp: b64_value_def b64_code Let_def)

lemma b64_char_no_break: "i < 64 \<Longrightarrow> b64_char i \<noteq> CHR 0x0A \<and> b64_char i \<noteq> CHR 0x0D"
  using b64_code [of i] by (auto split: if_splits)

lemma char_of_parts:
  fixes a b c :: nat assumes "a < 256" "b < 256" "c < 256"
  shows "a div 4 * 4 + a mod 4 * 16 div 16 = a" "a div 4 * 4 + (a mod 4 * 16 + b div 16) div 16 = a"
    "(a mod 4 * 16 + b div 16) mod 16 * 16 + b mod 16 * 4 div 4 = b"
    "(a mod 4 * 16 + b div 16) mod 16 * 16 + (b mod 16 * 4 + c div 64) div 4 = b"
    "(b mod 16 * 4 + c div 64) mod 4 * 64 + c mod 64 = c"
proof -
  have "b div 16 < 16" "c div 64 < 4" using assms by linarith+
  then show "a div 4 * 4 + a mod 4 * 16 div 16 = a" "a div 4 * 4 + (a mod 4 * 16 + b div 16) div 16 = a"
    "(a mod 4 * 16 + b div 16) mod 16 * 16 + b mod 16 * 4 div 4 = b"
    "(a mod 4 * 16 + b div 16) mod 16 * 16 + (b mod 16 * 4 + c div 64) div 4 = b"
    "(b mod 16 * 4 + c div 64) mod 4 * 64 + c mod 64 = c" by simp_all
qed

lemmas byte_parts = char_of_parts [OF of_char_bound of_char_bound of_char_bound]

lemma b64_values:
  "filter (\<lambda>c. c \<noteq> CHR 0x0A \<and> c \<noteq> CHR 0x0D) (b64_EncodeToString s) = b64_EncodeToString s
   \<and> (\<exists>is. map b64_value (b64_EncodeToString s) = map Some is \<and> b64_groups is = Some s)"
proof (induction s rule: b64_EncodeToString.induct)
  case (2 a)
  show ?case
    by (simp add: b64_char_no_break b64_value_char b64_indices)
      (rule exI [of _ "[of_char a div 4, of_char a mod 4 * 16]"],
       simp only: b64_groups.simps list.map byte_parts char_of_char option.map conj_assoc simp_thms)
next
  case (3 a b)
  show ?case
    by (simp add: b64_char_no_break b64_value_char b64_indices)
      (rule exI [of _ "[of_char a div 4, of_char a mod 4 * 16 + of_char b div 16, of_char b mod 16 * 4]"],
       simp only: b64_groups.simps list.map byte_parts char_of_char option.map conj_assoc simp_thms)
next
  case (4 a b c s)
  then obtain js where "map b64_value (b64_EncodeToString s) = map Some js" "b64_groups js = Some s" by blast
  then show ?case using 4
    by (simp add: b64_char_no_break b64_value_char b64_indices)
      (rule exI [of _ "of_char a div 4 # (of_char a mod 4 * 16 + of_char b div 16) # (of_char b mod 16 * 4 + of_char c div 64)
        # (of_char c mod 64) # js"],
       simp only: b64_groups.simps list.map byte_parts char_of_char option.map conj_assoc simp_thms)
qed simp

lemma b64_roundtrip: "b64_DecodeString (b64_EncodeToString s) = Some s"
proof -
  obtain js where "map b64_value (b64_EncodeToString s) = map Some js" "b64_groups js = Some s" using b64_values by blast
  then show ?thesis using b64_values [of s] by (simp add: b64_DecodeString_def list_all_iff o_def)
qed

lemma utf8_width_ascii: "(of_char c :: nat) < 0x80 \<Longrightarrow> utf8_width (c # s) = 1"
  by (simp add: utf8_width.simps)

lemma utf8_width_cases:
  fixes c :: char defines "x \<equiv> (of_char c :: nat)"
  shows "x < 0x80 \<Longrightarrow> utf8_width (c # s) = 1" "0x80 \<le> x \<Longrightarrow> x < 0xC2 \<Longrightarrow> utf8_width (c # s) = 0"
    "0xC2 \<le> x \<Longrightarrow> x < 0xE0 \<Longrightarrow> utf8_width (c # s) = (case s of a # _ \<Rightarrow> if cont_byte 0x80 0xBF a then 2 else 0 | _ \<Rightarrow> 0)"
    "0xE0 \<le> x \<Longrightarrow> x < 0xF0 \<Longrightarrow> utf8_width (c # s) = (case s of a # b # _ \<Rightarrow> if second_byte x a \<and> cont_byte 0x80 0xBF b then 3 else 0 | _ \<Rightarrow> 0)"
    "0xF0 \<le> x \<Longrightarrow> x < 0xF5 \<Longrightarrow> utf8_width (c # s) = (case s of a # b # d # _ \<Rightarrow>
       if second_byte x a \<and> cont_byte 0x80 0xBF b \<and> cont_byte 0x80 0xBF d then 4 else 0 | _ \<Rightarrow> 0)"
    "0xF5 \<le> x \<Longrightarrow> utf8_width (c # s) = 0"
  unfolding x_def by (simp_all only: utf8_width.simps Let_def) simp_all

lemma utf8_width_shape:
  assumes "utf8_width s = n" "n \<noteq> 0" shows "utf8_width (take n s @ r) = n \<and> n \<le> length s"
proof (cases s)
  case (Cons c t)
  let ?x = "of_char c :: nat"
  consider "?x < 0x80" | "0x80 \<le> ?x" "?x < 0xC2" | "0xC2 \<le> ?x" "?x < 0xE0" | "0xE0 \<le> ?x" "?x < 0xF0" | "0xF0 \<le> ?x" "?x < 0xF5" | "0xF5 \<le> ?x"
    by linarith
  then show ?thesis
  proof cases
    case 1
    then show ?thesis using assms Cons by (auto simp: utf8_width_cases(1))
  next
    case 2
    then show ?thesis using assms Cons by (simp add: utf8_width_cases(2))
  next
    case 3
    then obtain a u where "t = a # u" "cont_byte 0x80 0xBF a" "n = 2"
      using assms Cons by (auto simp: utf8_width_cases(3) split: list.splits if_splits)
    then show ?thesis using 3 Cons by (simp add: utf8_width_cases(3))
  next
    case 4
    then obtain a b u where "t = a # b # u" "second_byte ?x a" "cont_byte 0x80 0xBF b" "n = 3"
      using assms Cons by (auto simp: utf8_width_cases(4) split: list.splits if_splits)
    then show ?thesis using 4 Cons by (simp add: utf8_width_cases(4))
  next
    case 5
    then obtain a b d u where "t = a # b # d # u" "second_byte ?x a" "cont_byte 0x80 0xBF b" "cont_byte 0x80 0xBF d" "n = 4"
      using assms Cons by (auto simp: utf8_width_cases(5) split: list.splits if_splits)
    then show ?thesis using 5 Cons by (simp add: utf8_width_cases(5))
  next
    case 6
    then show ?thesis using assms Cons by (simp add: utf8_width_cases(6))
  qed
qed (use assms in simp)

lemma utf8_width_append: "utf8_width s \<noteq> 0 \<Longrightarrow> utf8_width (take (utf8_width s) s @ r) = utf8_width s"
  using utf8_width_shape by blast

lemma utf8_width_le: "utf8_width s \<le> length s"
  using utf8_width_shape [OF refl, of s] by (cases "utf8_width s = 0") auto

lemma utf8_Valid_step: "s \<noteq> [] \<Longrightarrow> utf8_Valid s \<longleftrightarrow> utf8_width s \<noteq> 0 \<and> utf8_Valid (drop (utf8_width s) s)"
  by (subst utf8_Valid.simps) simp

lemma utf8_Valid_Nil [simp]: "utf8_Valid []"
  by (subst utf8_Valid.simps) simp

lemma utf8_Valid_ascii: "(of_char c :: nat) < 0x80 \<Longrightarrow> utf8_Valid (c # s) = utf8_Valid s"
  by (simp add: utf8_Valid_step utf8_width_ascii)

lemma utf8_Valid_ASCII: "\<forall>c \<in> set s. (of_char c :: nat) < 0x80 \<Longrightarrow> utf8_Valid s"
  by (induction s) (simp_all add: utf8_Valid_ascii)

lemma hex4_control: "x < 256 \<Longrightarrow> hex4 (CHR ''0'' # CHR ''0'' # hex_digit (x div 16) # hex_digit (x mod 16) # s) = Some (x, s)"
proof -
  assume "x < 256"
  then have "hex_value (hex_digit (x div 16)) = Some (x div 16)" "hex_value (hex_digit (x mod 16)) = Some (x mod 16)"
    by (auto intro!: hex_value_digit)
  moreover have "hex_value (CHR ''0'') = Some 0" by (simp add: hex_value_def)
  ultimately show ?thesis by simp
qed

lemma scan_control:
  assumes "(of_char c :: nat) < 0x80"
  shows "scan_string (backslash # CHR ''u'' # CHR ''0'' # CHR ''0'' # hex_digit (of_char c div 16) # hex_digit (of_char c mod 16) # r)
      = prepend [c] (scan_string r)"
proof -
  let ?t = "CHR ''0'' # CHR ''0'' # hex_digit (of_char c div 16) # hex_digit (of_char c mod 16) # r"
  have h: "hex4 ?t = Some (of_char c, r)" using of_char_bound [of c] by (rule hex4_control)
  have "utf8_encode (of_char c) = [c]" "\<not> surrogate (of_char c)" using assms by (simp_all add: utf8_encode_def surrogate_def)
  moreover have "scan_string (backslash # CHR ''u'' # t) = (case hex4 t of None \<Rightarrow> None
       | Some (r, v) \<Rightarrow> if surrogate r then (case low_pair r v of
            Some (r', w) \<Rightarrow> prepend (utf8_encode r') (scan_string w) | None \<Rightarrow> prepend rune_error (scan_string v))
          else prepend (utf8_encode r) (scan_string v))" for t
    by (subst scan_string.simps) (simp add: simple_escape_def)
  ultimately show ?thesis by (simp only: h option.case prod.case if_False)
qed

lemma scan_plain:
  assumes "(of_char c :: nat) < 0x80" "c \<noteq> quote" "c \<noteq> backslash" "\<not> (of_char c :: nat) < 0x20"
  shows "scan_string (c # r) = prepend [c] (scan_string r)"
  using assms by (subst scan_string.simps) simp

lemma scan_simple: "simple_escape x = Some y \<Longrightarrow> scan_string (backslash # x # r) = prepend [y] (scan_string r)"
  by (subst scan_string.simps) simp

lemma scan_escape_char:
  assumes "(of_char c :: nat) < 0x80" shows "scan_string (escape_char c @ r) = prepend [c] (scan_string r)"
proof -
  consider x where "escape_char c = [backslash, x]" "simple_escape x = Some c"
    | "escape_char c = backslash # ''u00'' @ [hex_digit (of_char c div 16), hex_digit (of_char c mod 16)]"
    | "escape_char c = [c]" "c \<noteq> quote" "c \<noteq> backslash" "\<not> (of_char c :: nat) < 0x20"
  proof (cases "c = quote \<or> c = backslash \<or> c = CHR 0x08 \<or> c = CHR 0x0C \<or> c = CHR 0x0A \<or> c = CHR 0x0D \<or> c = CHR 0x09")
    case True
    then have "\<exists>x. escape_char c = [backslash, x] \<and> simple_escape x = Some c"
      by (elim disjE) (simp_all add: escape_char_def simple_escape_def)
    with that(1) show ?thesis by blast
  next
    case False
    then show ?thesis using that(2,3)
      by (cases "(of_char c :: nat) < 0x20 \<or> c = CHR ''<'' \<or> c = CHR ''>'' \<or> c = CHR ''&''") (simp_all add: escape_char_def)
  qed
  then show ?thesis
  proof cases
    case 1
    then show ?thesis using scan_simple by simp
  next
    case 2
    then show ?thesis using scan_control [OF assms] by simp
  next
    case 3
    then show ?thesis using scan_plain assms by simp
  qed
qed

lemma scan_wide:
  assumes "0x80 \<le> (of_char (hd s) :: nat)" "utf8_width s \<noteq> 0" "s \<noteq> []"
  shows "scan_string (take (utf8_width s) s @ r) = prepend (take (utf8_width s) s) (scan_string r)"
proof -
  let ?n = "utf8_width s" and ?s = "take (utf8_width s) s @ r"
  obtain c t where s: "s = c # t" using assms(3) by (cases s) auto
  obtain k where k: "?n = Suc k" using assms(2) by (cases ?n) auto
  have w: "utf8_width ?s = ?n" by (rule utf8_width_append [OF assms(2)])
  have q: "?s = c # take k t @ r" using s k by simp
  have d: "take ?n ?s = take ?n s" "drop ?n ?s = r" using utf8_width_le [of s] by simp_all
  have c: "c \<noteq> quote" "c \<noteq> backslash" "\<not> (of_char c :: nat) < 0x20" "\<not> (of_char c :: nat) < 0x80" using assms(1) s by auto
  show ?thesis
    using w q d c assms(2) by (subst scan_string.simps) simp
qed

lemma scan_line_separators:
  "scan_string (backslash # ''u2028'' @ r) = prepend (utf8_encode 0x2028) (scan_string r)"
  "scan_string (backslash # ''u2029'' @ r) = prepend (utf8_encode 0x2029) (scan_string r)"
  by (subst scan_string.simps, simp add: simple_escape_def hex_value_def surrogate_def)+

lemma scan_escape_string: "utf8_Valid s \<Longrightarrow> scan_string (escape_string s @ quote # r) = Some (s, r)"
proof (induction s rule: length_induct)
  case (1 s)
  show ?case
  proof (cases s)
    case Nil
    then show ?thesis by (simp add: escape_string.simps [of "[]"]) (subst scan_string.simps, simp)
  next
    case (Cons c t)
    let ?n = "utf8_width s"
    have v: "?n \<noteq> 0" "utf8_Valid (drop ?n s)" using 1(2) Cons utf8_Valid_step [of s] by auto
    have ih: "scan_string (escape_string (drop ?n s) @ quote # r) = Some (drop ?n s, r)" using 1(1) v Cons by simp
    show ?thesis
    proof (cases "(of_char c :: nat) < 0x80")
      case True
      then have "escape_string s = escape_char c @ escape_string t" using Cons by (subst escape_string.simps) simp
      then show ?thesis using True ih Cons by (simp add: scan_escape_char utf8_width_ascii)
    next
      case False
      have w: "scan_string (take ?n s @ escape_string (drop ?n s) @ quote # r) = Some (s, r)"
        using scan_wide [of s] False v(1) Cons ih by simp
      have j: "take ?n s = x \<Longrightarrow> Some (x @ drop ?n s, r) = Some (s, r)" for x using append_take_drop_id [of ?n s] by simp
      have e: "escape_string s = (if take ?n s = utf8_encode 0x2028 then backslash # ''u2028'' @ escape_string (drop ?n s)
          else if take ?n s = utf8_encode 0x2029 then backslash # ''u2029'' @ escape_string (drop ?n s)
          else take ?n s @ escape_string (drop ?n s))"
        using escape_string.simps [of s] False v(1) unfolding Let_def by (simp only: Cons list.case if_False)
      consider "take ?n s = utf8_encode 0x2028" | "take ?n s \<noteq> utf8_encode 0x2028" "take ?n s = utf8_encode 0x2029"
        | "take ?n s \<noteq> utf8_encode 0x2028" "take ?n s \<noteq> utf8_encode 0x2029" by blast
      then show ?thesis
        by cases (simp_all only: e simp_thms if_True if_False append_Cons append_Nil append_assoc w scan_line_separators [unfolded append_Cons append_Nil] ih j option.map prod.case)
    qed
  qed
qed

text \<open>What may follow an encoded value: nothing, a comma or a closing bracket.\<close>

definition json_ends :: "string \<Rightarrow> bool" where
  "json_ends r = (case r of [] \<Rightarrow> True | c # _ \<Rightarrow> c = CHR '','' \<or> c = CHR '']'' \<or> c = CHR ''}'')"

lemma json_ends_simps [simp]: "json_ends []" "json_ends (CHR '','' # r)" "json_ends (CHR '']'' # r)" "json_ends (CHR ''}'' # r)"
  by (simp_all add: json_ends_def)

lemma json_ends_scan:
  assumes "json_ends r"
  shows "scan_fraction r = Some ([], r)" "takeWhile is_digit r = []" "dropWhile is_digit r = r"
  using assms by (cases r; auto simp: json_ends_def scan_fraction_def scan_exponent_def is_digit_def)+

lemma itoa_hd_zero: "hd (itoa n) = CHR ''0'' \<longleftrightarrow> n = 0"
proof (induction n rule: itoa.induct)
  case (1 n)
  show ?case
  proof (cases "n < 10")
    case True
    have "digit n = CHR ''0'' \<longleftrightarrow> (of_char (digit n) :: nat) = of_char (CHR ''0'')" by (metis of_char_eq_iff)
    then show ?thesis using True by (simp add: itoa.simps)
  next
    case False
    then have "hd (itoa n) = hd (itoa (n div 10))" by (subst itoa.simps) simp
    then show ?thesis using False 1 by simp
  qed
qed

lemma scan_digits_itoa: "json_ends r \<Longrightarrow> scan_digits (itoa n @ r) = Some (itoa n, r)"
  using json_ends_scan [of r] by (simp add: scan_digits_def digit_is_digit)

lemma scan_unsigned_itoa:
  assumes "json_ends r" shows "scan_unsigned (itoa n @ r) = Some (itoa n, r)"
proof (cases "n = 0")
  case True
  then have "itoa n = ''0''" using itoa_hd_zero [of 0] by (simp add: itoa.simps [of 0])
  then show ?thesis using json_ends_scan(1) [OF assms] by (simp add: scan_unsigned_def)
next
  case False
  then obtain c t where c: "itoa n = c # t" "c \<noteq> CHR ''0''" using itoa_hd_zero [of n] itoa_nonempty [of n] by (cases "itoa n") auto
  then show ?thesis using scan_digits_itoa [OF assms, of n] json_ends_scan(1) [OF assms] by (simp add: scan_unsigned_def)
qed

lemma scan_number_int: "json_ends r \<Longrightarrow> scan_number (itoa_int n @ r) = Some (itoa_int n, r)"
proof -
  assume r: "json_ends r"
  obtain c t where c: "itoa (nat n) = c # t" using itoa_nonempty [of "nat n"] by (cases "itoa (nat n)") auto
  then have "is_digit c" using digit_is_digit [of c "nat n"] by simp
  then have "c \<noteq> CHR ''-''" by (auto simp: is_digit_def)
  then show ?thesis using scan_unsigned_itoa [OF r, of "nat n"] scan_unsigned_itoa [OF r, of "nat (- n)"] c
    by (simp add: scan_number_def itoa_int_def)
qed

text \<open>Values \<^verbatim>\<open>Marshal\<close> writes so that they are read back: integers as numbers, valid UTF-8 as strings, at most \<^verbatim>\<open>d\<close> levels of nesting.\<close>

fun json_ok :: "nat \<Rightarrow> json \<Rightarrow> bool" where
  "json_ok d (JNum n) = (\<exists>i. n = itoa_int i)"
| "json_ok d (JStr s) = utf8_Valid s"
| "json_ok (Suc d) (JArr vs) = (\<forall>v \<in> set vs. json_ok d v)"
| "json_ok (Suc d) (JObj fs) = (\<forall>(k, v) \<in> set fs. utf8_Valid k \<and> json_ok d v)"
| "json_ok 0 (JArr vs) = False"
| "json_ok 0 (JObj fs) = False"
| "json_ok d JNull = True"
| "json_ok d (JBool b) = True"

definition opens :: "char \<Rightarrow> bool" where
  "opens c = (\<not> json_space c \<and> c \<noteq> CHR '']'' \<and> c \<noteq> CHR ''}'')"

lemma opens_digit: "is_digit c \<Longrightarrow> opens c \<and> c \<noteq> quote \<and> c \<noteq> CHR ''{'' \<and> c \<noteq> CHR ''['' \<and> c \<noteq> CHR ''t'' \<and> c \<noteq> CHR ''f'' \<and> c \<noteq> CHR ''n''"
  by (auto simp: is_digit_def opens_def json_space_def)

lemma itoa_int_head: "\<exists>c t. itoa_int n = c # t \<and> (is_digit c \<or> c = CHR ''-'')"
proof -
  obtain c t where c: "itoa (nat n) = c # t" using itoa_nonempty [of "nat n"] by (cases "itoa (nat n)") auto
  then show ?thesis using digit_is_digit [of c "nat n"] by (simp add: itoa_int_def)
qed

lemma Marshal_head: "json_ok d j \<Longrightarrow> \<exists>c t. Marshal j = c # t \<and> opens c"
proof (cases j)
  case (JNum n)
  assume "json_ok d j"
  then obtain i where "n = itoa_int i" using JNum by auto
  then show ?thesis using itoa_int_head [of i] JNum opens_digit by (auto simp: opens_def json_space_def)
qed (simp_all add: json_string_def opens_def json_space_def)

lemma skip_opens: "opens c \<Longrightarrow> skip_space (c # t) = c # t"
  by (simp add: opens_def)

lemma scan_json_string: "utf8_Valid s \<Longrightarrow> json_string s @ r = quote # escape_string s @ quote # r \<and> scan_string (escape_string s @ quote # r) = Some (s, r)"
  by (simp add: json_string_def scan_escape_string)

lemma json_space_simps [simp]:
  "\<not> json_space quote" "\<not> json_space (CHR ''{'')" "\<not> json_space (CHR ''['')" "\<not> json_space (CHR '','')" "\<not> json_space (CHR '':'')"
  "\<not> json_space (CHR ''}'')" "\<not> json_space (CHR '']'')" "\<not> json_space (CHR ''t'')" "\<not> json_space (CHR ''f'')" "\<not> json_space (CHR ''n'')"
  by (simp_all add: json_space_def)

lemma scan_value_number:
  assumes "json_ends r" shows "scan_value d (itoa_int n @ r) = Some (JNum (itoa_int n), r)"
proof -
  obtain c t where c: "itoa_int n = c # t" "is_digit c \<or> c = CHR ''-''" using itoa_int_head by blast
  from c(2) have "\<not> json_space c \<and> c \<noteq> quote \<and> c \<noteq> CHR ''{'' \<and> c \<noteq> CHR ''['' \<and> c \<noteq> CHR ''t'' \<and> c \<noteq> CHR ''f'' \<and> c \<noteq> CHR ''n''"
    by (elim disjE) (use opens_digit [of c] in \<open>simp_all add: opens_def json_space_def\<close>)
  moreover have "scan_number (c # t @ r) = Some (c # t, r)" using scan_number_int [OF assms, of n] c(1) by simp
  ultimately have "scan_value d (c # t @ r) = Some (JNum (c # t), r)" by (subst scan_value.simps) simp
  then show ?thesis using c(1) by simp
qed

definition reads_back :: "nat \<Rightarrow> json \<Rightarrow> bool" where
  "reads_back d v = (\<forall>r. json_ends r \<longrightarrow> scan_value d (Marshal v @ r) = Some (v, r))"

lemma scan_elements_Marshal:
  "\<forall>v \<in> set vs. reads_back d v \<Longrightarrow> vs \<noteq> [] \<Longrightarrow> scan_elements d (Join (map Marshal vs) '','' @ CHR '']'' # r) = Some (vs, r)"
proof (induction vs)
  case (Cons v vs)
  have v: "json_ends x \<Longrightarrow> scan_value d (Marshal v @ x) = Some (v, x)" for x using Cons.prems by (simp add: reads_back_def)
  show ?case
  proof (cases "vs = []")
    case True
    then show ?thesis using v [of "CHR '']'' # r"] by (subst scan_elements.simps) simp
  next
    case False
    let ?t = "Join (map Marshal vs) '','' @ CHR '']'' # r"
    have "scan_elements d ?t = Some (vs, r)" using Cons.IH Cons.prems(1) False by simp
    moreover have "Join (map Marshal (v # vs)) '','' @ CHR '']'' # r = Marshal v @ CHR '','' # ?t" using False by (simp add: Join_Cons)
    ultimately show ?thesis using v [of "CHR '','' # ?t"] by (subst scan_elements.simps) simp
  qed
qed simp

abbreviation member_text :: "string \<times> json \<Rightarrow> string" where
  "member_text \<equiv> \<lambda>(k, v). json_string k @ '':'' @ Marshal v"

lemma scan_members_Marshal:
  "\<forall>f \<in> set fs. utf8_Valid (fst f) \<and> reads_back d (snd f) \<Longrightarrow> fs \<noteq> []
   \<Longrightarrow> scan_members d (Join (map member_text fs) '','' @ CHR ''}'' # r) = Some (fs, r)"
proof (induction fs)
  case (Cons f fs)
  obtain k v where f: "f = (k, v)" by fastforce
  have k: "scan_string (escape_string k @ quote # x) = Some (k, x)" for x using Cons.prems(1) f by (simp add: scan_escape_string)
  have v: "json_ends x \<Longrightarrow> scan_value d (Marshal v @ x) = Some (v, x)" for x using Cons.prems(1) f by (simp add: reads_back_def)
  show ?case
  proof (cases "fs = []")
    case True
    then show ?thesis using v [of "CHR ''}'' # r"] k f by (subst scan_members.simps) (simp add: json_string_def)
  next
    case False
    let ?t = "Join (map member_text fs) '','' @ CHR ''}'' # r"
    have t: "scan_members d ?t = Some (fs, r)" using Cons.IH Cons.prems(1) False by simp
    have e: "Join (map member_text (f # fs)) '','' @ CHR ''}'' # r = quote # escape_string k @ quote # CHR '':'' # Marshal v @ CHR '','' # ?t"
      using False f by (simp add: json_string_def Join_Cons)
    have "scan_members d (quote # escape_string k @ quote # CHR '':'' # Marshal v @ CHR '','' # x) = Some (f # fs, r)"
      if x: "scan_members d x = Some (fs, r)" for x
      using v [of "CHR '','' # x"] k [of "CHR '':'' # Marshal v @ CHR '','' # x"] f x by (subst scan_members.simps) simp
    then show ?thesis using t unfolding e by blast
  qed
qed simp

lemma scan_value_bracket:
  assumes "opens x"
  shows "scan_value (Suc d) (CHR ''['' # x # t) = map_option (\<lambda>(v, r). (JArr v, r)) (scan_elements d (x # t))"
    "scan_value (Suc d) (CHR ''{'' # x # t) = map_option (\<lambda>(v, r). (JObj v, r)) (scan_members d (x # t))"
  using assms by (subst scan_value.simps, simp add: opens_def)+

lemma reads_back_array:
  assumes "\<forall>v \<in> set vs. json_ok d v \<and> reads_back d v" shows "reads_back (Suc d) (JArr vs)"
proof (cases vs)
  case Nil
  then show ?thesis unfolding reads_back_def by (subst scan_value.simps) simp
next
  case (Cons v ws)
  obtain c t where v: "Marshal v = c # t" "opens c" using Marshal_head [of d v] assms Cons by auto
  have "\<exists>u. Join (map Marshal vs) '','' = c # u" using Cons v(1) by (cases "ws = []") (simp_all add: Join_Cons)
  then obtain u where u: "Join (map Marshal vs) '','' = c # u" by blast
  have "scan_elements d (c # u @ CHR '']'' # r) = Some (vs, r)" for r using scan_elements_Marshal [of vs d r] assms Cons u by simp
  then show ?thesis using u v(2) by (simp add: reads_back_def scan_value_bracket)
qed

lemma reads_back_object:
  assumes "\<forall>f \<in> set fs. utf8_Valid (fst f) \<and> reads_back d (snd f)" shows "reads_back (Suc d) (JObj fs)"
proof (cases fs)
  case Nil
  then show ?thesis unfolding reads_back_def by (subst scan_value.simps) simp
next
  case (Cons f gs)
  have "\<exists>u. Join (map member_text fs) '','' = quote # u"
    using Cons by (cases f; cases "gs = []") (simp_all add: Join_Cons json_string_def)
  then obtain u where u: "Join (map member_text fs) '','' = quote # u" by blast
  have "scan_members d (quote # u @ CHR ''}'' # r) = Some (fs, r)" for r using scan_members_Marshal [of fs d r] assms Cons u by simp
  moreover have "opens quote" by (simp add: opens_def)
  ultimately show ?thesis using u by (simp add: reads_back_def scan_value_bracket)
qed

lemma reads_back_atom: "reads_back d JNull" "reads_back d (JBool b)" "utf8_Valid s \<Longrightarrow> reads_back d (JStr s)" "reads_back d (JNum (itoa_int n))"
proof -
  show "reads_back d JNull" unfolding reads_back_def by (subst scan_value.simps) (simp add: scan_word_def)
  show "reads_back d (JBool b)" unfolding reads_back_def by (cases b) (subst scan_value.simps, simp add: scan_word_def)+
  show "reads_back d (JNum (itoa_int n))" unfolding reads_back_def by (simp add: scan_value_number)
  assume "utf8_Valid s"
  then show "reads_back d (JStr s)" unfolding reads_back_def by (subst scan_value.simps) (simp add: json_string_def scan_escape_string)
qed

theorem Marshal_reads_back: "json_ok d j \<Longrightarrow> reads_back d j"
proof (induction d j rule: json_ok.induct)
  case (3 d vs)
  then show ?case by (intro reads_back_array) simp
next
  case (4 d fs)
  then show ?case by (intro reads_back_object) fastforce
qed (auto intro: reads_back_atom)

corollary parse_Marshal:
  assumes "json_ok maxNestingDepth j" shows "parse_json (Marshal j) = Some j" "decode_json (Marshal j) = Some j"
proof -
  have "scan_value maxNestingDepth (Marshal j @ []) = Some (j, [])"
    using Marshal_reads_back [OF assms] json_ends_simps(1) unfolding reads_back_def by blast
  then show "parse_json (Marshal j) = Some j" "decode_json (Marshal j) = Some j" by (simp_all add: parse_json_def decode_json_def)
qed

end
