(* ===== verification/Go_Float.thy ===== *)
theory Go_Float
  imports Complex_Main Prelude "HOL-Library.Log_Nat"
begin

text \<open>
  Go's \<^verbatim>\<open>float64\<close> (IEEE 754 binary64) on finite values: a value is the rational number it denotes, and every arithmetic
  operation is the exact one followed by \<^verbatim>\<open>rnd\<close>, rounding to nearest, ties to even, with 53 significant bits.  Exponents are
  unbounded: the components stay far from overflow and from subnormal numbers, and the model says nothing about
  infinities and NaN.  Multiplication and addition are not fused, as on amd64.
\<close>

section \<open>Rounding\<close>

definition rne :: "rat \<Rightarrow> int" where
  "rne x = (let f = \<lfloor>x\<rfloor>; r = x - of_int f in if r < 1 / 2 then f else if r > 1 / 2 then f + 1 else if even f then f else f + 1)"

text \<open>The exponent of the leading bit of a positive number.\<close>

definition ilog :: "rat \<Rightarrow> int" where
  "ilog x = (case quotient_of x of (n, d) \<Rightarrow> let k = bitlen n - bitlen d in if x < 2 powi k then k - 1 else k)"

definition rnd :: "rat \<Rightarrow> rat" where
  "rnd x = (if x = 0 then 0 else let e = ilog \<bar>x\<bar> - 52 in of_int (rne (x / 2 powi e)) * 2 powi e)"

definition fadd :: "rat \<Rightarrow> rat \<Rightarrow> rat" where "fadd a b = rnd (a + b)"
definition fmul :: "rat \<Rightarrow> rat \<Rightarrow> rat" where "fmul a b = rnd (a * b)"
definition fdiv :: "rat \<Rightarrow> rat \<Rightarrow> rat" where "fdiv a b = rnd (a / b)"

definition f64 :: "'a::len word \<Rightarrow> rat" where "f64 w = rnd (of_nat (unat w))"

section \<open>Lemmas\<close>

lemma rne_error: "\<bar>of_int (rne x) - x\<bar> \<le> 1 / 2"
proof -
  have "of_int \<lfloor>x\<rfloor> \<le> x" "x < of_int \<lfloor>x\<rfloor> + 1" by linarith+
  thus ?thesis by (simp add: rne_def Let_def abs_if) linarith
qed

lemma rne_int [simp]: "rne (of_int n) = n"
  by (simp add: rne_def)

lemma rne_mono: "x \<le> y \<Longrightarrow> rne x \<le> rne y"
proof -
  assume le: "x \<le> y"
  show "rne x \<le> rne y"
  proof (cases "\<lfloor>x\<rfloor> = \<lfloor>y\<rfloor>")
    case True
    thus ?thesis using le by (auto simp: rne_def Let_def)
  next
    case False
    hence "\<lfloor>x\<rfloor> + 1 \<le> \<lfloor>y\<rfloor>" using floor_mono [OF le] by linarith
    thus ?thesis by (auto simp: rne_def Let_def)
  qed
qed

lemma powi_pos [simp]: "(0 :: rat) < 2 powi k" by simp

lemma powi_le: "i \<le> j \<Longrightarrow> (2 :: rat) powi i \<le> 2 powi j"
  by (rule power_int_increasing) simp_all

lemma powi_less_imp: "(2 :: rat) powi i < 2 powi j \<Longrightarrow> i < j"
  using powi_le [of j i] by linarith

lemma ilog_bounds:
  assumes "0 < x" shows "2 powi ilog x \<le> x" "x < 2 powi (ilog x + 1)"
proof -
  obtain n d where q: "quotient_of x = (n, d)" by fastforce
  have d: "0 < d" using quotient_of_denom_pos [OF q] .
  have x: "x = of_int n / of_int d" using quotient_of_div [OF q] .
  have n: "0 < n" using assms d unfolding x by (simp add: zero_less_divide_iff)
  have b: "2 powi (bitlen m - 1) \<le> (of_int m :: rat)" "(of_int m :: rat) < 2 powi (bitlen m)" if m: "0 < m" for m
  proof -
    have "1 \<le> bitlen m" using m bitlen_nonneg [of m] bitlen_eq_zero_iff [of m] by linarith
    moreover have "2 ^ nat (bitlen m - 1) \<le> m" "m < 2 ^ nat (bitlen m)" using bitlen_bounds [OF m] by simp_all
    hence "(2 ^ nat (bitlen m - 1) :: rat) \<le> of_int m" "(of_int m :: rat) < 2 ^ nat (bitlen m)"
      by (metis of_int_le_iff of_int_power of_int_numeral, metis of_int_less_iff of_int_power of_int_numeral)
    ultimately show "2 powi (bitlen m - 1) \<le> (of_int m :: rat)" "(of_int m :: rat) < 2 powi (bitlen m)"
      by (simp_all add: power_int_def)
  qed
  let ?k = "bitlen n - bitlen d"
  have "2 powi (?k - 1) = (2 powi (bitlen n - 1) / 2 powi (bitlen d) :: rat)" by (simp add: power_int_diff [symmetric] algebra_simps)
  also have "\<dots> \<le> of_int n / of_int d" using b(1) [OF n] b(2) [OF d] d n by (intro frac_le) simp_all
  finally have l: "2 powi (?k - 1) \<le> x" by (simp add: x)
  have "of_int n / of_int d < (2 powi (bitlen n) / 2 powi (bitlen d - 1) :: rat)"
    using b(2) [OF n] b(1) [OF d] d n by (intro frac_less) simp_all
  also have "\<dots> = 2 powi (?k + 1)" by (simp add: power_int_diff [symmetric] algebra_simps)
  finally have u: "x < 2 powi (?k + 1)" by (simp add: x)
  show "2 powi ilog x \<le> x" "x < 2 powi (ilog x + 1)"
    using l u by (auto simp: ilog_def q Let_def)
qed

lemma ilog_unique: "2 powi k \<le> x \<Longrightarrow> x < 2 powi (k + 1) \<Longrightarrow> ilog x = k"
proof -
  assume k: "2 powi k \<le> x" "x < 2 powi (k + 1)"
  hence p: "0 < x" using powi_pos [of k] by linarith
  have m: "i \<le> j" if "(2 :: rat) powi i < 2 powi (j + 1)" for i j
    using powi_less_imp [OF that] by simp
  show "ilog x = k"
    using m [of k "ilog x"] m [of "ilog x" k] k ilog_bounds [OF p] by linarith
qed

lemma ilog_mono: "0 < x \<Longrightarrow> x \<le> y \<Longrightarrow> ilog x \<le> ilog y"
proof -
  assume a: "0 < x" "x \<le> y"
  hence "(2 :: rat) powi ilog x < 2 powi (ilog y + 1)" using ilog_bounds [of x] ilog_bounds [of y] by linarith
  thus "ilog x \<le> ilog y" using powi_less_imp by fastforce
qed

lemma rnd_0 [simp]: "rnd 0 = 0"
  by (simp add: rnd_def)

text \<open>The scaled significand lies between \<^verbatim>\<open>2^52\<close> and \<^verbatim>\<open>2^53\<close>.\<close>

lemma significand:
  assumes "0 < x" shows "2 ^ 52 \<le> x / 2 powi (ilog x - 52)" "x / 2 powi (ilog x - 52) < 2 ^ 53"
proof -
  note b = ilog_bounds [OF assms]
  have "(2 :: rat) powi ilog x = 2 ^ 52 * 2 powi (ilog x - 52)" by (simp add: power_int_diff)
  thus "2 ^ 52 \<le> x / 2 powi (ilog x - 52)" using b(1) by (simp add: pos_le_divide_eq)
  have "(2 :: rat) powi (ilog x + 1) = 2 ^ 53 * 2 powi (ilog x - 52)" by (simp add: power_int_diff power_int_add)
  thus "x / 2 powi (ilog x - 52) < 2 ^ 53" using b(2) by (simp add: pos_divide_less_eq)
qed

lemma rnd_range:
  assumes "0 < x" shows "2 powi ilog x \<le> rnd x" "rnd x \<le> 2 powi (ilog x + 1)"
proof -
  let ?p = "2 powi (ilog x - 52) :: rat"
  have r: "rnd x = of_int (rne (x / ?p)) * ?p" using assms by (simp add: rnd_def Let_def)
  have "rne (of_int (2 ^ 52)) \<le> rne (x / ?p)" "rne (x / ?p) \<le> rne (of_int (2 ^ 53))"
    using significand [OF assms] by (intro rne_mono; simp)+
  hence "(2 ^ 52 :: rat) \<le> of_int (rne (x / ?p))" "of_int (rne (x / ?p)) \<le> (2 ^ 53 :: rat)"
    unfolding rne_int by (metis of_int_le_iff of_int_numeral of_int_power)+
  moreover have "(2 :: rat) powi ilog x = 2 ^ 52 * ?p" "(2 :: rat) powi (ilog x + 1) = 2 ^ 53 * ?p"
    by (simp_all add: power_int_diff power_int_add)
  ultimately show "2 powi ilog x \<le> rnd x" "rnd x \<le> 2 powi (ilog x + 1)" unfolding r by simp_all
qed

lemma rnd_nonneg [simp]: "0 \<le> x \<Longrightarrow> 0 \<le> rnd x"
  using rnd_range(1) [of x] powi_pos [of "ilog x"] by (cases "x = 0") (simp, linarith)

lemma rnd_pos: "0 < x \<Longrightarrow> 0 < rnd x"
  using rnd_range(1) [of x] powi_pos [of "ilog x"] by linarith

lemma rnd_mono: "0 \<le> x \<Longrightarrow> x \<le> y \<Longrightarrow> rnd x \<le> rnd y"
proof -
  assume a: "0 \<le> x" "x \<le> y"
  show "rnd x \<le> rnd y"
  proof (cases "x = 0")
    case False
    hence x: "0 < x" "0 < y" using a by simp_all
    show ?thesis
    proof (cases "ilog x = ilog y")
      case True
      have "rne (x / 2 powi (ilog y - 52)) \<le> rne (y / 2 powi (ilog y - 52))" using a by (intro rne_mono divide_right_mono) simp_all
      thus ?thesis using x True by (simp add: rnd_def Let_def)
    next
      case False
      hence "ilog x + 1 \<le> ilog y" using ilog_mono [OF x(1) a(2)] by simp
      thus ?thesis using rnd_range(2) [OF x(1)] rnd_range(1) [OF x(2)] powi_le by fastforce
    qed
  qed (use a in simp)
qed

lemma rnd_error: "0 \<le> x \<Longrightarrow> \<bar>rnd x - x\<bar> \<le> x / 2 ^ 53"
proof -
  assume a: "0 \<le> x"
  show "\<bar>rnd x - x\<bar> \<le> x / 2 ^ 53"
  proof (cases "x = 0")
    case False
    hence x: "0 < x" using a by simp
    let ?p = "2 powi (ilog x - 52) :: rat"
    have "rnd x - x = (of_int (rne (x / ?p)) - x / ?p) * ?p" using x by (simp add: rnd_def Let_def algebra_simps)
    hence "\<bar>rnd x - x\<bar> = \<bar>of_int (rne (x / ?p)) - x / ?p\<bar> * ?p" by (simp add: abs_mult)
    also have "\<dots> \<le> 1 / 2 * ?p" by (intro mult_right_mono rne_error) simp
    also have "\<dots> = 2 powi ilog x / 2 ^ 53" by (simp add: power_int_diff)
    also have "\<dots> \<le> x / 2 ^ 53" using ilog_bounds(1) [OF x] by (intro divide_right_mono) simp_all
    finally show ?thesis .
  qed simp
qed

text \<open>Integers up to \<^verbatim>\<open>2^53\<close> are represented exactly.\<close>

lemma rnd_nat: "n \<le> 2 ^ 53 \<Longrightarrow> rnd (of_nat n) = of_nat n"
proof -
  assume n: "n \<le> 2 ^ 53"
  show "rnd (of_nat n) = of_nat n"
  proof (cases "n = 0 \<or> n = 2 ^ 53")
    case True
    have "ilog (2 ^ 53) = 53" by (rule ilog_unique) simp_all
    hence "rnd (2 ^ 53) = of_int (rne (of_int (2 ^ 52))) * 2" by (simp add: rnd_def Let_def)
    thus ?thesis using True unfolding rne_int by auto
  next
    case False
    let ?x = "of_nat n :: rat" and ?e = "ilog (of_nat n) - 52"
    have x: "0 < ?x" "n < 2 ^ 53" using False n by simp_all
    have "?x < 2 ^ 53" using x(2) by (metis of_nat_less_iff of_nat_numeral of_nat_power)
    hence "(2 :: rat) powi ilog ?x < 2 powi 53" using ilog_bounds(1) [OF x(1)] by simp
    hence "?e \<le> 0" using powi_less_imp by fastforce
    hence "?x / 2 powi ?e = of_int (int n * 2 ^ nat (- ?e))" by (simp add: power_int_def field_simps)
    hence "rne (?x / 2 powi ?e) = int n * 2 ^ nat (- ?e)" by (simp only: rne_int)
    hence "rnd ?x = of_int (int n * 2 ^ nat (- ?e)) * 2 powi ?e" using x by (simp add: rnd_def Let_def)
    also have "\<dots> = ?x" using \<open>?e \<le> 0\<close> by (simp add: power_int_def field_simps)
    finally show ?thesis .
  qed
qed

lemma f64_exact: "unat w \<le> 2 ^ 53 \<Longrightarrow> f64 w = of_nat (unat w)"
  unfolding f64_def by (rule rnd_nat)

lemma f64_nonneg [simp]: "0 \<le> f64 w"
  unfolding f64_def by (rule rnd_nonneg) (rule of_nat_0_le_iff)

section \<open>Relative errors\<close>

lemma rnd_lower: "0 \<le> x \<Longrightarrow> x * (1 - 1 / 2 ^ 53) \<le> rnd x"
  and rnd_upper: "0 \<le> x \<Longrightarrow> rnd x \<le> x * (1 + 1 / 2 ^ 53)"
proof -
  assume "0 \<le> x"
  then have "\<bar>rnd x - x\<bar> \<le> x / 2 ^ 53" by (rule rnd_error)
  then have "x - x / 2 ^ 53 \<le> rnd x" "rnd x \<le> x + x / 2 ^ 53" by linarith+
  then show "x * (1 - 1 / 2 ^ 53) \<le> rnd x" "rnd x \<le> x * (1 + 1 / 2 ^ 53)" by (simp_all add: algebra_simps)
qed

text \<open>A value that differs from the exact one by at most as many roundings as the first argument says.\<close>

definition near :: "nat \<Rightarrow> rat \<Rightarrow> rat \<Rightarrow> bool" where
  "near k x y = ((1 - 1 / 2 ^ 53) ^ k * y \<le> x \<and> x \<le> (1 + 1 / 2 ^ 53) ^ k * y)"

lemma near_nonneg: "near k x y \<Longrightarrow> 0 \<le> y \<Longrightarrow> 0 \<le> x"
proof -
  assume n: "near k x y" "0 \<le> y"
  have "0 \<le> (1 - 1 / 2 ^ 53 :: rat) ^ k * y" using n(2) by (intro mult_nonneg_nonneg zero_le_power) simp_all
  then show ?thesis using n(1) by (simp add: near_def)
qed

lemma near_refl: "0 \<le> y \<Longrightarrow> near k y y"
proof -
  assume y: "0 \<le> y"
  have "(1 - 1 / 2 ^ 53 :: rat) ^ k \<le> 1" by (rule power_le_one) simp_all
  moreover have "(1 :: rat) \<le> (1 + 1 / 2 ^ 53) ^ k" by (rule one_le_power) simp
  ultimately show ?thesis using y by (simp add: near_def mult_left_le_one_le mult_le_cancel_right1)
qed

lemma near_rnd:
  assumes "near k x y" "0 \<le> y" shows "near (Suc k) (rnd x) y"
proof -
  have x: "0 \<le> x" by (rule near_nonneg [OF assms])
  have "(1 - 1 / 2 ^ 53) ^ k * y * (1 - 1 / 2 ^ 53) \<le> x * (1 - 1 / 2 ^ 53)" using assms(1) unfolding near_def by (intro mult_right_mono) simp_all
  also have "\<dots> \<le> rnd x" by (rule rnd_lower [OF x])
  finally have l: "(1 - 1 / 2 ^ 53) ^ Suc k * y \<le> rnd x" by (simp only: power_Suc mult.assoc mult.commute mult.left_commute)
  have "rnd x \<le> x * (1 + 1 / 2 ^ 53)" by (rule rnd_upper [OF x])
  also have "\<dots> \<le> (1 + 1 / 2 ^ 53) ^ k * y * (1 + 1 / 2 ^ 53)" using assms(1) unfolding near_def by (intro mult_right_mono) simp_all
  finally have "rnd x \<le> (1 + 1 / 2 ^ 53) ^ Suc k * y" by (simp only: power_Suc mult.assoc mult.commute mult.left_commute)
  then show ?thesis using l by (simp only: near_def simp_thms)
qed

lemma near_mono:
  assumes "near k x y" "0 \<le> y" "k \<le> l" shows "near l x y"
proof -
  have "(1 - 1 / 2 ^ 53 :: rat) ^ l \<le> (1 - 1 / 2 ^ 53) ^ k" "(1 + 1 / 2 ^ 53 :: rat) ^ k \<le> (1 + 1 / 2 ^ 53) ^ l"
    using assms(3) by (intro power_decreasing power_increasing; simp)+
  then have "(1 - 1 / 2 ^ 53) ^ l * y \<le> (1 - 1 / 2 ^ 53) ^ k * y" "(1 + 1 / 2 ^ 53) ^ k * y \<le> (1 + 1 / 2 ^ 53) ^ l * y"
    using assms(2) by (auto intro: mult_right_mono)
  then show ?thesis using assms(1) unfolding near_def by linarith
qed

lemma near_add: "near k x y \<Longrightarrow> near k x' y' \<Longrightarrow> near k (x + x') (y + y')"
  unfolding near_def distrib_left by (auto intro: add_mono)

lemma near_mult: "near k x y \<Longrightarrow> 0 \<le> c \<Longrightarrow> near k (c * x) (c * y)"
  using mult_left_mono [of _ _ c] unfolding near_def by (metis mult.left_commute)

lemma near_0 [simp]: "near k 0 0"
  by (simp add: near_def)

lemma near_sum_list: "list_all2 (near k) xs ys \<Longrightarrow> near k (sum_list xs) (sum_list ys)"
  by (induction rule: list_all2_induct) (simp_all add: near_add)

lemma near_foldl_acc:
  "list_all2 (near k) xs ys \<Longrightarrow> \<forall>y \<in> set ys. 0 \<le> y \<Longrightarrow> near k a b \<Longrightarrow> 0 \<le> b \<Longrightarrow> near (k + length xs) (foldl fadd a xs) (b + sum_list ys)"
proof (induction xs arbitrary: ys a b k)
  case (Cons x xs)
  then obtain y zs where ys: "ys = y # zs" "near k x y" "list_all2 (near k) xs zs" by (auto simp: list_all2_Cons1)
  have "near (Suc k) (fadd a x) (b + y)" unfolding fadd_def using Cons.prems ys by (intro near_rnd near_add) simp_all
  moreover have "list_all2 (near (Suc k)) xs zs"
    using ys Cons.prems(2) near_mono [of k _ _ "Suc k"] by (auto simp: list_all2_conv_all_nth)
  ultimately show ?case using Cons.IH [of "Suc k" zs "fadd a x" "b + y"] Cons.prems ys(1) by (simp add: add.assoc)
qed simp

lemma near_foldl: "list_all2 (near k) xs ys \<Longrightarrow> \<forall>y \<in> set ys. 0 \<le> y \<Longrightarrow> near (k + length xs) (foldl fadd 0 xs) (sum_list ys)"
  using near_foldl_acc [of k xs ys 0 0] by simp

end
