(* ===== verification/Go_Time.thy ===== *)
theory Go_Time
  imports Go_Json Go_Float
begin

text \<open>
  The parts of \<^verbatim>\<open>time\<close>, \<^verbatim>\<open>net/url\<close> and \<^verbatim>\<open>strconv\<close> the services use on request values and environment variables: RFC 3339 times,
  durations, query strings, booleans and integers.  An instant is a number of nanoseconds since the Unix epoch.
\<close>

section \<open>RFC 3339\<close>

definition leap_year :: "int \<Rightarrow> bool" where
  "leap_year y = (y mod 4 = 0 \<and> (y mod 100 \<noteq> 0 \<or> y mod 400 = 0))"

definition days_in :: "int \<Rightarrow> int \<Rightarrow> int" where
  "days_in m y = (if m = 2 then (if leap_year y then 29 else 28) else if m \<in> {4, 6, 9, 11} then 30 else 31)"

definition days_from_civil :: "int \<Rightarrow> int \<Rightarrow> int \<Rightarrow> int" where
  "days_from_civil y m d =
     (let y' = (if m \<le> 2 then y - 1 else y);
          era = y' div 400;
          yoe = y' mod 400;
          doy = (153 * ((m + 9) mod 12) + 2) div 5 + d - 1
      in era * 146097 + yoe * 365 + yoe div 4 - yoe div 100 + doy - 719468)"

text \<open>\<^verbatim>\<open>getnum\<close>: two digits, or one where the layout does not fix the width.\<close>

definition getnum :: "bool \<Rightarrow> string \<Rightarrow> (int \<times> string) option" where
  "getnum fixed s = (case s of
       a # t \<Rightarrow>
         if \<not> is_digit a then None
         else (case t of
             b # u \<Rightarrow> if is_digit b then Some (int (atoi [a, b]), u) else if fixed then None else Some (int (atoi [a]), t)
           | [] \<Rightarrow> if fixed then None else Some (int (atoi [a]), t))
     | [] \<Rightarrow> None)"

definition expect :: "char \<Rightarrow> string \<Rightarrow> string option" where
  "expect c s = (case s of x # t \<Rightarrow> if x = c then Some t else None | [] \<Rightarrow> None)"

definition parse_year :: "string \<Rightarrow> (int \<times> string) option" where
  "parse_year s = (if length s < 4 \<or> \<not> list_all is_digit (take 4 s) then None else Some (int (atoi (take 4 s)), drop 4 s))"

text \<open>A fraction of a second is accepted though the layout has none; digits after the ninth are dropped.\<close>

definition parse_fraction :: "string \<Rightarrow> int \<times> string" where
  "parse_fraction s = (case s of
       p # t \<Rightarrow>
         let ds = takeWhile is_digit t; ns = take 9 ds in
         if (p = CHR ''.'' \<or> p = CHR '','') \<and> ds \<noteq> [] then (int (atoi ns * 10 ^ (9 - length ns)), dropWhile is_digit t) else (0, s)
     | [] \<Rightarrow> (0, []))"

text \<open>The zone: \<^verbatim>\<open>Z\<close>, or a sign, hours up to 24, a colon and minutes up to 60; the result is the offset in seconds.\<close>

definition parse_zone :: "string \<Rightarrow> (int \<times> string) option" where
  "parse_zone s = (case s of
       z # t \<Rightarrow>
         if z = CHR ''Z'' then Some (0, t)
         else (case getnum True t of
             Some (hr, u) \<Rightarrow>
               (case Option.bind (expect (CHR '':'') u) (getnum True) of
                  Some (mm, v) \<Rightarrow>
                    if hr > 24 \<or> mm > 60 then None
                    else if z = CHR ''+'' then Some ((hr * 60 + mm) * 60, v)
                    else if z = CHR ''-'' then Some (- ((hr * 60 + mm) * 60), v)
                    else None
                | None \<Rightarrow> None)
           | None \<Rightarrow> None)
     | [] \<Rightarrow> None)"

definition parse_date :: "string \<Rightarrow> ((int \<times> int \<times> int) \<times> string) option" where
  "parse_date s = (case parse_year s of None \<Rightarrow> None | Some (y, s1) \<Rightarrow>
     (case Option.bind (expect (CHR ''-'') s1) (getnum True) of None \<Rightarrow> None | Some (m, s2) \<Rightarrow>
     (case Option.bind (expect (CHR ''-'') s2) (getnum True) of None \<Rightarrow> None | Some (d, s3) \<Rightarrow>
        if m < 1 \<or> 12 < m \<or> d < 1 \<or> d > days_in m y then None else Some ((y, m, d), s3))))"

definition parse_clock :: "string \<Rightarrow> ((int \<times> int \<times> int) \<times> string) option" where
  "parse_clock s = (case getnum False s of None \<Rightarrow> None | Some (hh, s1) \<Rightarrow>
     (case Option.bind (expect (CHR '':'') s1) (getnum True) of None \<Rightarrow> None | Some (mm, s2) \<Rightarrow>
     (case Option.bind (expect (CHR '':'') s2) (getnum True) of None \<Rightarrow> None | Some (ss, s3) \<Rightarrow>
        if hh \<ge> 24 \<or> mm \<ge> 60 \<or> ss \<ge> 60 then None else Some ((hh, mm, ss), s3))))"

definition parse_RFC3339 :: "string \<Rightarrow> gotime option" where
  "parse_RFC3339 s = (case parse_date s of None \<Rightarrow> None | Some ((y, m, d), s1) \<Rightarrow>
     (case Option.bind (expect (CHR ''T'') s1) parse_clock of None \<Rightarrow> None | Some ((hh, mm, ss), s2) \<Rightarrow>
     (case parse_fraction s2 of (ns, s3) \<Rightarrow>
     (case parse_zone s3 of None \<Rightarrow> None | Some (off, s4) \<Rightarrow>
        if s4 \<noteq> [] then None
        else Some (((days_from_civil y m d * 24 + hh) * 60 + mm) * 60 * Second + (ss - off) * Second + ns)))))"

text \<open>The clock of an instant in UTC, and \<^verbatim>\<open>Format\<close> with the layouts \<^verbatim>\<open>RFC3339\<close> and \<^verbatim>\<open>RFC3339Nano\<close>.\<close>

definition format_clock :: "gotime \<Rightarrow> string" where
  "format_clock t =
     (let s = t div Second mod 86400
      in format_int 2 (s div 3600) @ '':'' @ format_int 2 (s div 60 mod 60) @ '':'' @ format_int 2 (s mod 60))"

definition format_seconds :: "gotime \<Rightarrow> string" where
  "format_seconds t = format_2006 t @ ''-'' @ format_01 t @ ''-'' @ format_02 t @ ''T'' @ format_clock t"

definition format_RFC3339 :: "gotime \<Rightarrow> string" where
  "format_RFC3339 t = format_seconds t @ ''Z''"

definition strip_zeros :: "string \<Rightarrow> string" where
  "strip_zeros s = rev (dropWhile (\<lambda>c. c = CHR ''0'') (rev s))"

definition format_frac :: "nat \<Rightarrow> nat \<Rightarrow> string" where
  "format_frac prec n = (let ds = strip_zeros (pad_zero prec (itoa n)) in if ds = [] then [] else CHR ''.'' # ds)"

definition format_RFC3339Nano :: "gotime \<Rightarrow> string" where
  "format_RFC3339Nano t = format_seconds t @ format_frac 9 (nat (t mod Second)) @ ''Z''"

text \<open>\<^verbatim>\<open>Truncate\<close> counts from year 1, a whole number of hours before the epoch.\<close>

definition time_Truncate_Hour :: "gotime \<Rightarrow> gotime" where
  "time_Truncate_Hour t = t - t mod (3600 * Second)"

section \<open>Durations\<close>

definition trunc_quot :: "int \<Rightarrow> int \<Rightarrow> int" where
  "trunc_quot a b = sgn a * (\<bar>a\<bar> div b)"

definition duration_Seconds :: "duration \<Rightarrow> rat" where
  "duration_Seconds d = (let sec = trunc_quot d Second in fadd (rnd (of_int sec)) (fdiv (rnd (of_int (d - sec * Second))) 1000000000))"

text \<open>The conversion \<^verbatim>\<open>int64(f)\<close> of a value in range.\<close>

definition int_of_float :: "rat \<Rightarrow> int" where
  "int_of_float x = (if x < 0 then - \<lfloor>- x\<rfloor> else \<lfloor>x\<rfloor>)"

definition micro :: string where "micro = [CHR 0xC2, CHR 0xB5]"

definition duration_String :: "duration \<Rightarrow> string" where
  "duration_String d =
     (let u = nat \<bar>d\<bar>;
          frac = (\<lambda>prec. itoa (u div 10 ^ prec) @ format_frac prec (u mod 10 ^ prec));
          s = u div 1000000000;
          text =
            (if u = 0 then ''0s''
             else if u < 1000 then frac 0 @ ''ns''
             else if u < 1000000 then frac 3 @ micro @ ''s''
             else if u < 1000000000 then frac 6 @ ''ms''
             else (if s div 3600 > 0 then itoa (s div 3600) @ ''h'' else []) @ (if s div 60 > 0 then itoa (s div 60 mod 60) @ ''m'' else [])
                  @ itoa (s mod 60) @ format_frac 9 (u mod 1000000000) @ ''s'')
      in if d < 0 then CHR ''-'' # text else text)"

definition unitMap :: "(string \<times> nat) list" where
  "unitMap = [(''ns'', 1), (''us'', 1000), (micro @ ''s'', 1000), ([CHR 0xCE, CHR 0xBC] @ ''s'', 1000), (''ms'', 1000000),
     (''s'', 1000000000), (''m'', 60000000000), (''h'', 3600000000000)]"

text \<open>\<^verbatim>\<open>leadingFraction\<close>: the digits that fit and the power of ten they are divided by.\<close>

fun leadingFraction :: "string \<Rightarrow> nat \<Rightarrow> nat \<Rightarrow> nat \<times> nat" where
  "leadingFraction [] x k = (x, k)"
| "leadingFraction (c # ds) x k =
     (if x > (2 ^ 63 - 1) div 10 then (x, k)
      else let y = x * 10 + (of_char c - 48) in if y > 2 ^ 63 then (x, k) else leadingFraction ds y (Suc k))"

definition unit_char :: "char \<Rightarrow> bool" where
  "unit_char c = (c \<noteq> CHR ''.'' \<and> \<not> is_digit c)"

text \<open>One number with its unit: the nanoseconds and the rest.\<close>

definition duration_term :: "string \<Rightarrow> (nat \<times> string) option" where
  "duration_term s =
     (let ds = takeWhile is_digit s; s1 = dropWhile is_digit s;
          (fs, s2) = (case s1 of p # t \<Rightarrow> if p = CHR ''.'' then (takeWhile is_digit t, dropWhile is_digit t) else ([], s1) | [] \<Rightarrow> ([], []));
          u = takeWhile unit_char s2; s3 = dropWhile unit_char s2;
          v = atoi ds; (f, k) = leadingFraction fs 0 0
      in if v > 2 ^ 63 \<or> (ds = [] \<and> fs = []) then None
         else case map_of unitMap u of
             None \<Rightarrow> None
           | Some unit \<Rightarrow>
               if v > 2 ^ 63 div unit then None
               else let w = v * unit + (if f > 0 then nat \<lfloor>fmul (rnd (of_nat f)) (fdiv (of_nat unit) (10 ^ k))\<rfloor> else 0)
                    in if w > 2 ^ 63 then None else Some (w, s3))"

lemma duration_term_shorter: "duration_term s = Some (w, t) \<Longrightarrow> length t < length s"
proof -
  assume a: "duration_term s = Some (w, t)"
  let ?s1 = "dropWhile is_digit s"
  define s2 where "s2 = snd (case ?s1 of p # t \<Rightarrow> if p = CHR ''.'' then (takeWhile is_digit t, dropWhile is_digit t) else ([], ?s1) | [] \<Rightarrow> ([], []))"
  have "t = dropWhile unit_char s2" "map_of unitMap (takeWhile unit_char s2) \<noteq> None"
    using a by (auto simp: duration_term_def s2_def Let_def split: prod.splits if_splits option.splits)
  moreover have "map_of unitMap [] = None" by (simp add: unitMap_def micro_def)
  ultimately have "takeWhile unit_char s2 \<noteq> []" by auto
  then have "length t < length s2" using \<open>t = _\<close> by (metis append_Nil length_append length_greater_0_conv less_add_same_cancel2 takeWhile_dropWhile_id)
  moreover have "length (snd (case x of p # t \<Rightarrow> if p = CHR ''.'' then (takeWhile is_digit t, dropWhile is_digit t) else ([], x) | [] \<Rightarrow> ([], [])))
      \<le> length x" for x :: string
    by (cases x) (simp_all add: le_SucI length_dropWhile_le)
  then have "length s2 \<le> length ?s1" unfolding s2_def .
  ultimately show "length t < length s" using length_dropWhile_le [of is_digit s] by linarith
qed

function duration_terms :: "string \<Rightarrow> nat \<Rightarrow> nat option" where
  "duration_terms s d =
     (if s = [] then Some d
      else if \<not> (hd s = CHR ''.'' \<or> is_digit (hd s)) then None
      else case duration_term s of
          None \<Rightarrow> None
        | Some (v, t) \<Rightarrow> let d' = (d + v) mod 2 ^ 64 in if d' > 2 ^ 63 then None else duration_terms t d')"
  by pat_completeness auto
termination by (relation "measure (\<lambda>(s, d). length s)") (auto dest: duration_term_shorter)

declare duration_terms.simps [simp del]

definition ParseDuration :: "string \<Rightarrow> duration option" where
  "ParseDuration orig =
     (let (neg, s) = (case orig of c # t \<Rightarrow> if c = CHR ''-'' then (True, t) else if c = CHR ''+'' then (False, t) else (False, orig)
                      | [] \<Rightarrow> (False, []))
      in if s = ''0'' then Some 0
         else if s = [] then None
         else case duration_terms s 0 of
             None \<Rightarrow> None
           | Some d \<Rightarrow> if neg then Some (- int d) else if d > 2 ^ 63 - 1 then None else Some (int d))"

section \<open>Query strings and environment values\<close>

definition QueryUnescape :: "string \<Rightarrow> string option" where
  "QueryUnescape s = url_unescape (map (\<lambda>c. if c = CHR ''+'' then CHR '' '' else c) s)"

definition query_pair :: "string \<Rightarrow> (string \<times> string) list" where
  "query_pair p =
     (if p = [] \<or> CHR '';'' \<in> set p then []
      else let (k, v) = (case Cut (CHR ''='') p of Some kv \<Rightarrow> kv | None \<Rightarrow> (p, []))
           in case (QueryUnescape k, QueryUnescape v) of (Some k', Some v') \<Rightarrow> [(k', v')] | _ \<Rightarrow> [])"

definition url_Query :: "string \<Rightarrow> (string \<times> string) list" where
  "url_Query raw = concat (map query_pair (Split1 (CHR ''&'') raw))"

definition values_Get :: "(string \<times> string) list \<Rightarrow> string \<Rightarrow> string" where
  "values_Get vs k = (case map_of vs k of None \<Rightarrow> [] | Some v \<Rightarrow> v)"

definition ParseBool :: "string \<Rightarrow> bool option" where
  "ParseBool s =
     (if s \<in> set [''1'', ''t'', ''T'', ''TRUE'', ''true'', ''True''] then Some True
      else if s \<in> set [''0'', ''f'', ''F'', ''FALSE'', ''false'', ''False''] then Some False else None)"

text \<open>\<^verbatim>\<open>strings.ToLower\<close> where its result is only compared with ASCII words that have no k.\<close>

definition ToLower :: "string \<Rightarrow> string" where
  "ToLower = map (\<lambda>c. let x = (of_char c :: nat) in if 65 \<le> x \<and> x \<le> 90 then char_of (x + 32) else c)"

abbreviation Atoi :: "string \<Rightarrow> int option" where
  "Atoi \<equiv> ParseInt64"

section \<open>Lemmas\<close>

lemma trunc_quot_nonneg: "0 \<le> a \<Longrightarrow> 0 < b \<Longrightarrow> trunc_quot a b = a div b"
  by (cases "a = 0") (simp_all add: trunc_quot_def)

lemma time_Truncate_Hour_aligned: "time_Truncate_Hour t = t \<longleftrightarrow> t mod (3600 * Second) = 0"
  by (simp add: time_Truncate_Hour_def)

end
