(* ===== verification/Query_Service.thy ===== *)
theory Query_Service
  imports Query_Sql Gateway Go_Time
begin

text \<open>
  The query service's HTTP handlers (\<^verbatim>\<open>services/query/server.go\<close>): authentication and validation of the parameters, cursors, the
  summary of data quality and the results.  The repository is the record of its methods, built by \<^verbatim>\<open>clickhouse\<close> from the
  statements of the repository theory.  A handler returns the response it writes; the clock names each reading of \<^verbatim>\<open>a.now\<close> in a handler by a number.
\<close>

section \<open>Types\<close>

record api_env =
  ae_getenv :: "string \<Rightarrow> string"
  ae_now :: gotime
  ae_clock :: "nat \<Rightarrow> gotime"

record repository =
  repo_DataQuality :: "data_quality_query \<Rightarrow> data_quality_signal list result"
  repo_Usage :: "analytics_query \<Rightarrow> usage_row list result"
  repo_Costs :: "analytics_query \<Rightarrow> (cost_metadata \<times> cost_row list) result"
  repo_Allocation :: "analytics_query \<Rightarrow> (cost_metadata \<times> allocation_row list) result"
  repo_Recommendations :: "recommendation_query \<Rightarrow> recommendation_result list result"
  repo_Recommendation :: "string \<Rightarrow> string \<Rightarrow> recommendation_result result"
  repo_Ping :: "error option"

record quality_summary =
  qs_Status :: string
  qs_EstimatedPercent :: rat
  qs_MissingScopes :: "string list"
  qs_Warnings :: "string list"
  qs_FreshnessWindowSecs :: int

record data_quality_result =
  dr_TenantID :: string
  dr_ClusterID :: string
  dr_GeneratedAt :: gotime
  dr_DataThrough :: "gotime option"
  dr_ComputationVersion :: string
  dr_Signals :: "data_quality_signal list"
  dr_Quality :: quality_summary

record usage_result =
  ures_TenantID :: string
  ures_ClusterID :: string
  ures_Start :: gotime
  ures_End :: gotime
  ures_GroupBy :: string
  ures_GeneratedAt :: gotime
  ures_DataThrough :: "gotime option"
  ures_Quality :: "quality_summary option"
  ures_Rows :: "usage_row list"
  ures_ResultCount :: int
  ures_Limit :: int
  ures_NextCursor :: string

record cost_result =
  cres_TenantID :: string
  cres_ClusterID :: string
  cres_Start :: gotime
  cres_End :: gotime
  cres_GroupBy :: string
  cres_GeneratedAt :: gotime
  cres_DataThrough :: "gotime option"
  cres_Quality :: "quality_summary option"
  cres_Currency :: string
  cres_ComputationVersion :: string
  cres_ComputedAt :: gotime
  cres_Rows :: "cost_row list"
  cres_ResultCount :: int
  cres_Limit :: int
  cres_NextCursor :: string

record allocation_result =
  ares_TenantID :: string
  ares_ClusterID :: string
  ares_Start :: gotime
  ares_End :: gotime
  ares_GroupBy :: string
  ares_GeneratedAt :: gotime
  ares_DataThrough :: "gotime option"
  ares_Quality :: "quality_summary option"
  ares_Currency :: string
  ares_ComputationVersion :: string
  ares_ComputedAt :: gotime
  ares_Rows :: "allocation_row list"
  ares_ResultCount :: int
  ares_Limit :: int
  ares_NextCursor :: string

record recommendation_list_result =
  rl_TenantID :: string
  rl_ClusterID :: string
  rl_GeneratedAt :: gotime
  rl_Recommendations :: "recommendation_result list"
  rl_ResultCount :: int
  rl_Limit :: int

record analytics_cursor =
  cu_Kind :: string
  cu_TenantID :: string
  cu_ClusterID :: string
  cu_Start :: string
  cu_End :: string
  cu_GroupBy :: string
  cu_Offset :: int

section \<open>Configuration\<close>

definition defaultFreshnessWindow :: duration where "defaultFreshnessWindow = 10 * Minute"

definition durationValue :: "(string \<Rightarrow> string) \<Rightarrow> string \<Rightarrow> duration \<Rightarrow> duration" where
  "durationValue getenv name fallback =
     (let value = TrimSpace (getenv name) in
      if value = [] then fallback else case ParseDuration value of None \<Rightarrow> fallback | Some d \<Rightarrow> d)"

definition boolValue :: "(string \<Rightarrow> string) \<Rightarrow> string \<Rightarrow> bool \<Rightarrow> bool" where
  "boolValue getenv name fallback =
     (let value = TrimSpace (getenv name) in
      if value = [] then fallback else case ParseBool value of None \<Rightarrow> fallback | Some b \<Rightarrow> b)"

record clickhouse_config =
  chc_Address :: string
  chc_Database :: string
  chc_Username :: string
  chc_Password :: string
  chc_Secure :: bool

definition query_ConfigFromEnv :: "(string \<Rightarrow> string) \<Rightarrow> clickhouse_config" where
  "query_ConfigFromEnv getenv =
     \<lparr> chc_Address = valueOrDefault (getenv ''CLICKHOUSE_ADDRESS'') ''localhost:9000'',
       chc_Database = valueOrDefault (getenv ''CLICKHOUSE_DATABASE'') ''kube_cost'',
       chc_Username = getenv ''CLICKHOUSE_USERNAME'', chc_Password = getenv ''CLICKHOUSE_PASSWORD'',
       chc_Secure = boolValue getenv ''CLICKHOUSE_SECURE'' False \<rparr>"

text \<open>The repository over the connections; each statement reads rows of its own shape.\<close>

definition clickhouse ::
  "(string \<Rightarrow> 'd result) \<Rightarrow> ('d \<Rightarrow> string) \<Rightarrow> ('d, signal_cols) connection \<Rightarrow> ('d, 'd usage_cols) connection \<Rightarrow> ('d, 'd cost_cols) connection
   \<Rightarrow> ('d, 'd allocation_cols) connection \<Rightarrow> ('d, 'd recommendation_cols) connection \<Rightarrow> error option \<Rightarrow> repository" where
  "clickhouse parse str sig us co al re ping =
     \<lparr> repo_DataQuality = DataQuality sig, repo_Usage = Usage str us, repo_Costs = Costs str co, repo_Allocation = Allocation str al,
       repo_Recommendations = Recommendations parse str re, repo_Recommendation = Recommendation str re, repo_Ping = ping \<rparr>"

section \<open>Cursors\<close>

definition cursor_json :: "analytics_cursor \<Rightarrow> json" where
  "cursor_json c = JObj ([(''kind'', JStr (cu_Kind c)), (''tenant_id'', JStr (cu_TenantID c))]
     @ (if cu_ClusterID c = [] then [] else [(''cluster_id'', JStr (cu_ClusterID c))])
     @ [(''start'', JStr (cu_Start c)), (''end'', JStr (cu_End c)), (''group_by'', JStr (cu_GroupBy c)),
        (''offset'', JNum (itoa_int (cu_Offset c)))])"

definition encodeAnalyticsCursor :: "analytics_cursor \<Rightarrow> string" where
  "encodeAnalyticsCursor c = b64_EncodeToString (Marshal (cursor_json c))"

definition cursor_names :: "string list" where
  "cursor_names = [''kind'', ''tenant_id'', ''cluster_id'', ''start'', ''end'', ''group_by'', ''offset'']"

definition cursor_put :: "string \<Rightarrow> json \<Rightarrow> analytics_cursor \<Rightarrow> analytics_cursor option" where
  "cursor_put n v c =
     (if n = ''kind'' then map_option (\<lambda>x. c\<lparr> cu_Kind := x \<rparr>) (into_string v (cu_Kind c))
      else if n = ''tenant_id'' then map_option (\<lambda>x. c\<lparr> cu_TenantID := x \<rparr>) (into_string v (cu_TenantID c))
      else if n = ''cluster_id'' then map_option (\<lambda>x. c\<lparr> cu_ClusterID := x \<rparr>) (into_string v (cu_ClusterID c))
      else if n = ''start'' then map_option (\<lambda>x. c\<lparr> cu_Start := x \<rparr>) (into_string v (cu_Start c))
      else if n = ''end'' then map_option (\<lambda>x. c\<lparr> cu_End := x \<rparr>) (into_string v (cu_End c))
      else if n = ''group_by'' then map_option (\<lambda>x. c\<lparr> cu_GroupBy := x \<rparr>) (into_string v (cu_GroupBy c))
      else map_option (\<lambda>x. c\<lparr> cu_Offset := x \<rparr>) (into_int v (cu_Offset c)))"

definition zero_cursor :: analytics_cursor where
  "zero_cursor = \<lparr> cu_Kind = [], cu_TenantID = [], cu_ClusterID = [], cu_Start = [], cu_End = [], cu_GroupBy = [], cu_Offset = 0 \<rparr>"

definition decodeAnalyticsCursor :: "string \<Rightarrow> analytics_cursor option" where
  "decodeAnalyticsCursor value =
     (case Option.bind (Option.bind (b64_DecodeString value) parse_json) (\<lambda>v. into_struct False cursor_names cursor_put v zero_cursor) of
        None \<Rightarrow> None
      | Some c \<Rightarrow> if cu_Offset c < 0 then None else Some c)"

definition wrap64 :: "int \<Rightarrow> int" where
  "wrap64 n = sint (of_int n :: i64)"

definition paginate :: "'r list \<Rightarrow> analytics_query \<Rightarrow> string \<Rightarrow> 'r list \<times> string" where
  "paginate rows q kind =
     (let limit = normalizedAnalyticsLimit (aq_Limit q) in
      if int (length rows) \<le> limit then (rows, [])
      else (take (nat limit) rows, encodeAnalyticsCursor
        \<lparr> cu_Kind = kind, cu_TenantID = aq_TenantID q, cu_ClusterID = aq_ClusterID q, cu_Start = format_RFC3339 (aq_Start q),
          cu_End = format_RFC3339 (aq_End q), cu_GroupBy = aq_GroupBy q, cu_Offset = wrap64 (aq_Offset q + limit) \<rparr>))"

section \<open>Parameters\<close>

definition invalid :: "string \<Rightarrow> 'a response" where
  "invalid detail = Problem 400 ''invalid_request'' detail"

definition parseRequiredTime :: "string \<Rightarrow> string \<Rightarrow> gotime result" where
  "parseRequiredTime value name =
     (let v = TrimSpace value in
      if v = [] then Inl (name @ '' is required'')
      else case parse_RFC3339 v of None \<Rightarrow> Inl (name @ '' must be an RFC3339 timestamp'') | Some t \<Rightarrow> Inr t)"

definition validAnalyticsGroupBy :: "string \<Rightarrow> bool" where
  "validAnalyticsGroupBy g = (g \<in> set [''namespace'', ''cluster'', ''team'', ''project'', ''environment'', ''cost_center''])"

definition boolQuery :: "string \<Rightarrow> bool" where
  "boolQuery value = (ToLower (TrimSpace value) \<in> set [''true'', ''1'', ''yes''])"

text \<open>The checks of the time range and of the grouping, which the synchronous and the asynchronous queries share.\<close>

definition analyticsRange :: "string \<Rightarrow> string \<Rightarrow> string \<Rightarrow> 'a response + gotime \<times> gotime \<times> string" where
  "analyticsRange rawStart rawEnd rawGroup = (case parseRequiredTime rawStart ''start'' of
       Inl e \<Rightarrow> Inl (invalid e)
     | Inr start \<Rightarrow> (case parseRequiredTime rawEnd ''end'' of
           Inl e \<Rightarrow> Inl (invalid e)
         | Inr end' \<Rightarrow>
             if \<not> start < end' then Inl (invalid ''start must be before end'')
             else if time_Truncate_Hour start \<noteq> start \<or> time_Truncate_Hour end' \<noteq> end'
             then Inl (invalid ''start and end must be aligned to whole hours'')
             else let g = TrimSpace rawGroup; groupBy = (if g = [] then ''namespace'' else g) in
               if \<not> validAnalyticsGroupBy groupBy
               then Inl (invalid ''group_by must be one of namespace, cluster, team, project, environment, cost_center'')
               else Inr (start, end', groupBy)))"

definition parse_limit :: "string \<Rightarrow> int \<Rightarrow> 'a response + int" where
  "parse_limit raw fallback =
     (let rawLimit = TrimSpace raw in
      if rawLimit = [] then Inr fallback
      else case Atoi rawLimit of
          None \<Rightarrow> Inl (invalid ''limit must be a positive integer'')
        | Some n \<Rightarrow> if n \<le> 0 then Inl (invalid ''limit must be a positive integer'') else Inr n)"

definition cursor_offset :: "string \<Rightarrow> string \<Rightarrow> string \<Rightarrow> string \<Rightarrow> gotime \<Rightarrow> gotime \<Rightarrow> string \<Rightarrow> 'a response + int" where
  "cursor_offset raw kind tenantID clusterID start end' groupBy =
     (let rawCursor = TrimSpace raw in
      if rawCursor = [] then Inr 0
      else case decodeAnalyticsCursor rawCursor of
          None \<Rightarrow> Inl (invalid ''cursor is invalid'')
        | Some c \<Rightarrow>
            if cu_TenantID c \<noteq> tenantID \<or> cu_Kind c \<noteq> kind \<or> cu_ClusterID c \<noteq> clusterID \<or> cu_Start c \<noteq> format_RFC3339 start
               \<or> cu_End c \<noteq> format_RFC3339 end' \<or> cu_GroupBy c \<noteq> groupBy
            then Inl (invalid ''cursor does not match query'')
            else Inr (cu_Offset c))"

definition analyticsQuery :: "api_env \<Rightarrow> request \<Rightarrow> string \<Rightarrow> 'a response + analytics_query" where
  "analyticsQuery E r kind = (case authenticatedTenant (ae_getenv E) (ae_now E) r of
       Inl resp \<Rightarrow> Inl resp
     | Inr tenantID \<Rightarrow>
         let values = url_Query (rq_RawQuery r); clusterID = TrimSpace (values_Get values ''cluster_id'') in
         case analyticsRange (values_Get values ''start'') (values_Get values ''end'') (values_Get values ''group_by'') of
           Inl resp \<Rightarrow> Inl resp
         | Inr (start, end', groupBy) \<Rightarrow>
             (case parse_limit (values_Get values ''limit'') defaultAnalyticsLimit of
                Inl resp \<Rightarrow> Inl resp
              | Inr limit \<Rightarrow>
                  (case cursor_offset (values_Get values ''cursor'') kind tenantID clusterID start end' groupBy of
                     Inl resp \<Rightarrow> Inl resp
                   | Inr offset \<Rightarrow> Inr
                       \<lparr> aq_TenantID = tenantID, aq_ClusterID = clusterID, aq_Start = start, aq_End = end', aq_GroupBy = groupBy,
                         aq_Limit = limit, aq_Offset = offset, aq_IncludeQuality = boolQuery (values_Get values ''include_quality'') \<rparr>)))"

definition recommendationQueryFromRequest ::
  "(string \<Rightarrow> 'd result) \<Rightarrow> request \<Rightarrow> string \<Rightarrow> 'a response + recommendation_query" where
  "recommendationQueryFromRequest parse r tenantID =
     (let values = url_Query (rq_RawQuery r); get = (\<lambda>k. TrimSpace (values_Get values k)) in
      case parse_limit (values_Get values ''limit'') 100 of
        Inl resp \<Rightarrow> Inl resp
      | Inr limit \<Rightarrow>
          if get ''min_monthly_savings'' \<noteq> [] \<and> (\<exists>e. parse (get ''min_monthly_savings'') = Inl e)
          then Inl (invalid ''min_monthly_savings must be a decimal string'')
          else Inr \<lparr> rc_TenantID = tenantID, rc_ClusterID = get ''cluster_id'', rc_Status = get ''status'',
                 rc_RecommendationType = get ''type'', rc_TargetKind = get ''target_kind'', rc_TargetUID = get ''target_uid'',
                 rc_MinimumMonthlySavings = get ''min_monthly_savings'', rc_Limit = limit \<rparr>)"

definition normalizedRecommendationLimit :: "int \<Rightarrow> int" where
  "normalizedRecommendationLimit limit = (if limit \<le> 0 then 100 else if limit > 500 then 500 else limit)"

section \<open>Data quality\<close>

definition freshness_of :: "gotime \<Rightarrow> gotime \<Rightarrow> int" where
  "freshness_of now latest = max 0 (int_of_float (duration_Seconds (time_Sub now latest)))"

definition required_sources :: "string list" where
  "required_sources = [''container_metrics_10s'', ''node_metrics_10s'']"

text \<open>One turn of the loop over the signals.\<close>

definition quality_signal :: "gotime \<Rightarrow> duration \<Rightarrow> data_quality_signal \<Rightarrow> data_quality_result \<Rightarrow> data_quality_result" where
  "quality_signal now window signal0 result =
     (let signal = signal0\<lparr> sg_ExpectedFreshnessLimit := duration_String window \<rparr>;
          warn = (\<lambda>text. (dr_Quality result)\<lparr> qs_Status := ''stale'', qs_Warnings := qs_Warnings (dr_Quality result) @ [sg_Source signal @ text] \<rparr>)
      in case (sg_RecordCount signal = 0, sg_LatestBucketStart signal) of
           (False, Some latest) \<Rightarrow>
             let freshness = freshness_of now latest;
                 stale = wrap64 (freshness * Second) > window;
                 signal' = signal\<lparr> sg_FreshnessSeconds := Some freshness, sg_Status := (if stale then ''stale'' else ''fresh''),
                   sg_Warning := (if stale then ''latest metric bucket is outside freshness window'' else sg_Warning signal) \<rparr>
             in result\<lparr> dr_Quality := (if stale then warn '' is stale'' else dr_Quality result),
                  dr_DataThrough := (case dr_DataThrough result of
                      None \<Rightarrow> Some latest | Some t \<Rightarrow> if latest < t then Some latest else Some t),
                  dr_Signals := dr_Signals result @ [signal'] \<rparr>
         | _ \<Rightarrow> result\<lparr> dr_Quality := warn '' has no metric facts'',
                  dr_Signals := dr_Signals result @ [signal\<lparr> sg_Status := ''empty'', sg_Warning := ''no metric facts found'' \<rparr>] \<rparr>)"

definition missing_source :: "string set \<Rightarrow> string \<Rightarrow> data_quality_result \<Rightarrow> data_quality_result" where
  "missing_source seen source result =
     (if source \<in> seen then result
      else result\<lparr> dr_Quality := (dr_Quality result)\<lparr> qs_Status := ''stale'', qs_EstimatedPercent := 50,
             qs_MissingScopes := qs_MissingScopes (dr_Quality result) @ [source],
             qs_Warnings := qs_Warnings (dr_Quality result) @ [source @ '' has no metric facts''] \<rparr> \<rparr>)"

definition summarizeDataQuality ::
  "string \<Rightarrow> string \<Rightarrow> gotime \<Rightarrow> duration \<Rightarrow> data_quality_signal list \<Rightarrow> data_quality_result" where
  "summarizeDataQuality tenantID clusterID now window signals =
     (let result = \<lparr> dr_TenantID = tenantID, dr_ClusterID = clusterID, dr_GeneratedAt = now, dr_DataThrough = None,
            dr_ComputationVersion = ''data-quality-v1'', dr_Signals = [],
            dr_Quality = \<lparr> qs_Status = ''fresh'', qs_EstimatedPercent = 100, qs_MissingScopes = [], qs_Warnings = [],
              qs_FreshnessWindowSecs = int_of_float (duration_Seconds window) \<rparr> \<rparr>
      in if signals = [] then result\<lparr> dr_Quality := (dr_Quality result)\<lparr> qs_Status := ''empty'', qs_EstimatedPercent := 0,
              qs_MissingScopes := required_sources, qs_Warnings := [''no metric facts found for tenant scope''] \<rparr> \<rparr>
         else fold (missing_source (sg_Source ` set signals)) required_sources (fold (quality_signal now window) signals result))"

section \<open>Handlers\<close>

abbreviation freshness_window :: "api_env \<Rightarrow> duration" where
  "freshness_window E \<equiv> durationValue (ae_getenv E) ''QUERY_FRESHNESS_WINDOW'' defaultFreshnessWindow"

definition query_health :: "repository \<Rightarrow> unit response" where
  "query_health repo = (case repo_Ping repo of
       Some e \<Rightarrow> Problem 503 ''dependency_unavailable'' ''clickhouse unavailable''
     | None \<Rightarrow> JSON 200 ())"

definition dataQuality :: "api_env \<Rightarrow> repository \<Rightarrow> request \<Rightarrow> data_quality_result response" where
  "dataQuality E repo r = (case authenticatedTenant (ae_getenv E) (ae_now E) r of
       Inl resp \<Rightarrow> resp
     | Inr tenantID \<Rightarrow>
         let clusterID = TrimSpace (values_Get (url_Query (rq_RawQuery r)) ''cluster_id''); window = freshness_window E in
         case repo_DataQuality repo \<lparr> dq_TenantID = tenantID, dq_ClusterID = clusterID, dq_FreshnessWindow = window \<rparr> of
           Inl e \<Rightarrow> Problem 500 ''query_failed'' ''data quality query failed''
         | Inr signals \<Rightarrow> JSON 200 (summarizeDataQuality tenantID clusterID (ae_clock E 0) window signals))"

text \<open>The quality of an analytics result: the error, or what the result shows.\<close>

definition queryQuality :: "api_env \<Rightarrow> repository \<Rightarrow> analytics_query \<Rightarrow> error + gotime option \<times> quality_summary option" where
  "queryQuality E repo q =
     (if \<not> aq_IncludeQuality q then Inr (None, None)
      else let window = freshness_window E in
        case repo_DataQuality repo \<lparr> dq_TenantID = aq_TenantID q, dq_ClusterID = aq_ClusterID q, dq_FreshnessWindow = window \<rparr> of
          Inl e \<Rightarrow> Inl e
        | Inr signals \<Rightarrow>
            let result = summarizeDataQuality (aq_TenantID q) (aq_ClusterID q) (ae_clock E 0) window signals
            in Inr (dr_DataThrough result, Some (dr_Quality result)))"

definition analyticsQuality :: "api_env \<Rightarrow> repository \<Rightarrow> analytics_query \<Rightarrow> 'a response + gotime option \<times> quality_summary option" where
  "analyticsQuality E repo q = (case queryQuality E repo q of
       Inl e \<Rightarrow> Inl (Problem 500 ''query_failed'' ''quality query failed'')
     | Inr x \<Rightarrow> Inr x)"

definition usage_result_of ::
  "analytics_query \<Rightarrow> usage_row list \<Rightarrow> gotime \<Rightarrow> gotime option \<Rightarrow> quality_summary option \<Rightarrow> usage_result" where
  "usage_result_of q fetched now dataThrough quality = (case paginate fetched q ''usage'' of (rows, nextCursor) \<Rightarrow>
     \<lparr> ures_TenantID = aq_TenantID q, ures_ClusterID = aq_ClusterID q, ures_Start = aq_Start q, ures_End = aq_End q, ures_GroupBy = aq_GroupBy q,
       ures_GeneratedAt = now, ures_DataThrough = dataThrough, ures_Quality = quality, ures_Rows = rows, ures_ResultCount = int (length rows),
       ures_Limit = normalizedAnalyticsLimit (aq_Limit q), ures_NextCursor = nextCursor \<rparr>)"

definition cost_result_of ::
  "analytics_query \<Rightarrow> cost_metadata \<Rightarrow> cost_row list \<Rightarrow> gotime \<Rightarrow> gotime option \<Rightarrow> quality_summary option \<Rightarrow> cost_result" where
  "cost_result_of q metadata fetched now dataThrough quality = (case paginate fetched q ''costs'' of (rows, nextCursor) \<Rightarrow>
     \<lparr> cres_TenantID = aq_TenantID q, cres_ClusterID = aq_ClusterID q, cres_Start = aq_Start q, cres_End = aq_End q, cres_GroupBy = aq_GroupBy q,
       cres_GeneratedAt = now, cres_DataThrough = dataThrough, cres_Quality = quality, cres_Currency = cm_Currency metadata,
       cres_ComputationVersion = cm_ComputationVersion metadata, cres_ComputedAt = cm_ComputedAt metadata, cres_Rows = rows,
       cres_ResultCount = int (length rows), cres_Limit = normalizedAnalyticsLimit (aq_Limit q), cres_NextCursor = nextCursor \<rparr>)"

definition allocation_result_of ::
  "analytics_query \<Rightarrow> cost_metadata \<Rightarrow> allocation_row list \<Rightarrow> gotime \<Rightarrow> gotime option \<Rightarrow> quality_summary option \<Rightarrow> allocation_result" where
  "allocation_result_of q metadata fetched now dataThrough quality = (case paginate fetched q ''allocation'' of (rows, nextCursor) \<Rightarrow>
     \<lparr> ares_TenantID = aq_TenantID q, ares_ClusterID = aq_ClusterID q, ares_Start = aq_Start q, ares_End = aq_End q, ares_GroupBy = aq_GroupBy q,
       ares_GeneratedAt = now, ares_DataThrough = dataThrough, ares_Quality = quality, ares_Currency = cm_Currency metadata,
       ares_ComputationVersion = cm_ComputationVersion metadata, ares_ComputedAt = cm_ComputedAt metadata, ares_Rows = rows,
       ares_ResultCount = int (length rows), ares_Limit = normalizedAnalyticsLimit (aq_Limit q), ares_NextCursor = nextCursor \<rparr>)"

definition query_usage :: "api_env \<Rightarrow> repository \<Rightarrow> request \<Rightarrow> usage_result response" where
  "query_usage E repo r = (case analyticsQuery E r ''usage'' of
       Inl resp \<Rightarrow> resp
     | Inr q \<Rightarrow> (case repo_Usage repo q of
           Inl e \<Rightarrow> Problem 500 ''query_failed'' ''usage query failed''
         | Inr fetched \<Rightarrow> (case analyticsQuality E repo q of
               Inl resp \<Rightarrow> resp
             | Inr (dataThrough, quality) \<Rightarrow> JSON 200 (usage_result_of q fetched (ae_clock E 1) dataThrough quality))))"

definition query_costs :: "api_env \<Rightarrow> repository \<Rightarrow> request \<Rightarrow> cost_result response" where
  "query_costs E repo r = (case analyticsQuery E r ''costs'' of
       Inl resp \<Rightarrow> resp
     | Inr q \<Rightarrow> (case repo_Costs repo q of
           Inl e \<Rightarrow> Problem 500 ''query_failed'' ''cost query failed''
         | Inr (metadata, fetched) \<Rightarrow> (case analyticsQuality E repo q of
               Inl resp \<Rightarrow> resp
             | Inr (dataThrough, quality) \<Rightarrow> JSON 200 (cost_result_of q metadata fetched (ae_clock E 1) dataThrough quality))))"

definition query_allocation :: "api_env \<Rightarrow> repository \<Rightarrow> request \<Rightarrow> allocation_result response" where
  "query_allocation E repo r = (case analyticsQuery E r ''allocation'' of
       Inl resp \<Rightarrow> resp
     | Inr q \<Rightarrow> (case repo_Allocation repo q of
           Inl e \<Rightarrow> Problem 500 ''query_failed'' ''allocation query failed''
         | Inr (metadata, fetched) \<Rightarrow> (case analyticsQuality E repo q of
               Inl resp \<Rightarrow> resp
             | Inr (dataThrough, quality) \<Rightarrow> JSON 200 (allocation_result_of q metadata fetched (ae_clock E 1) dataThrough quality))))"

definition query_recommendations ::
  "(string \<Rightarrow> 'd result) \<Rightarrow> api_env \<Rightarrow> repository \<Rightarrow> request \<Rightarrow> recommendation_list_result response" where
  "query_recommendations parse E repo r = (case authenticatedTenant (ae_getenv E) (ae_now E) r of
       Inl resp \<Rightarrow> resp
     | Inr tenantID \<Rightarrow> (case recommendationQueryFromRequest parse r tenantID of
           Inl resp \<Rightarrow> resp
         | Inr q \<Rightarrow> (case repo_Recommendations repo q of
               Inl e \<Rightarrow> Problem 500 ''query_failed'' ''recommendations query failed''
             | Inr recs \<Rightarrow> JSON 200 \<lparr> rl_TenantID = tenantID, rl_ClusterID = rc_ClusterID q, rl_GeneratedAt = ae_clock E 0,
                 rl_Recommendations = recs, rl_ResultCount = int (length recs), rl_Limit = normalizedRecommendationLimit (rc_Limit q) \<rparr>)))"

definition query_recommendation :: "api_env \<Rightarrow> repository \<Rightarrow> request \<Rightarrow> string \<Rightarrow> recommendation_result response" where
  "query_recommendation E repo r pathValue = (case authenticatedTenant (ae_getenv E) (ae_now E) r of
       Inl resp \<Rightarrow> resp
     | Inr tenantID \<Rightarrow>
         let recommendationID = TrimSpace pathValue in
         if recommendationID = [] then invalid ''recommendation_id is required''
         else case repo_Recommendation repo tenantID recommendationID of
             Inl e \<Rightarrow> if e = ErrRecommendationNotFound then Problem 404 ''not_found'' ''recommendation not found''
               else Problem 500 ''query_failed'' ''recommendation query failed''
           | Inr rec \<Rightarrow> JSON 200 rec)"

section \<open>Cursors decode back\<close>

lemma cursor_json_ok:
  assumes "utf8_Valid (cu_Kind c)" "utf8_Valid (cu_TenantID c)" "utf8_Valid (cu_ClusterID c)" "utf8_Valid (cu_Start c)" "utf8_Valid (cu_End c)"
    "utf8_Valid (cu_GroupBy c)"
  shows "json_ok maxNestingDepth (cursor_json c)"
proof -
  obtain d where d: "maxNestingDepth = Suc d" by (cases maxNestingDepth) (simp_all add: maxNestingDepth_def)
  have "utf8_Valid ''kind''" "utf8_Valid ''tenant_id''" "utf8_Valid ''cluster_id''" "utf8_Valid ''start''" "utf8_Valid ''end''" "utf8_Valid ''group_by''"
    "utf8_Valid ''offset''" by (rule utf8_Valid_ASCII, simp)+
  then show ?thesis using assms unfolding d cursor_json_def by auto
qed

lemma field_of_names:
  "field_of cursor_names ''kind'' = Some ''kind''" "field_of cursor_names ''tenant_id'' = Some ''tenant_id''"
  "field_of cursor_names ''cluster_id'' = Some ''cluster_id''" "field_of cursor_names ''start'' = Some ''start''"
  "field_of cursor_names ''end'' = Some ''end''" "field_of cursor_names ''group_by'' = Some ''group_by''"
  "field_of cursor_names ''offset'' = Some ''offset''"
  by (simp_all add: field_of_def cursor_names_def)

lemma into_cursor:
  assumes "0 \<le> cu_Offset c" "cu_Offset c < 2 ^ 63"
  shows "into_struct False cursor_names cursor_put (cursor_json c) zero_cursor = Some c"
  using assms
  by (simp add: into_struct_def cursor_json_def field_of_names cursor_put_def into_string_def into_int_def ParseInt64_itoa zero_cursor_def)

lemma cursor_roundtrip:
  assumes "utf8_Valid (cu_Kind c)" "utf8_Valid (cu_TenantID c)" "utf8_Valid (cu_ClusterID c)" "utf8_Valid (cu_Start c)" "utf8_Valid (cu_End c)"
    "utf8_Valid (cu_GroupBy c)" "0 \<le> cu_Offset c" "cu_Offset c < 2 ^ 63"
  shows "decodeAnalyticsCursor (encodeAnalyticsCursor c) = Some c"
  using parse_Marshal(1) [OF cursor_json_ok [OF assms(1-6)]] into_cursor [OF assms(7,8)] assms(7)
  by (simp add: decodeAnalyticsCursor_def encodeAnalyticsCursor_def b64_roundtrip)

text \<open>A formatted time is ASCII.\<close>

definition ascii :: "string \<Rightarrow> bool" where
  "ascii s = (\<forall>c \<in> set s. (of_char c :: nat) < 0x80)"

lemma ascii_simps [simp]: "ascii []" "ascii (c # s) = ((of_char c :: nat) < 0x80 \<and> ascii s)" "ascii (s @ t) = (ascii s \<and> ascii t)"
  by (auto simp: ascii_def)

lemma ascii_utf8: "ascii s \<Longrightarrow> utf8_Valid s"
  by (simp add: ascii_def utf8_Valid_ASCII)

lemma ascii_itoa [simp]: "ascii (itoa n)"
  using digit_is_digit [of _ n] by (fastforce simp: ascii_def is_digit_def)

lemma ascii_replicate [simp]: "(of_char c :: nat) < 0x80 \<Longrightarrow> ascii (replicate n c)"
  by (simp add: ascii_def)

lemma ascii_format_int [simp]: "ascii (format_int w n)"
  by (simp add: format_int_def pad_zero_def)

lemma ascii_format_RFC3339: "ascii (format_RFC3339 t)"
  by (simp add: format_RFC3339_def format_seconds_def format_2006_def format_01_def format_02_def format_clock_def Let_def split_beta)

section \<open>The query string with a cursor\<close>

lemma b64_member: "c \<in> set (b64_EncodeToString s) \<Longrightarrow> c \<in> b64_char ` {..<64}"
  by (induction s rule: b64_EncodeToString.induct) (auto intro!: imageI simp: b64_indices)

lemma b64_plain:
  assumes "c \<in> set (b64_EncodeToString s)"
  shows "c \<noteq> CHR ''&''" "c \<noteq> CHR '';''" "c \<noteq> CHR ''+''" "c \<noteq> CHR ''%''" "c \<noteq> CHR ''=''"
proof -
  obtain i where "i < 64" "c = b64_char i" using b64_member [OF assms] by blast
  then have "(of_char c :: nat) \<notin> {38, 59, 43, 37, 61}" using b64_code [of i] by auto
  then show "c \<noteq> CHR ''&''" "c \<noteq> CHR '';''" "c \<noteq> CHR ''+''" "c \<noteq> CHR ''%''" "c \<noteq> CHR ''=''" by auto
qed

lemma Cut_first: "x \<notin> set a \<Longrightarrow> Cut x (a @ x # b) = Some (a, b)"
  by (induction a) auto

lemma QueryUnescape_plain: "CHR ''%'' \<notin> set s \<Longrightarrow> CHR ''+'' \<notin> set s \<Longrightarrow> QueryUnescape s = Some s"
proof -
  assume a: "CHR ''%'' \<notin> set s" "CHR ''+'' \<notin> set s"
  then have "map (\<lambda>c. if c = CHR ''+'' then CHR '' '' else c) s = s" by (intro map_idI) auto
  then show ?thesis using a unescape_append [of s "[]"] by (simp add: QueryUnescape_def)
qed

lemma query_pair_cursor: "query_pair (''cursor='' @ b64_EncodeToString s) = [(''cursor'', b64_EncodeToString s)]"
proof -
  have "Cut (CHR ''='') (''cursor='' @ b64_EncodeToString s) = Some (''cursor'', b64_EncodeToString s)"
    using Cut_first [of "CHR ''=''" "''cursor''" "b64_EncodeToString s"] by simp
  moreover have "CHR '';'' \<notin> set (''cursor='' @ b64_EncodeToString s)" using b64_plain(2) by auto
  moreover have "QueryUnescape ''cursor'' = Some ''cursor''" by (rule QueryUnescape_plain) simp_all
  moreover have "QueryUnescape (b64_EncodeToString s) = Some (b64_EncodeToString s)" using b64_plain(3,4) by (intro QueryUnescape_plain) blast+
  ultimately show ?thesis by (simp add: query_pair_def)
qed

definition page_request :: "request \<Rightarrow> string \<Rightarrow> request" where
  "page_request r cursor = (if cursor = [] then r else r\<lparr> rq_RawQuery := rq_RawQuery r @ ''&cursor='' @ cursor \<rparr>)"

lemma url_Query_cursor:
  "url_Query (raw @ ''&cursor='' @ b64_EncodeToString s) = url_Query raw @ [(''cursor'', b64_EncodeToString s)]"
proof -
  have "CHR ''&'' \<notin> set (''cursor='' @ b64_EncodeToString s)" using b64_plain(1) by auto
  then have "Split1 (CHR ''&'') (raw @ CHR ''&'' # ''cursor='' @ b64_EncodeToString s)
      = Split1 (CHR ''&'') raw @ [''cursor='' @ b64_EncodeToString s]"
    by (simp only: Split1_append_sep Split1_no_sep_id simp_thms)
  then show ?thesis using query_pair_cursor [of s] by (simp add: url_Query_def)
qed

lemma values_Get_other: "k \<noteq> k' \<Longrightarrow> values_Get (vs @ [(k', v)]) k = values_Get vs k"
  by (simp add: values_Get_def map_add_def split: option.splits)

lemma values_Get_last: "k \<notin> fst ` set vs \<Longrightarrow> values_Get (vs @ [(k, v)]) k = v"
  by (simp add: values_Get_def map_add_def map_of_eq_None_iff [THEN iffD2])

section \<open>Following the cursors\<close>

text \<open>The type of the response an error is written to does not matter.\<close>

lemma authenticatedTenant_type:
  "(authenticatedTenant env now r :: 'a response + string) = Inr t \<longleftrightarrow> (authenticatedTenant env now r :: unit response + string) = Inr t"
  by (simp add: authenticatedTenant_def trustedGateway_def Let_def split: option.splits)

lemma analyticsRange_type:
  "(analyticsRange s e g :: 'a response + gotime \<times> gotime \<times> string) = Inr x \<longleftrightarrow> (analyticsRange s e g :: unit response + gotime \<times> gotime \<times> string) = Inr x"
  by (simp add: analyticsRange_def Let_def split: sum.splits)

lemma parse_limit_type: "(parse_limit raw n :: 'a response + int) = Inr x \<longleftrightarrow> (parse_limit raw n :: unit response + int) = Inr x"
  by (simp add: parse_limit_def Let_def split: option.splits)

lemma cursor_offset_type:
  "(cursor_offset raw k t c s e g :: 'a response + int) = Inr x \<longleftrightarrow> (cursor_offset raw k t c s e g :: unit response + int) = Inr x"
  by (simp add: cursor_offset_def Let_def split: option.splits)

text \<open>An accepted request, taken apart.\<close>

lemma analyticsQuery_Inr:
  "(analyticsQuery E r kind :: 'a response + analytics_query) = Inr q \<longleftrightarrow>
   (let vs = url_Query (rq_RawQuery r) in
    (authenticatedTenant (ae_getenv E) (ae_now E) r :: unit response + string) = Inr (aq_TenantID q)
    \<and> (analyticsRange (values_Get vs ''start'') (values_Get vs ''end'') (values_Get vs ''group_by'') :: unit response + gotime \<times> gotime \<times> string)
        = Inr (aq_Start q, aq_End q, aq_GroupBy q)
    \<and> (parse_limit (values_Get vs ''limit'') defaultAnalyticsLimit :: unit response + int) = Inr (aq_Limit q)
    \<and> (cursor_offset (values_Get vs ''cursor'') kind (aq_TenantID q) (aq_ClusterID q) (aq_Start q) (aq_End q) (aq_GroupBy q) :: unit response + int)
        = Inr (aq_Offset q)
    \<and> aq_ClusterID q = TrimSpace (values_Get vs ''cluster_id'') \<and> aq_IncludeQuality q = boolQuery (values_Get vs ''include_quality''))"
proof -
  let ?vs = "url_Query (rq_RawQuery r)"
  let ?a = "authenticatedTenant (ae_getenv E) (ae_now E) r :: 'a response + string"
  let ?b = "analyticsRange (values_Get ?vs ''start'') (values_Get ?vs ''end'') (values_Get ?vs ''group_by'') :: 'a response + gotime \<times> gotime \<times> string"
  let ?l = "parse_limit (values_Get ?vs ''limit'') defaultAnalyticsLimit :: 'a response + int"
  show ?thesis
    unfolding authenticatedTenant_type [where 'a = 'a, symmetric] analyticsRange_type [where 'a = 'a, symmetric]
      parse_limit_type [where 'a = 'a, symmetric] cursor_offset_type [where 'a = 'a, symmetric] analyticsQuery_def Let_def
    by (cases ?a; cases ?b; cases ?l; cases q) (auto split: sum.splits)
qed

lemma analyticsQuery_type:
  "(analyticsQuery E r kind :: 'a response + analytics_query) = Inr q \<longleftrightarrow> (analyticsQuery E r kind :: unit response + analytics_query) = Inr q"
  by (simp only: analyticsQuery_Inr)

definition page_cursor :: "string \<Rightarrow> analytics_query \<Rightarrow> int \<Rightarrow> analytics_cursor" where
  "page_cursor kind q offset = \<lparr> cu_Kind = kind, cu_TenantID = aq_TenantID q, cu_ClusterID = aq_ClusterID q,
     cu_Start = format_RFC3339 (aq_Start q), cu_End = format_RFC3339 (aq_End q), cu_GroupBy = aq_GroupBy q, cu_Offset = offset \<rparr>"

lemma validGroup_ascii: "validAnalyticsGroupBy g \<Longrightarrow> ascii g"
  by (auto simp: validAnalyticsGroupBy_def)

lemma analyticsRange_group: "(analyticsRange s e g :: unit response + gotime \<times> gotime \<times> string) = Inr (a, b, h) \<Longrightarrow> validAnalyticsGroupBy h"
  by (auto simp: analyticsRange_def Let_def split: sum.splits if_splits)

lemma b64_nonempty: "s \<noteq> [] \<Longrightarrow> b64_EncodeToString s \<noteq> []"
  by (cases s rule: b64_EncodeToString.cases) simp_all

lemma encode_nonempty: "encodeAnalyticsCursor c \<noteq> []"
  unfolding encodeAnalyticsCursor_def by (rule b64_nonempty) (simp add: cursor_json_def)

lemma TrimSpace_b64: "TrimSpace (b64_EncodeToString s) = b64_EncodeToString s"
proof (cases "b64_EncodeToString s = []")
  case False
  then show ?thesis by (intro TrimSpace_printable) (auto intro: b64_printable [of _ s])
qed simp

text \<open>The request with the cursor of an offset is the query at that offset.\<close>

lemma analyticsQuery_page:
  assumes "(analyticsQuery E r kind :: unit response + analytics_query) = Inr q" "''cursor'' \<notin> fst ` set (url_Query (rq_RawQuery r))"
    "(authenticatedTenant (ae_getenv E) (ae_now E) (page_request r (encodeAnalyticsCursor (page_cursor kind q n))) :: unit response + string)
       = Inr (aq_TenantID q)"
    "utf8_Valid kind" "utf8_Valid (aq_TenantID q)" "utf8_Valid (aq_ClusterID q)" "0 \<le> n" "n < 2 ^ 63"
  shows "(analyticsQuery E (page_request r (encodeAnalyticsCursor (page_cursor kind q n))) kind :: 'a response + analytics_query)
    = Inr (q\<lparr> aq_Offset := n \<rparr>)"
proof -
  let ?c = "encodeAnalyticsCursor (page_cursor kind q n)"
  let ?vs = "url_Query (rq_RawQuery r)"
  note q = assms(1) [unfolded analyticsQuery_Inr Let_def]
  have "utf8_Valid (aq_GroupBy q)" using q analyticsRange_group validGroup_ascii ascii_utf8 by blast
  then have d: "decodeAnalyticsCursor ?c = Some (page_cursor kind q n)"
    using assms(4-8) ascii_utf8 [OF ascii_format_RFC3339] by (intro cursor_roundtrip) (simp_all add: page_cursor_def)
  have "rq_RawQuery (page_request r ?c) = rq_RawQuery r @ ''&cursor='' @ ?c" by (simp add: page_request_def encode_nonempty)
  then have v: "url_Query (rq_RawQuery (page_request r ?c)) = ?vs @ [(''cursor'', ?c)]"
    using url_Query_cursor by (simp add: encodeAnalyticsCursor_def)
  have t: "TrimSpace ?c = ?c" by (simp add: encodeAnalyticsCursor_def TrimSpace_b64)
  have "(cursor_offset ?c kind (aq_TenantID q) (aq_ClusterID q) (aq_Start q) (aq_End q) (aq_GroupBy q) :: unit response + int) = Inr n"
    using d t encode_nonempty by (simp add: cursor_offset_def page_cursor_def)
  then show ?thesis
    using q assms(2,3) by (simp add: analyticsQuery_Inr v values_Get_other values_Get_last)
qed

text \<open>A client that asks for a page and then follows \<^verbatim>\<open>next_cursor\<close> until there is none; the first argument bounds its requests.\<close>

fun walk :: "nat \<Rightarrow> (string \<Rightarrow> ('r list \<times> string) option) \<Rightarrow> string \<Rightarrow> 'r list option" where
  "walk 0 serve cursor = None"
| "walk (Suc n) serve cursor = (case serve cursor of
       None \<Rightarrow> None
     | Some (rows, next) \<Rightarrow> if next = [] then Some rows else map_option ((@) rows) (walk n serve next))"

text \<open>The query string has no cursor of its own, the requests of the walk are authenticated for one tenant, the identifiers are valid
  UTF-8 (which a cursor needs to survive JSON), and the rows of every page are those of one ordered result.\<close>

definition pages_ok :: "(repository \<Rightarrow> analytics_query \<Rightarrow> 'r list result) \<Rightarrow> api_env \<Rightarrow> repository \<Rightarrow> request \<Rightarrow> analytics_query \<Rightarrow> 'r list \<Rightarrow> bool" where
  "pages_ok fetch E repo r q rows =
     (''cursor'' \<notin> fst ` set (url_Query (rq_RawQuery r))
      \<and> (\<forall>c. (authenticatedTenant (ae_getenv E) (ae_now E) (page_request r c) :: unit response + string) = Inr (aq_TenantID q))
      \<and> utf8_Valid (aq_TenantID q) \<and> utf8_Valid (aq_ClusterID q) \<and> int (length rows) < 2 ^ 62
      \<and> (\<exists>x. queryQuality E repo q = Inr x)
      \<and> (\<forall>n. fetch repo (q\<lparr> aq_Offset := int n \<rparr>) = Inr (take (nat (normalizedAnalyticsFetchLimit (aq_Limit q))) (drop n rows))))"

lemma queryQuality_offset [simp]: "queryQuality E repo (q\<lparr> aq_Offset := n \<rparr>) = queryQuality E repo q"
  by (simp add: queryQuality_def Let_def split: sum.splits)

lemma wrap64_id: "- (2 ^ 63) \<le> n \<Longrightarrow> n < 2 ^ 63 \<Longrightarrow> wrap64 n = n"
  unfolding wrap64_def by (simp add: sint_sbintrunc' signed_take_bit_int_eq_self)

text \<open>What the three analytics endpoints share: an accepted request is answered with the page of the fetched rows.\<close>

locale paged_endpoint =
  fixes kind :: string
    and serve :: "api_env \<Rightarrow> repository \<Rightarrow> request \<Rightarrow> ('r list \<times> string) option"
    and fetch :: "repository \<Rightarrow> analytics_query \<Rightarrow> 'r list result"
  assumes kind_ascii: "ascii kind"
    and serve_page: "(analyticsQuery E r kind :: unit response + analytics_query) = Inr q \<Longrightarrow> fetch repo q = Inr rows
      \<Longrightarrow> queryQuality E repo q = Inr x \<Longrightarrow> serve E repo r = Some (paginate rows q kind)"
begin

lemma walk_from:
  assumes "(analyticsQuery E r kind :: unit response + analytics_query) = Inr q" "pages_ok fetch E repo r q rows"
    "(analyticsQuery E (page_request r c) kind :: unit response + analytics_query) = Inr (q\<lparr> aq_Offset := int n \<rparr>)" "n \<le> length rows"
  shows "walk (Suc ((length rows - n) div nat (normalizedAnalyticsLimit (aq_Limit q)))) (\<lambda>c. serve E repo (page_request r c)) c = Some (drop n rows)"
  using assms(3,4)
proof (induction "length rows - n" arbitrary: n c rule: less_induct)
  case less
  define L where "L = nat (normalizedAnalyticsLimit (aq_Limit q))"
  have L: "0 < L" "L \<le> 500" "normalizedAnalyticsLimit (aq_Limit q) = int L" "nat (normalizedAnalyticsFetchLimit (aq_Limit q)) = Suc L"
    by (auto simp: L_def normalizedAnalyticsLimit_def normalizedAnalyticsFetchLimit_def defaultAnalyticsLimit_def maxAnalyticsLimit_def)
  note ok = assms(2) [unfolded pages_ok_def]
  let ?q = "q\<lparr> aq_Offset := int n \<rparr>" and ?rows = "take (Suc L) (drop n rows)"
  have "\<exists>x. queryQuality E repo ?q = Inr x" using ok by simp
  moreover have "fetch repo ?q = Inr ?rows" using ok L(4) by simp
  ultimately have s: "serve E repo (page_request r c) = Some (paginate ?rows ?q kind)" using serve_page [OF less.prems(1)] by blast
  show ?case
  proof (cases "length rows - n \<le> L")
    case True
    then have "paginate ?rows ?q kind = (drop n rows, [])" using L(3) by (simp add: paginate_def Let_def)
    then show ?thesis using s by simp
  next
    case False
    have off: "wrap64 (int n + int L) = int (n + L)" and b: "int (n + L) < 2 ^ 63"
    proof -
      have "n \<le> length rows" "int (length rows) < 2 ^ 62" using less.prems(2) ok by simp_all
      then show "int (n + L) < 2 ^ 63" using L(2) by simp
      then show "wrap64 (int n + int L) = int (n + L)" using wrap64_id [of "int (n + L)"] by simp
    qed
    let ?c = "encodeAnalyticsCursor (page_cursor kind q (int (n + L)))"
    have p: "paginate ?rows ?q kind = (take L (drop n rows), ?c)"
      using False L(1,3) off by (simp add: paginate_def Let_def page_cursor_def)
    have a: "(analyticsQuery E (page_request r ?c) kind :: unit response + analytics_query) = Inr (q\<lparr> aq_Offset := int (n + L) \<rparr>)"
      using ok b ascii_utf8 [OF kind_ascii] by (intro analyticsQuery_page [OF assms(1)]) simp_all
    have "walk (Suc ((length rows - (n + L)) div L)) (\<lambda>c. serve E repo (page_request r c)) ?c = Some (drop (n + L) rows)"
      using less.hyps [OF _ a] False L(1) unfolding L_def by simp
    moreover have "(length rows - n) div L = Suc ((length rows - (n + L)) div L)"
      using False L(1) div_if [of "length rows - n" L] by simp
    moreover have "take L (drop n rows) @ drop (n + L) rows = drop n rows" by (metis add.commute append_take_drop_id drop_drop)
    ultimately show ?thesis using s p encode_nonempty unfolding L_def [symmetric] by simp
  qed
qed

theorem enumerates:
  assumes "(analyticsQuery E r kind :: unit response + analytics_query) = Inr q" "pages_ok fetch E repo r q rows"
  shows "walk (Suc (length rows div nat (normalizedAnalyticsLimit (aq_Limit q)))) (\<lambda>c. serve E repo (page_request r c)) [] = Some rows"
proof -
  note q = assms(1) [unfolded analyticsQuery_Inr Let_def]
  have "values_Get (url_Query (rq_RawQuery r)) ''cursor'' = []"
    using assms(2) by (simp add: pages_ok_def values_Get_def map_of_eq_None_iff [THEN iffD2])
  then have "aq_Offset q = 0" using q by (simp add: cursor_offset_def)
  then have "(analyticsQuery E (page_request r []) kind :: unit response + analytics_query) = Inr (q\<lparr> aq_Offset := int 0 \<rparr>)"
    using assms(1) by (simp add: page_request_def)
  from walk_from [OF assms this] show ?thesis by simp
qed

end

text \<open>What a client reads of each response.\<close>

definition usage_page :: "usage_result response \<Rightarrow> (usage_row list \<times> string) option" where
  "usage_page resp = (case resp of JSON _ u \<Rightarrow> Some (ures_Rows u, ures_NextCursor u) | _ \<Rightarrow> None)"

definition cost_page :: "cost_result response \<Rightarrow> (cost_row list \<times> string) option" where
  "cost_page resp = (case resp of JSON _ u \<Rightarrow> Some (cres_Rows u, cres_NextCursor u) | _ \<Rightarrow> None)"

definition allocation_page :: "allocation_result response \<Rightarrow> (allocation_row list \<times> string) option" where
  "allocation_page resp = (case resp of JSON _ u \<Rightarrow> Some (ares_Rows u, ares_NextCursor u) | _ \<Rightarrow> None)"

interpretation usage_pages: paged_endpoint "''usage''" "\<lambda>E repo r. usage_page (query_usage E repo r)" repo_Usage
proof
  fix E r q repo rows x
  assume "(analyticsQuery E r ''usage'' :: unit response + analytics_query) = Inr q" "repo_Usage repo q = Inr rows" "queryQuality E repo q = Inr x"
  then show "usage_page (query_usage E repo r) = Some (paginate rows q ''usage'')"
    using analyticsQuery_type [where 'a = usage_result and E = E and r = r and kind = "''usage''" and q = q]
    by (cases x) (simp add: query_usage_def usage_page_def analyticsQuality_def usage_result_of_def split_beta)
qed simp

interpretation cost_pages: paged_endpoint "''costs''" "\<lambda>E repo r. cost_page (query_costs E repo r)" "\<lambda>repo q. map_sum id snd (repo_Costs repo q)"
proof
  fix E r q repo rows x
  assume "(analyticsQuery E r ''costs'' :: unit response + analytics_query) = Inr q" "map_sum id snd (repo_Costs repo q) = Inr rows"
    "queryQuality E repo q = Inr x"
  then show "cost_page (query_costs E repo r) = Some (paginate rows q ''costs'')"
    using analyticsQuery_type [where 'a = cost_result and E = E and r = r and kind = "''costs''" and q = q]
    by (cases x; cases "repo_Costs repo q") (auto simp: query_costs_def cost_page_def analyticsQuality_def cost_result_of_def split_beta)
qed simp

interpretation allocation_pages:
  paged_endpoint "''allocation''" "\<lambda>E repo r. allocation_page (query_allocation E repo r)" "\<lambda>repo q. map_sum id snd (repo_Allocation repo q)"
proof
  fix E r q repo rows x
  assume "(analyticsQuery E r ''allocation'' :: unit response + analytics_query) = Inr q" "map_sum id snd (repo_Allocation repo q) = Inr rows"
    "queryQuality E repo q = Inr x"
  then show "allocation_page (query_allocation E repo r) = Some (paginate rows q ''allocation'')"
    using analyticsQuery_type [where 'a = allocation_result and E = E and r = r and kind = "''allocation''" and q = q]
    by (cases x; cases "repo_Allocation repo q")
      (auto simp: query_allocation_def allocation_page_def analyticsQuality_def allocation_result_of_def split_beta)
qed simp

text \<open>A database that answers the statement of a query at every offset with that page of one ordered list of rows.\<close>

definition answers_pages :: "('d, 'c) connection \<Rightarrow> (analytics_query \<Rightarrow> 'd statement) \<Rightarrow> analytics_query \<Rightarrow> 'c list \<Rightarrow> bool" where
  "answers_pages conn sql q rows = (\<forall>n. case sql (q\<lparr> aq_Offset := int n \<rparr>) of (text, args) \<Rightarrow>
     conn text args = Inr (map Inr (take (nat (normalizedAnalyticsFetchLimit (aq_Limit q))) (drop n rows)), None))"

lemma scan_rows_Inr [simp]: "scan_rows what (map Inr cs) = Inr cs"
  by (induction cs) simp_all

lemma run_query_pages:
  "answers_pages conn sql q rows \<Longrightarrow> run_query name row conn (sql (q\<lparr> aq_Offset := int n \<rparr>))
    = Inr (take (nat (normalizedAnalyticsFetchLimit (aq_Limit q))) (drop n rows))"
  by (simp add: answers_pages_def run_query_def split_beta)

text \<open>C33: Following the cursors reads every row exactly once.  Whatever the page size a client chose, if the database answers each
  statement with that page of one ordered result, a client that starts without a cursor and follows \<^verbatim>\<open>next_cursor\<close> until it is empty gets all
  rows, in order and without repetition, in at most one request more than the number of full pages; this for usage, costs and allocation.\<close>
theorem query_pages_enumerate:
  assumes "''cursor'' \<notin> fst ` set (url_Query (rq_RawQuery r))"
    "\<forall>c. (authenticatedTenant (ae_getenv E) (ae_now E) (page_request r c) :: unit response + string) = Inr tenant"
    "utf8_Valid tenant" "utf8_Valid (TrimSpace (values_Get (url_Query (rq_RawQuery r)) ''cluster_id''))"
    "(analyticsQuery E r kind :: unit response + analytics_query) = Inr q" "\<not> aq_IncludeQuality q"
    "int (length us) < 2 ^ 62" "int (length cs) < 2 ^ 62" "int (length als) < 2 ^ 62"
    "repo = clickhouse parse str sigc usc coc alc rec ping" "limit = nat (normalizedAnalyticsLimit (aq_Limit q))"
  shows "(kind = ''usage'' \<and> answers_pages usc usageSQL q us \<longrightarrow>
      walk (Suc (length us div limit)) (\<lambda>c. usage_page (query_usage E repo (page_request r c))) [] = Some (map (scan_usage str) us))
    \<and> (kind = ''costs'' \<and> answers_pages coc costsSQL q cs \<longrightarrow>
      walk (Suc (length cs div limit)) (\<lambda>c. cost_page (query_costs E repo (page_request r c))) [] = Some (map (scan_cost str) cs))
    \<and> (kind = ''allocation'' \<and> answers_pages alc allocationSQL q als \<longrightarrow>
      walk (Suc (length als div limit)) (\<lambda>c. allocation_page (query_allocation E repo (page_request r c))) [] = Some (map (scan_allocation str) als))"
proof -
  note q = assms(5) [unfolded analyticsQuery_Inr Let_def]
  have "page_request r [] = r" by (simp add: page_request_def)
  then have t: "aq_TenantID q = tenant" using assms(2) q by (metis sum.inject(2))
  have c: "utf8_Valid (aq_ClusterID q)" using assms(4) q by simp
  have qq: "\<exists>x. queryQuality E repo q = Inr x" using assms(6) by (simp add: queryQuality_def)
  have ok: "pages_ok fetch E repo r q rows" if "int (length rows) < 2 ^ 62"
    "\<And>n. fetch repo (q\<lparr> aq_Offset := int n \<rparr>) = Inr (take (nat (normalizedAnalyticsFetchLimit (aq_Limit q))) (drop n rows))"
    for fetch :: "repository \<Rightarrow> analytics_query \<Rightarrow> 'r list result" and rows
    unfolding pages_ok_def using assms(1-3) t c qq that by simp
  have "pages_ok repo_Usage E repo r q (map (scan_usage str) us)" if "answers_pages usc usageSQL q us"
    using assms(7) run_query_pages [OF that] by (intro ok) (simp_all add: assms(10) clickhouse_def Usage_def take_map drop_map)
  moreover have "pages_ok (\<lambda>repo q. map_sum id snd (repo_Costs repo q)) E repo r q (map (scan_cost str) cs)" if "answers_pages coc costsSQL q cs"
    using assms(8) run_query_pages [OF that] by (intro ok) (simp_all add: assms(10) clickhouse_def Costs_def take_map drop_map)
  moreover have "pages_ok (\<lambda>repo q. map_sum id snd (repo_Allocation repo q)) E repo r q (map (scan_allocation str) als)"
    if "answers_pages alc allocationSQL q als"
    using assms(9) run_query_pages [OF that] by (intro ok) (simp_all add: assms(10) clickhouse_def Allocation_def take_map drop_map)
  ultimately show ?thesis
    using usage_pages.enumerates [of E r q repo "map (scan_usage str) us"] cost_pages.enumerates [of E r q repo "map (scan_cost str) cs"]
      allocation_pages.enumerates [of E r q repo "map (scan_allocation str) als"] assms(5)
    unfolding assms(11) by auto
qed

definition sample_page_env :: api_env where
  "sample_page_env = \<lparr> ae_getenv = \<lambda>_. [], ae_now = 0, ae_clock = \<lambda>_. 0 \<rparr>"

definition sample_page_request :: request where
  "sample_page_request = \<lparr> rq_Method = ''GET'', rq_URL = \<lparr> url_Scheme = [], url_Host = [], url_Path = ''/api/v1/usage'', url_RawPath = [] \<rparr>,
     rq_RawQuery = ''start=1970-01-01T00:00:00Z&end=1970-01-01T01:00:00Z&limit=2'', rq_Header = [TenantHeader \<mapsto> [''acme'']] \<rparr>"

definition sample_usage_row :: "string \<Rightarrow> nat usage_cols" where
  "sample_usage_row g = \<lparr> uc_TenantID = ''acme'', uc_ClusterID = ''c'', uc_GroupKey = ''namespace'', uc_GroupValue = g, uc_NamespaceUID = g,
     uc_NamespaceName = g, uc_cpuUsage = 1, uc_cpuRequest = 2, uc_cpuLimit = 3, uc_memoryWorkingSet = 4, uc_memoryRequest = 5,
     uc_memoryLimit = 6, uc_NetworkBytes = 7, uc_FilesystemBytes = 8, uc_gpuUsage = 0, uc_gpuRequest = 0, uc_OOMEvents = 0,
     uc_CPUThrottledPeriods = 0, uc_SampleCount = 9 \<rparr>"

definition sample_usage_rows :: "nat usage_cols list" where
  "sample_usage_rows = [sample_usage_row ''a'', sample_usage_row ''b'', sample_usage_row ''c'']"

text \<open>A database of three rows that reads the offset at the end of the statement.\<close>

definition sample_conn :: "(nat, nat usage_cols) connection" where
  "sample_conn text args = Inr (map Inr (take 3 (drop (atoi (rev (takeWhile is_digit (rev text)))) sample_usage_rows)), None)"

definition sample_repo :: repository where
  "sample_repo = clickhouse (\<lambda>_. Inl []) itoa (\<lambda>_ _. Inl []) sample_conn (\<lambda>_ _. Inl []) (\<lambda>_ _. Inl []) (\<lambda>_ _. Inl []) None"

definition sample_page_query :: analytics_query where
  "sample_page_query = \<lparr> aq_TenantID = ''acme'', aq_ClusterID = [], aq_Start = 0, aq_End = 3600 * Second, aq_GroupBy = ''namespace'', aq_Limit = 2,
     aq_Offset = 0, aq_IncludeQuality = False \<rparr>"

lemma sample_conn_pages: "answers_pages sample_conn usageSQL sample_page_query sample_usage_rows"
proof -
  have "\<not> is_digit (CHR '' '')" by (simp add: is_digit_def)
  then have d: "takeWhile is_digit (rev (itoa n) @ CHR '' '' # s) = rev (itoa n)" for n s
    using digit_is_digit [of _ n] by (subst takeWhile_append2) simp_all
  have c: "sample_conn (s @ page_clause 2 (int n)) args = Inr (map Inr (take 3 (drop n sample_usage_rows)), None)" for s args n
    using d [of n] by (simp add: sample_conn_def page_clause_def itoa_int_def normalizedAnalyticsOffset_def)
  show ?thesis
    by (simp add: c answers_pages_def usageSQL_def Let_def split_beta sample_page_query_def normalizedAnalyticsFetchLimit_def
        normalizedAnalyticsLimit_def maxAnalyticsLimit_def flip: append_assoc)
qed

lemma sample_times:
  "parse_RFC3339 ''1970-01-01T00:00:00Z'' = Some 0" "parse_RFC3339 ''1970-01-01T01:00:00Z'' = Some (3600 * Second)"
  by (simp_all add: parse_RFC3339_def parse_date_def parse_year_def parse_clock_def parse_fraction_def parse_zone_def getnum_def expect_def
      is_digit_def atoi_def days_in_def days_from_civil_def)

lemma sample_page_accepted:
  "(analyticsQuery sample_page_env sample_page_request ''usage'' :: unit response + analytics_query) = Inr sample_page_query"
proof -
  note t = TrimSpace_printable printable_ascii
  have q: "url_Query (rq_RawQuery sample_page_request) = [(''start'', ''1970-01-01T00:00:00Z''), (''end'', ''1970-01-01T01:00:00Z''), (''limit'', ''2'')]"
    by (simp add: sample_page_request_def url_Query_def query_pair_def QueryUnescape_plain)
  have "(authenticatedTenant (ae_getenv sample_page_env) (ae_now sample_page_env) sample_page_request :: unit response + string) = Inr ''acme''"
    by (simp add: authenticatedTenant_def trustedGateway_def VerifyRequest_def sample_page_env_def sample_page_request_def header_Get_def t)
  moreover have "Atoi ''2'' = Some 2" by (simp add: ParseInt64_def is_digit_def atoi_def)
  ultimately show ?thesis
    by (simp add: analyticsQuery_Inr Let_def q sample_page_query_def values_Get_def analyticsRange_def parseRequiredTime_def sample_times t
        time_Truncate_Hour_def validAnalyticsGroupBy_def parse_limit_def cursor_offset_def boolQuery_def ToLower_def)
qed

theorem query_pages_enumerate_witness:
  "walk 2 (\<lambda>c. usage_page (query_usage sample_page_env sample_repo (page_request sample_page_request c))) []
   = Some (map (scan_usage itoa) sample_usage_rows)"
proof -
  note t = TrimSpace_printable printable_ascii
  have q: "url_Query (rq_RawQuery sample_page_request) = [(''start'', ''1970-01-01T00:00:00Z''), (''end'', ''1970-01-01T01:00:00Z''), (''limit'', ''2'')]"
    by (simp add: sample_page_request_def url_Query_def query_pair_def QueryUnescape_plain)
  have a: "\<forall>c. (authenticatedTenant (ae_getenv sample_page_env) (ae_now sample_page_env) (page_request sample_page_request c) :: unit response + string) = Inr ''acme''"
    by (simp add: authenticatedTenant_def trustedGateway_def VerifyRequest_def sample_page_env_def sample_page_request_def header_Get_def t page_request_def)
  have l: "2 = nat (normalizedAnalyticsLimit (aq_Limit sample_page_query))"
    by (simp add: normalizedAnalyticsLimit_def sample_page_query_def maxAnalyticsLimit_def)
  have "utf8_Valid ''acme''" by (rule utf8_Valid_ASCII) simp
  then have "walk (Suc (length sample_usage_rows div 2)) (\<lambda>c. usage_page (query_usage sample_page_env sample_repo (page_request sample_page_request c))) []
      = Some (map (scan_usage itoa) sample_usage_rows)"
    using query_pages_enumerate [of sample_page_request sample_page_env "''acme''" "''usage''" sample_page_query sample_usage_rows "[]" "[]" sample_repo,
        OF _ a _ _ sample_page_accepted _ _ _ _ sample_repo_def l] sample_conn_pages
    by (simp add: q values_Get_def sample_page_query_def sample_usage_rows_def del: walk.simps)
  moreover have "Suc (length sample_usage_rows div 2) = 2" by (simp add: sample_usage_rows_def)
  ultimately show ?thesis by (simp only:)
qed

end
