(* ===== verification/Query_Json.thy ===== *)
theory Query_Json
  imports Query_Service
begin

text \<open>
  The JSON the results of \<^verbatim>\<open>services/query/types.go\<close> are encoded to, from their struct tags: the order of the fields, the fields left out
  when empty, times as \<^verbatim>\<open>Time.MarshalJSON\<close> writes them (an error outside the years 0 to 9999), nil slices as \<^verbatim>\<open>null\<close>.
\<close>

type_synonym field = "string \<times> json result"

fun obj_fields :: "field list \<Rightarrow> (string \<times> json) list result" where
  "obj_fields [] = Inr []"
| "obj_fields ((k, v) # fs) = (case v of
       Inl e \<Rightarrow> Inl e
     | Inr j \<Rightarrow> (case obj_fields fs of Inl e \<Rightarrow> Inl e | Inr js \<Rightarrow> Inr ((k, j) # js)))"

definition obj :: "field list \<Rightarrow> json result" where
  "obj fs = map_sum id JObj (obj_fields fs)"

definition str_field :: "string \<Rightarrow> string \<Rightarrow> field" where
  "str_field k s = (k, Inr (JStr s))"

definition omit_empty :: "string \<Rightarrow> string \<Rightarrow> field list" where
  "omit_empty k s = (if s = [] then [] else [str_field k s])"

definition int_field :: "string \<Rightarrow> int \<Rightarrow> field" where
  "int_field k n = (k, Inr (JNum (itoa_int n)))"

definition u64_field :: "string \<Rightarrow> u64 \<Rightarrow> field" where
  "u64_field k w = int_field k (uint w)"

definition bool_field :: "string \<Rightarrow> bool \<Rightarrow> field" where
  "bool_field k b = (k, Inr (JBool b))"

definition time_json :: "gotime \<Rightarrow> json result" where
  "time_json t = (case date_of t of (y, m, d) \<Rightarrow>
     if 0 \<le> y \<and> y \<le> 9999 then Inr (JStr (format_RFC3339Nano t))
     else Inl ''json: error calling MarshalJSON for type time.Time: Time.MarshalJSON: year outside of range [0,9999]'')"

definition time_field :: "string \<Rightarrow> gotime \<Rightarrow> field" where
  "time_field k t = (k, time_json t)"

text \<open>A slice that was only appended to is nil when it is empty.\<close>

fun values_json :: "json result list \<Rightarrow> json list result" where
  "values_json [] = Inr []"
| "values_json (v # vs) = (case v of
       Inl e \<Rightarrow> Inl e
     | Inr j \<Rightarrow> (case values_json vs of Inl e \<Rightarrow> Inl e | Inr js \<Rightarrow> Inr (j # js)))"

definition slice_field :: "string \<Rightarrow> ('a \<Rightarrow> json result) \<Rightarrow> 'a list \<Rightarrow> field" where
  "slice_field k f xs = (k, if xs = [] then Inr JNull else map_sum id JArr (values_json (map f xs)))"

definition strings_json :: "string list \<Rightarrow> json" where
  "strings_json ss = JArr (map JStr ss)"

text \<open>\<^verbatim>\<open>estimated_percent\<close> is only ever 0, 50 or 100.\<close>

definition quality_summary_json :: "quality_summary \<Rightarrow> json result" where
  "quality_summary_json q = obj ([str_field ''status'' (qs_Status q), int_field ''estimated_percent'' \<lfloor>qs_EstimatedPercent q\<rfloor>]
     @ (if qs_MissingScopes q = [] then [] else [(''missing_scopes'', Inr (strings_json (qs_MissingScopes q)))])
     @ (if qs_Warnings q = [] then [] else [(''warnings'', Inr (strings_json (qs_Warnings q)))])
     @ [int_field ''freshness_window_seconds'' (qs_FreshnessWindowSecs q)])"

definition optional :: "string \<Rightarrow> ('a \<Rightarrow> json result) \<Rightarrow> 'a option \<Rightarrow> field list" where
  "optional k f x = (case x of None \<Rightarrow> [] | Some v \<Rightarrow> [(k, f v)])"

definition usage_row_json :: "usage_row \<Rightarrow> json result" where
  "usage_row_json r = obj ([str_field ''tenant_id'' (ur_TenantID r), str_field ''cluster_id'' (ur_ClusterID r), str_field ''group_key'' (ur_GroupKey r),
       str_field ''group_value'' (ur_GroupValue r)]
     @ omit_empty ''namespace_uid'' (ur_NamespaceUID r) @ omit_empty ''namespace_name'' (ur_NamespaceName r)
     @ [str_field ''cpu_usage_core_hours'' (ur_CPUUsageCoreHours r), str_field ''cpu_request_core_hours'' (ur_CPURequestCoreHours r),
        str_field ''cpu_limit_core_hours'' (ur_CPULimitCoreHours r), str_field ''memory_working_set_gib_hours'' (ur_MemoryWorkingSetGiBHours r),
        str_field ''memory_request_gib_hours'' (ur_MemoryRequestGiBHours r), str_field ''memory_limit_gib_hours'' (ur_MemoryLimitGiBHours r),
        u64_field ''network_bytes'' (ur_NetworkBytes r), u64_field ''filesystem_bytes'' (ur_FilesystemBytes r),
        str_field ''gpu_usage_milli_hours'' (ur_GPUUsageMilliHours r), str_field ''gpu_request_milli_hours'' (ur_GPURequestMilliHours r),
        u64_field ''oom_events'' (ur_OOMEvents r), u64_field ''cpu_throttled_periods'' (ur_CPUThrottledPeriods r),
        u64_field ''sample_count'' (ur_SampleCount r)])"

definition usage_result_json :: "usage_result \<Rightarrow> json result" where
  "usage_result_json r = obj ([str_field ''tenant_id'' (ures_TenantID r)] @ omit_empty ''cluster_id'' (ures_ClusterID r)
     @ [time_field ''start'' (ures_Start r), time_field ''end'' (ures_End r), str_field ''group_by'' (ures_GroupBy r),
        time_field ''generated_at'' (ures_GeneratedAt r)]
     @ optional ''data_through'' time_json (ures_DataThrough r) @ optional ''quality'' quality_summary_json (ures_Quality r)
     @ [slice_field ''rows'' usage_row_json (ures_Rows r), int_field ''result_count'' (ures_ResultCount r), int_field ''limit'' (ures_Limit r)]
     @ omit_empty ''next_cursor'' (ures_NextCursor r))"

definition cost_row_json :: "cost_row \<Rightarrow> json result" where
  "cost_row_json r = obj ([str_field ''tenant_id'' (cr_TenantID r), str_field ''cluster_id'' (cr_ClusterID r), str_field ''group_key'' (cr_GroupKey r),
       str_field ''group_value'' (cr_GroupValue r)]
     @ omit_empty ''namespace_uid'' (cr_NamespaceUID r) @ omit_empty ''namespace_name'' (cr_NamespaceName r)
     @ [str_field ''direct_cost'' (cr_DirectCost r), str_field ''idle_cost'' (cr_IdleCost r), str_field ''network_cost'' (cr_NetworkCost r),
        str_field ''control_plane_cost'' (cr_ControlPlaneCost r), str_field ''system_namespace_cost'' (cr_SystemNamespaceCost r),
        str_field ''allocated_cost'' (cr_AllocatedCost r)])"

definition cost_result_json :: "cost_result \<Rightarrow> json result" where
  "cost_result_json r = obj ([str_field ''tenant_id'' (cres_TenantID r)] @ omit_empty ''cluster_id'' (cres_ClusterID r)
     @ [time_field ''start'' (cres_Start r), time_field ''end'' (cres_End r), str_field ''group_by'' (cres_GroupBy r),
        time_field ''generated_at'' (cres_GeneratedAt r)]
     @ optional ''data_through'' time_json (cres_DataThrough r) @ optional ''quality'' quality_summary_json (cres_Quality r)
     @ [str_field ''currency'' (cres_Currency r)] @ omit_empty ''computation_version'' (cres_ComputationVersion r)
     @ [time_field ''computed_at'' (cres_ComputedAt r),
        slice_field ''rows'' cost_row_json (cres_Rows r), int_field ''result_count'' (cres_ResultCount r), int_field ''limit'' (cres_Limit r)]
     @ omit_empty ''next_cursor'' (cres_NextCursor r))"

definition allocation_row_json :: "allocation_row \<Rightarrow> json result" where
  "allocation_row_json r = obj ([str_field ''tenant_id'' (alr_TenantID r), str_field ''cluster_id'' (alr_ClusterID r),
       str_field ''group_key'' (alr_GroupKey r), str_field ''group_value'' (alr_GroupValue r)]
     @ omit_empty ''namespace_uid'' (alr_NamespaceUID r) @ omit_empty ''namespace_name'' (alr_NamespaceName r)
     @ [u64_field ''cpu_request_core_milliseconds'' (alr_CPURequestCoreMilliseconds r), u64_field ''network_bytes'' (alr_NetworkBytes r),
        str_field ''allocation_weight'' (alr_AllocationWeight r), str_field ''direct_cost'' (alr_DirectCost r),
        str_field ''idle_cost'' (alr_IdleCost r), str_field ''network_cost'' (alr_NetworkCost r),
        str_field ''control_plane_cost'' (alr_ControlPlaneCost r), str_field ''system_namespace_cost'' (alr_SystemNamespaceCost r),
        str_field ''allocated_cost'' (alr_AllocatedCost r)])"

definition allocation_result_json :: "allocation_result \<Rightarrow> json result" where
  "allocation_result_json r = obj ([str_field ''tenant_id'' (ares_TenantID r)] @ omit_empty ''cluster_id'' (ares_ClusterID r)
     @ [time_field ''start'' (ares_Start r), time_field ''end'' (ares_End r), str_field ''group_by'' (ares_GroupBy r),
        time_field ''generated_at'' (ares_GeneratedAt r)]
     @ optional ''data_through'' time_json (ares_DataThrough r) @ optional ''quality'' quality_summary_json (ares_Quality r)
     @ [str_field ''currency'' (ares_Currency r)] @ omit_empty ''computation_version'' (ares_ComputationVersion r)
     @ [time_field ''computed_at'' (ares_ComputedAt r),
        slice_field ''rows'' allocation_row_json (ares_Rows r), int_field ''result_count'' (ares_ResultCount r), int_field ''limit'' (ares_Limit r)]
     @ omit_empty ''next_cursor'' (ares_NextCursor r))"

section \<open>Job results\<close>

text \<open>The \<^verbatim>\<open>any\<close> a query job carries.\<close>

datatype query_result = UsageRes usage_result | CostRes cost_result | AllocationRes allocation_result

definition query_result_json :: "query_result \<Rightarrow> json result" where
  "query_result_json r = (case r of
       UsageRes u \<Rightarrow> usage_result_json u | CostRes c \<Rightarrow> cost_result_json c | AllocationRes a \<Rightarrow> allocation_result_json a)"

end
