(* ===== verification/Job_Store.thy ===== *)
theory Job_Store
  imports Main
begin

text \<open>
  The contract of the bounded in-process stores of the query and the export service: jobs are kept in order of creation, creating one
  beyond the limit evicts the oldest, and a job is read and changed only under its tenant.  What a client may rely on is proved once
  here; the two stores interpret the locale on their own operations.
\<close>

locale bounded_store =
  fixes limit :: "'s \<Rightarrow> int" and order :: "'s \<Rightarrow> string list" and jobs :: "'s \<Rightarrow> string \<Rightarrow> 'j option"
    and add :: "string \<Rightarrow> 'j \<Rightarrow> 's \<Rightarrow> 's" and get :: "'s \<Rightarrow> string \<Rightarrow> string \<Rightarrow> 'j option" and tenant :: "'j \<Rightarrow> string"
  assumes add_limit: "limit (add k j s) = limit s"
    and add_order: "0 < limit s \<Longrightarrow> order (add k j s) = drop (Suc (length (order s)) - nat (limit s)) (order s @ [k])"
    and add_jobs: "0 < limit s \<Longrightarrow> jobs (add k j s) k' =
        (if k' \<in> set (take (Suc (length (order s)) - nat (limit s)) (order s @ [k])) then None else if k' = k then Some j else jobs s k')"
    and get_tenant: "get s t k = (case jobs s k of None \<Rightarrow> None | Some j \<Rightarrow> if tenant j = t then Some j else None)"
begin

definition store_ok :: "'s \<Rightarrow> bool" where
  "store_ok s = (0 < limit s \<and> distinct (order s) \<and> dom (jobs s) = set (order s) \<and> int (length (order s)) \<le> limit s)"

lemma add_keeps:
  assumes "store_ok s" "k \<notin> set (order s)"
  shows "store_ok (add k j s)" "get (add k j s) (tenant j) k = Some j"
proof -
  let ?n = "Suc (length (order s)) - nat (limit s)" and ?xs = "order s @ [k]"
  have l: "0 < limit s" "distinct ?xs" "dom (jobs s) = set (order s)" "int (length (order s)) \<le> limit s"
    using assms by (simp_all add: store_ok_def)
  have n: "?n \<le> 1" "?n \<le> length (order s)" using l by linarith+
  have d: "set (take ?n ?xs) \<inter> set (drop ?n ?xs) = {}" "set (take ?n ?xs) \<union> set (drop ?n ?xs) = set ?xs"
    using l(2) by (simp_all only: set_take_disj_set_drop_if_distinct set_append [symmetric] append_take_drop_id le_refl)
  have "dom (jobs (add k j s)) = set (drop ?n ?xs)"
    using d l(3) unfolding dom_def add_jobs [OF l(1)] by (auto split: if_splits)
  moreover have "int (length (drop ?n ?xs)) \<le> limit s" using l(1,4) by simp
  ultimately show "store_ok (add k j s)"
    using l(1) distinct_drop [OF l(2), of ?n] by (simp only: store_ok_def add_limit add_order [OF l(1)] simp_thms)
  have "k \<notin> set (take ?n ?xs)" using n(2) assms(2) by (auto dest: in_set_takeD)
  then show "get (add k j s) (tenant j) k = Some j" by (simp add: get_tenant add_jobs [OF l(1)])
qed

text \<open>Creating a list of jobs one after the other.\<close>

definition adds :: "(string \<times> 'j) list \<Rightarrow> 's \<Rightarrow> 's" where
  "adds = fold (\<lambda>(k, j). add k j)"

lemma adds_simps: "adds [] s = s" "adds ((k, j) # xs) s = adds xs (add k j s)"
  by (simp_all add: adds_def)

lemma adds_ok:
  "store_ok s \<Longrightarrow> distinct (map fst xs) \<Longrightarrow> set (map fst xs) \<inter> set (order s) = {} \<Longrightarrow> store_ok (adds xs s) \<and> limit (adds xs s) = limit s"
proof (induction xs arbitrary: s)
  case (Cons x xs)
  obtain k j where x: "x = (k, j)" by fastforce
  have "set (order (add k j s)) \<subseteq> set (order s @ [k])"
    using Cons.prems(1) set_drop_subset by (metis add_order store_ok_def)
  then show ?case using Cons.IH [of "add k j s"] Cons.prems add_keeps(1) [of s k j] x
    by (auto simp: adds_simps add_limit)
qed (simp add: adds_simps)

text \<open>The store keeps exactly the latest jobs, as many as its limit.\<close>

lemma adds_latest:
  "store_ok s \<Longrightarrow> distinct (map fst xs) \<Longrightarrow> set (map fst xs) \<inter> set (order s) = {} \<Longrightarrow>
   order (adds xs s) = drop (length (order s) + length xs - nat (limit s)) (order s @ map fst xs)
   \<and> (\<forall>k \<in> set (order (adds xs s)). jobs (adds xs s) k = (case map_of xs k of Some j \<Rightarrow> Some j | None \<Rightarrow> jobs s k))"
proof (induction xs arbitrary: s)
  case (Cons x xs)
  obtain k j where x: "x = (k, j)" by fastforce
  let ?n = "Suc (length (order s)) - nat (limit s)" and ?s = "add k j s"
  have l: "0 < limit s" "int (length (order s)) \<le> limit s" "distinct (order s @ [k])"
    using Cons.prems x by (auto simp: store_ok_def)
  have o: "order ?s = drop ?n (order s @ [k])" by (rule add_order [OF l(1)])
  have sub: "set (order ?s) \<subseteq> set (order s @ [k])" unfolding o by (rule set_drop_subset)
  have prems: "store_ok ?s" "distinct (map fst xs)" "set (map fst xs) \<inter> set (order ?s) = {}"
    using Cons.prems x add_keeps(1) [of s k j] sub by auto
  note ih = Cons.IH [OF prems]
  have n: "?n \<le> length (order s @ [k])" "length (order ?s) + length xs - nat (limit ?s) + ?n = length (order s) + length (x # xs) - nat (limit s)"
    using l(1,2) unfolding o by (auto simp: add_limit)
  have "order (adds xs ?s) = drop (length (order s) + length (x # xs) - nat (limit s)) (order s @ map fst (x # xs))"
  proof -
    have "drop ?n ((order s @ [k]) @ map fst xs) = order ?s @ map fst xs" using n(1) unfolding o by (subst drop_append) simp
    then have "drop ?n (order s @ map fst (x # xs)) = order ?s @ map fst xs" by (simp add: x)
    then show ?thesis using ih unfolding n(2) [symmetric] by (metis drop_drop)
  qed
  moreover have "jobs (adds xs ?s) k' = (case map_of (x # xs) k' of Some j \<Rightarrow> Some j | None \<Rightarrow> jobs s k')" if k': "k' \<in> set (order (adds xs ?s))" for k'
  proof (cases "map_of xs k'")
    case None
    have "k' \<in> set (order ?s) \<union> set (map fst xs)" using ih k' set_drop_subset by (metis set_append subsetD)
    then have "k' \<in> set (drop ?n (order s @ [k]))" using None unfolding o by (auto simp: map_of_eq_None_iff)
    then have "k' \<notin> set (take ?n (order s @ [k]))" using set_take_disj_set_drop_if_distinct [OF l(3), of ?n ?n] by blast
    then show ?thesis using ih k' None x by (simp add: add_jobs [OF l(1)])
  next
    case (Some j')
    then have "k' \<noteq> k" using Cons.prems(2) x by (force dest: map_of_SomeD)
    then show ?thesis using ih k' Some x by simp
  qed
  ultimately show ?case by (simp add: x adds_simps)
next
  case Nil
  then have "length (order s) - nat (limit s) = 0" unfolding store_ok_def by linarith
  then show ?case by (simp add: adds_simps)
qed

lemma isolation: "get s t k = Some j \<Longrightarrow> tenant j = t"
  by (simp add: get_tenant split: option.splits if_splits)

end

text \<open>Stores whose jobs change after their creation, always under the job's tenant.\<close>

locale updatable_store = bounded_store limit order jobs add get tenant
  for limit :: "'s \<Rightarrow> int" and order :: "'s \<Rightarrow> string list" and jobs :: "'s \<Rightarrow> string \<Rightarrow> 'j option" and add get tenant +
  fixes update :: "'u \<Rightarrow> string \<Rightarrow> string \<Rightarrow> 's \<Rightarrow> 's \<times> bool" and change :: "'u \<Rightarrow> 'j \<Rightarrow> 'j"
  assumes change_tenant: "tenant (change u j) = tenant j"
    and update_none: "get s t k = None \<Longrightarrow> update u t k s = (s, False)"
    and update_some: "get s t k = Some j \<Longrightarrow>
        snd (update u t k s) \<and> limit (fst (update u t k s)) = limit s \<and> order (fst (update u t k s)) = order s
        \<and> jobs (fst (update u t k s)) = (jobs s)(k \<mapsto> change u j)"
begin

lemma update_keeps: "store_ok s \<Longrightarrow> store_ok (fst (update u t k s))"
proof (cases "get s t k")
  case (Some j)
  assume "store_ok s"
  moreover have "jobs s k = Some j" using Some by (simp add: get_tenant split: option.splits if_splits)
  ultimately show ?thesis using update_some [OF Some, of u] by (auto simp: store_ok_def)
qed (simp add: update_none)

lemma update_others: "k' \<noteq> k \<Longrightarrow> jobs (fst (update u t k s)) k' = jobs s k'"
  by (cases "get s t k") (use update_none update_some in fastforce)+

lemma update_foreign: "jobs s k = Some j \<Longrightarrow> tenant j \<noteq> t \<Longrightarrow> update u t k s = (s, False)"
  by (rule update_none) (simp add: get_tenant)

lemma update_own: "get s t k = Some j \<Longrightarrow> get (fst (update u t k s)) t k = Some (change u j)"
proof -
  assume a: "get s t k = Some j"
  then have "tenant j = t" by (rule isolation)
  then show ?thesis using update_some [OF a, of u] by (simp add: get_tenant change_tenant)
qed

end

end
