(* ===== verification/Query_Jobs.thy ===== *)
theory Query_Jobs
  imports Query_Json Job_Store
begin

text \<open>
  The asynchronous query jobs (\<^verbatim>\<open>services/query/query_jobs.go\<close>): the bounded store, the two handlers and the goroutine that runs a
  job.  Store operations run under the store's mutex and are atomic; \<^verbatim>\<open>jstep\<close> interleaves the handlers with the goroutines.  The
  random identifier of a job is an argument.
\<close>

section \<open>Jobs and their store\<close>

record query_job_request =
  qr_QueryType :: string
  qr_ClusterID :: string
  qr_Start :: string
  qr_End :: string
  qr_GroupBy :: string
  qr_Limit :: int
  qr_IncludeQuality :: bool

record async_analytics_query =
  aa_ClusterID :: string
  aa_Start :: gotime
  aa_End :: gotime
  aa_GroupBy :: string
  aa_Limit :: int
  aa_IncludeQuality :: bool

record query_manifest =
  qm_ResultType :: string
  qm_SchemaVersion :: string
  qm_ContentType :: string
  qm_RowCount :: int
  qm_ByteSize :: int
  qm_SHA256 :: string
  qm_GeneratedAt :: gotime
  qm_Inline :: bool

record query_job_result =
  qj_QueryID :: string
  qj_TenantID :: string
  qj_QueryType :: string
  qj_Status :: string
  qj_CreatedAt :: gotime
  qj_StartedAt :: "gotime option"
  qj_FinishedAt :: "gotime option"
  qj_Query :: async_analytics_query
  qj_Manifest :: "query_manifest option"
  qj_Error :: string
  qj_Result :: "query_result option"

record query_job_store =
  js_maxJobs :: int
  js_order :: "string list"
  js_jobs :: "string \<Rightarrow> query_job_result option"

definition newQueryJobStore :: "int \<Rightarrow> query_job_store" where
  "newQueryJobStore maxJobs = \<lparr> js_maxJobs = (if maxJobs \<le> 0 then 1000 else maxJobs), js_order = [], js_jobs = Map.empty \<rparr>"

fun evictLocked :: "int \<Rightarrow> string list \<Rightarrow> (string \<Rightarrow> query_job_result option) \<Rightarrow> string list \<times> (string \<Rightarrow> query_job_result option)" where
  "evictLocked mx [] jobs = ([], jobs)"
| "evictLocked mx (oldest # order) jobs =
     (if int (length (oldest # order)) > mx then evictLocked mx order (jobs(oldest := None)) else (oldest # order, jobs))"

definition new_job :: "string \<Rightarrow> string \<Rightarrow> string \<Rightarrow> analytics_query \<Rightarrow> gotime \<Rightarrow> query_job_result" where
  "new_job queryID tenantID queryType q now =
     \<lparr> qj_QueryID = queryID, qj_TenantID = tenantID, qj_QueryType = queryType, qj_Status = ''queued'', qj_CreatedAt = now, qj_StartedAt = None,
       qj_FinishedAt = None,
       qj_Query = \<lparr> aa_ClusterID = aq_ClusterID q, aa_Start = aq_Start q, aa_End = aq_End q, aa_GroupBy = aq_GroupBy q,
         aa_Limit = normalizedAnalyticsLimit (aq_Limit q), aa_IncludeQuality = aq_IncludeQuality q \<rparr>,
       qj_Manifest = None, qj_Error = [], qj_Result = None \<rparr>"

definition job_insert :: "string \<Rightarrow> query_job_result \<Rightarrow> query_job_store \<Rightarrow> query_job_store" where
  "job_insert queryID job s = (case evictLocked (js_maxJobs s) (js_order s @ [queryID]) ((js_jobs s)(queryID \<mapsto> job)) of
     (order, jobs) \<Rightarrow> s\<lparr> js_order := order, js_jobs := jobs \<rparr>)"

definition job_create :: "string \<Rightarrow> string \<Rightarrow> string \<Rightarrow> analytics_query \<Rightarrow> gotime \<Rightarrow> query_job_store \<Rightarrow> query_job_store \<times> query_job_result" where
  "job_create queryID tenantID queryType q now s =
     (let job = new_job queryID tenantID queryType q now in (job_insert queryID job s, job))"

definition job_get :: "query_job_store \<Rightarrow> string \<Rightarrow> string \<Rightarrow> query_job_result option" where
  "job_get s tenantID queryID = (case js_jobs s queryID of
       None \<Rightarrow> None
     | Some job \<Rightarrow> if qj_TenantID job \<noteq> tenantID then None else Some job)"

text \<open>\<^verbatim>\<open>start\<close>, \<^verbatim>\<open>succeed\<close> and \<^verbatim>\<open>fail\<close>.\<close>

definition job_start :: "string \<Rightarrow> string \<Rightarrow> gotime \<Rightarrow> query_job_store \<Rightarrow> query_job_store \<times> bool" where
  "job_start tenantID queryID now s = (case js_jobs s queryID of
       None \<Rightarrow> (s, False)
     | Some job \<Rightarrow>
         if qj_TenantID job \<noteq> tenantID then (s, False)
         else (s\<lparr> js_jobs := (js_jobs s)(queryID \<mapsto> job\<lparr> qj_Status := ''running'', qj_StartedAt := Some now \<rparr>) \<rparr>, True))"

definition job_succeed :: "string \<Rightarrow> string \<Rightarrow> query_manifest \<Rightarrow> query_result \<Rightarrow> gotime \<Rightarrow> query_job_store \<Rightarrow> query_job_store \<times> bool" where
  "job_succeed tenantID queryID manifest result now s = (case js_jobs s queryID of
       None \<Rightarrow> (s, False)
     | Some job \<Rightarrow>
         if qj_TenantID job \<noteq> tenantID then (s, False)
         else (s\<lparr> js_jobs := (js_jobs s)(queryID \<mapsto> job\<lparr> qj_Status := ''succeeded'', qj_FinishedAt := Some now,
                 qj_Manifest := Some manifest, qj_Result := Some result \<rparr>) \<rparr>, True))"

definition job_fail :: "string \<Rightarrow> string \<Rightarrow> error \<Rightarrow> gotime \<Rightarrow> query_job_store \<Rightarrow> query_job_store \<times> bool" where
  "job_fail tenantID queryID err now s = (case js_jobs s queryID of
       None \<Rightarrow> (s, False)
     | Some job \<Rightarrow>
         if qj_TenantID job \<noteq> tenantID then (s, False)
         else (s\<lparr> js_jobs := (js_jobs s)(queryID \<mapsto> job\<lparr> qj_Status := ''failed'', qj_FinishedAt := Some now, qj_Error := err \<rparr>) \<rparr>, True))"

section \<open>Running a job\<close>

definition with_quality :: "api_env \<Rightarrow> repository \<Rightarrow> analytics_query \<Rightarrow> (gotime option \<Rightarrow> quality_summary option \<Rightarrow> 'r) \<Rightarrow> 'r result" where
  "with_quality E repo q build = (case queryQuality (E\<lparr> ae_clock := \<lambda>n. ae_clock E (n + 2) \<rparr>) repo q of
       Inl e \<Rightarrow> Inl ''quality query failed''
     | Inr (dataThrough, quality) \<Rightarrow> Inr (build dataThrough quality))"

text \<open>The handler only lets the three types through; the text of the last error, which quotes the type, is left out.\<close>

definition executeQueryJob :: "api_env \<Rightarrow> repository \<Rightarrow> string \<Rightarrow> analytics_query \<Rightarrow> (query_result \<times> int) result" where
  "executeQueryJob E repo queryType q0 =
     (let q = q0\<lparr> aq_Offset := 0 \<rparr>; now = ae_clock E 1 in
      if queryType = ''usage'' then (case repo_Usage repo q of
          Inl e \<Rightarrow> Inl (''usage query failed: '' @ e)
        | Inr rows \<Rightarrow> with_quality E repo q (\<lambda>d s. let r = usage_result_of q rows now d s in (UsageRes r, ures_ResultCount r)))
      else if queryType = ''costs'' then (case repo_Costs repo q of
          Inl e \<Rightarrow> Inl (''cost query failed: '' @ e)
        | Inr (meta, rows) \<Rightarrow> with_quality E repo q (\<lambda>d s. let r = cost_result_of q meta rows now d s in (CostRes r, cres_ResultCount r)))
      else if queryType = ''allocation'' then (case repo_Allocation repo q of
          Inl e \<Rightarrow> Inl (''allocation query failed: '' @ e)
        | Inr (meta, rows) \<Rightarrow> with_quality E repo q (\<lambda>d s. let r = allocation_result_of q meta rows now d s in (AllocationRes r, ares_ResultCount r)))
      else Inl ''unsupported query_type'')"

definition queryManifest :: "string \<Rightarrow> int \<Rightarrow> query_result \<Rightarrow> gotime \<Rightarrow> query_manifest result" where
  "queryManifest queryType rowCount result generatedAt = (case query_result_json result of
       Inl e \<Rightarrow> Inl (''encode query result for manifest: '' @ e)
     | Inr v \<Rightarrow>
         let data = Marshal v in
         Inr \<lparr> qm_ResultType = queryType, qm_SchemaVersion = ''query-result-v1'', qm_ContentType = ''application/json'',
           qm_RowCount = rowCount, qm_ByteSize = int (length data), qm_SHA256 = hex_EncodeToString (sha256 data),
           qm_GeneratedAt = generatedAt, qm_Inline = True \<rparr>)"

text \<open>The goroutine after \<^verbatim>\<open>start\<close>; it ignores what the store operations return.\<close>

definition finishQueryJob :: "api_env \<Rightarrow> repository \<Rightarrow> string \<Rightarrow> string \<Rightarrow> analytics_query \<Rightarrow> query_job_store \<Rightarrow> query_job_store" where
  "finishQueryJob E repo queryID queryType q s = (case executeQueryJob E repo queryType q of
       Inl e \<Rightarrow> fst (job_fail (aq_TenantID q) queryID e (ae_clock E 4) s)
     | Inr (result, rowCount) \<Rightarrow> (case queryManifest queryType rowCount result (ae_clock E 3) of
           Inl e \<Rightarrow> fst (job_fail (aq_TenantID q) queryID e (ae_clock E 4) s)
         | Inr manifest \<Rightarrow> fst (job_succeed (aq_TenantID q) queryID manifest result (ae_clock E 4) s)))"

definition runQueryJob :: "api_env \<Rightarrow> repository \<Rightarrow> string \<Rightarrow> string \<Rightarrow> analytics_query \<Rightarrow> query_job_store \<Rightarrow> query_job_store" where
  "runQueryJob E repo queryID queryType q s =
     finishQueryJob E repo queryID queryType q (fst (job_start (aq_TenantID q) queryID (ae_clock E 0) s))"

section \<open>Handlers\<close>

definition query_request_names :: "string list" where
  "query_request_names = [''query_type'', ''cluster_id'', ''start'', ''end'', ''group_by'', ''limit'', ''include_quality'']"

definition query_request_put :: "string \<Rightarrow> json \<Rightarrow> query_job_request \<Rightarrow> query_job_request option" where
  "query_request_put n v c =
     (if n = ''query_type'' then map_option (\<lambda>x. c\<lparr> qr_QueryType := x \<rparr>) (into_string v (qr_QueryType c))
      else if n = ''cluster_id'' then map_option (\<lambda>x. c\<lparr> qr_ClusterID := x \<rparr>) (into_string v (qr_ClusterID c))
      else if n = ''start'' then map_option (\<lambda>x. c\<lparr> qr_Start := x \<rparr>) (into_string v (qr_Start c))
      else if n = ''end'' then map_option (\<lambda>x. c\<lparr> qr_End := x \<rparr>) (into_string v (qr_End c))
      else if n = ''group_by'' then map_option (\<lambda>x. c\<lparr> qr_GroupBy := x \<rparr>) (into_string v (qr_GroupBy c))
      else if n = ''limit'' then map_option (\<lambda>x. c\<lparr> qr_Limit := x \<rparr>) (into_int v (qr_Limit c))
      else map_option (\<lambda>x. c\<lparr> qr_IncludeQuality := x \<rparr>) (into_bool v (qr_IncludeQuality c)))"

text \<open>\<^verbatim>\<open>MaxBytesReader\<close> lets the decoder see the first MiB of the body; a value that does not end there is an error.\<close>

definition decode_body :: "string list \<Rightarrow> (string \<Rightarrow> json \<Rightarrow> 's \<Rightarrow> 's option) \<Rightarrow> 's \<Rightarrow> string \<Rightarrow> 's option" where
  "decode_body names put zero body = Option.bind (decode_json (take 1048576 body)) (\<lambda>v. into_struct True names put v zero)"

definition decodeQueryJobRequest :: "string \<Rightarrow> query_job_request option" where
  "decodeQueryJobRequest = decode_body query_request_names query_request_put
     \<lparr> qr_QueryType = [], qr_ClusterID = [], qr_Start = [], qr_End = [], qr_GroupBy = [], qr_Limit = 0, qr_IncludeQuality = False \<rparr>"

definition asyncAnalyticsQuery :: "query_job_request \<Rightarrow> string \<Rightarrow> 'a response + analytics_query \<times> string" where
  "asyncAnalyticsQuery req tenantID =
     (let queryType = TrimSpace (qr_QueryType req) in
      if queryType \<notin> set [''usage'', ''costs'', ''allocation'']
      then Inl (invalid ''query_type must be one of usage, costs, allocation'')
      else case analyticsRange (qr_Start req) (qr_End req) (qr_GroupBy req) of
          Inl resp \<Rightarrow> Inl resp
        | Inr (start, end', groupBy) \<Rightarrow>
            if qr_Limit req < 0 then Inl (invalid ''limit must be a positive integer'')
            else Inr (\<lparr> aq_TenantID = tenantID, aq_ClusterID = TrimSpace (qr_ClusterID req), aq_Start = start, aq_End = end',
                   aq_GroupBy = groupBy, aq_Limit = (if qr_Limit req = 0 then defaultAnalyticsLimit else qr_Limit req), aq_Offset = 0,
                   aq_IncludeQuality = qr_IncludeQuality req \<rparr>, queryType))"

text \<open>The handler with the goroutine it starts, if any.\<close>

definition createQueryJob ::
  "api_env \<Rightarrow> string \<Rightarrow> request \<Rightarrow> string \<Rightarrow> query_job_store \<Rightarrow> query_job_store \<times> query_job_result response \<times> (string \<times> string \<times> analytics_query) option" where
  "createQueryJob E queryID r body s = (case authenticatedTenant (ae_getenv E) (ae_now E) r of
       Inl resp \<Rightarrow> (s, resp, None)
     | Inr tenantID \<Rightarrow> (case decodeQueryJobRequest body of
           None \<Rightarrow> (s, invalid ''request body must be valid query JSON'', None)
         | Some req \<Rightarrow> (case asyncAnalyticsQuery req tenantID of
               Inl resp \<Rightarrow> (s, resp, None)
             | Inr (q, queryType) \<Rightarrow> (case job_create queryID tenantID queryType q (ae_clock E 0) s of
                   (s', job) \<Rightarrow> (s', JSON 202 job, Some (queryID, queryType, q))))))"

definition queryJob :: "api_env \<Rightarrow> request \<Rightarrow> string \<Rightarrow> query_job_store \<Rightarrow> query_job_result response" where
  "queryJob E r pathValue s = (case authenticatedTenant (ae_getenv E) (ae_now E) r of
       Inl resp \<Rightarrow> resp
     | Inr tenantID \<Rightarrow>
         let queryID = TrimSpace pathValue in
         if queryID = [] then invalid ''query_id is required''
         else case job_get s tenantID queryID of
             None \<Rightarrow> Problem 404 ''not_found'' ''query job not found''
           | Some job \<Rightarrow> JSON 200 job)"

section \<open>The store keeps its contract\<close>

lemma evictLocked_spec:
  "0 < mx \<Longrightarrow> evictLocked mx order jobs =
     (drop (length order - nat mx) order, \<lambda>k. if k \<in> set (take (length order - nat mx) order) then None else jobs k)"
proof (induction mx order jobs rule: evictLocked.induct)
  case (2 mx oldest order jobs)
  show ?case
  proof (cases "int (length (oldest # order)) > mx")
    case True
    then have "length (oldest # order) - nat mx = Suc (length order - nat mx)" by simp
    then show ?thesis
      using 2(1) [OF True 2(2)] True by (simp only: evictLocked.simps if_True drop_Suc_Cons take_Suc_Cons) (auto simp: fun_eq_iff)
  qed simp
qed simp

datatype job_change = Starts gotime | Succeeds query_manifest query_result gotime | Fails error gotime

fun change_job :: "job_change \<Rightarrow> query_job_result \<Rightarrow> query_job_result" where
  "change_job (Starts now) job = job\<lparr> qj_Status := ''running'', qj_StartedAt := Some now \<rparr>"
| "change_job (Succeeds m r now) job =
     job\<lparr> qj_Status := ''succeeded'', qj_FinishedAt := Some now, qj_Manifest := Some m, qj_Result := Some r \<rparr>"
| "change_job (Fails e now) job = job\<lparr> qj_Status := ''failed'', qj_FinishedAt := Some now, qj_Error := e \<rparr>"

fun update_job :: "job_change \<Rightarrow> string \<Rightarrow> string \<Rightarrow> query_job_store \<Rightarrow> query_job_store \<times> bool" where
  "update_job (Starts now) t k s = job_start t k now s"
| "update_job (Succeeds m r now) t k s = job_succeed t k m r now s"
| "update_job (Fails e now) t k s = job_fail t k e now s"

interpretation qjobs: updatable_store js_maxJobs js_order js_jobs job_insert job_get qj_TenantID update_job change_job
proof
  fix s k j k'
  show "js_maxJobs (job_insert k j s) = js_maxJobs s" by (simp add: job_insert_def split: prod.splits)
  assume l: "0 < js_maxJobs s"
  show "js_order (job_insert k j s) = drop (Suc (length (js_order s)) - nat (js_maxJobs s)) (js_order s @ [k])"
    by (simp add: job_insert_def evictLocked_spec [OF l])
  show "js_jobs (job_insert k j s) k' =
      (if k' \<in> set (take (Suc (length (js_order s)) - nat (js_maxJobs s)) (js_order s @ [k])) then None else if k' = k then Some j else js_jobs s k')"
    by (simp add: job_insert_def evictLocked_spec [OF l])
next
  fix s t k
  show "job_get s t k = (case js_jobs s k of None \<Rightarrow> None | Some j \<Rightarrow> if qj_TenantID j = t then Some j else None)"
    by (simp add: job_get_def split: option.splits)
next
  fix u j
  show "qj_TenantID (change_job u j) = qj_TenantID j" by (cases u) simp_all
next
  fix s t k u
  assume "job_get s t k = None"
  then show "update_job u t k s = (s, False)"
    by (cases u) (auto simp: job_get_def job_start_def job_succeed_def job_fail_def split: option.splits if_splits)
next
  fix s t k j u
  assume "job_get s t k = Some j"
  then show "snd (update_job u t k s) \<and> js_maxJobs (fst (update_job u t k s)) = js_maxJobs s \<and> js_order (fst (update_job u t k s)) = js_order s
      \<and> js_jobs (fst (update_job u t k s)) = (js_jobs s)(k \<mapsto> change_job u j)"
    by (cases u) (auto simp: job_get_def job_start_def job_succeed_def job_fail_def split: option.splits if_splits)
qed

section \<open>Interleaved jobs\<close>

datatype job_stage = Spawned | Started

record job_sys =
  sy_store :: query_job_store
  sy_go :: "string \<Rightarrow> (job_stage \<times> string \<times> analytics_query) option"
  sy_used :: "string set"

text \<open>A request creates a job under a fresh identifier and starts its goroutine; a goroutine starts its job, and later finishes it.\<close>

inductive jstep :: "repository \<Rightarrow> job_sys \<Rightarrow> job_sys \<Rightarrow> bool" for repo where
  js_create: "k \<notin> sy_used x \<Longrightarrow> createQueryJob E k r body (sy_store x) = (s', resp, Some (k, queryType, q))
    \<Longrightarrow> jstep repo x (x\<lparr> sy_store := s', sy_go := (sy_go x)(k \<mapsto> (Spawned, queryType, q)), sy_used := insert k (sy_used x) \<rparr>)"
| js_refuse: "createQueryJob E k r body (sy_store x) = (s', resp, None) \<Longrightarrow> jstep repo x (x\<lparr> sy_store := s' \<rparr>)"
| js_start: "sy_go x k = Some (Spawned, queryType, q)
    \<Longrightarrow> jstep repo x (x\<lparr> sy_store := fst (job_start (aq_TenantID q) k now (sy_store x)), sy_go := (sy_go x)(k \<mapsto> (Started, queryType, q)) \<rparr>)"
| js_finish: "sy_go x k = Some (Started, queryType, q)
    \<Longrightarrow> jstep repo x (x\<lparr> sy_store := finishQueryJob E repo k queryType q (sy_store x), sy_go := (sy_go x)(k := None) \<rparr>)"

inductive_cases jstepE: "jstep repo x y"

definition job_init :: "int \<Rightarrow> job_sys" where
  "job_init maxJobs = \<lparr> sy_store = newQueryJobStore maxJobs, sy_go = Map.empty, sy_used = {} \<rparr>"

text \<open>What a stored job shows at each stage of its goroutine.\<close>

definition pending_job :: "query_job_result \<Rightarrow> bool" where
  "pending_job j = (qj_FinishedAt j = None \<and> qj_Manifest j = None \<and> qj_Result j = None \<and> qj_Error j = [])"

definition finished_job :: "query_job_result \<Rightarrow> bool" where
  "finished_job j = (qj_StartedAt j \<noteq> None \<and> qj_FinishedAt j \<noteq> None
     \<and> (qj_Status j = ''succeeded'' \<and> (\<exists>m r v. qj_Manifest j = Some m \<and> qj_Result j = Some r \<and> qj_Error j = [] \<and> query_result_json r = Inr v
           \<and> qm_ByteSize m = int (length (Marshal v)) \<and> qm_SHA256 m = hex_EncodeToString (sha256 (Marshal v)) \<and> qm_ResultType m = qj_QueryType j)
        \<or> qj_Status j = ''failed'' \<and> qj_Manifest j = None \<and> qj_Result j = None))"

definition job_shows :: "(job_stage \<times> string \<times> analytics_query) option \<Rightarrow> query_job_result \<Rightarrow> bool" where
  "job_shows g j = (case g of
       Some (Spawned, t, q) \<Rightarrow> qj_Status j = ''queued'' \<and> qj_StartedAt j = None \<and> pending_job j \<and> qj_TenantID j = aq_TenantID q \<and> qj_QueryType j = t
     | Some (Started, t, q) \<Rightarrow> qj_Status j = ''running'' \<and> qj_StartedAt j \<noteq> None \<and> pending_job j \<and> qj_TenantID j = aq_TenantID q \<and> qj_QueryType j = t
     | None \<Rightarrow> finished_job j)"

definition jobs_inv :: "job_sys \<Rightarrow> bool" where
  "jobs_inv x = (qjobs.store_ok (sy_store x) \<and> set (js_order (sy_store x)) \<subseteq> sy_used x \<and> dom (sy_go x) \<subseteq> sy_used x
     \<and> (\<forall>k j. js_jobs (sy_store x) k = Some j \<longrightarrow> qj_QueryID j = k \<and> job_shows (sy_go x k) j))"

lemma asyncAnalyticsQuery_tenant: "asyncAnalyticsQuery req t = Inr (q, qt) \<Longrightarrow> aq_TenantID q = t"
  by (auto simp: asyncAnalyticsQuery_def Let_def split: if_splits sum.splits)

lemma createQueryJob_Some:
  assumes "createQueryJob E k r body s = (s', resp, Some (k', qt, q))"
  shows "k' = k" "s' = job_insert k (new_job k (aq_TenantID q) qt q (ae_clock E 0)) s"
    "resp = JSON 202 (new_job k (aq_TenantID q) qt q (ae_clock E 0))"
  using assms asyncAnalyticsQuery_tenant
  by (auto simp: createQueryJob_def job_create_def Let_def split: sum.splits option.splits)

lemma createQueryJob_None: "createQueryJob E k r body s = (s', resp, None) \<Longrightarrow> s' = s"
  by (auto simp: createQueryJob_def job_create_def Let_def split: sum.splits option.splits)

lemma finishQueryJob_update:
  obtains e where "finishQueryJob E repo k qt q s = fst (update_job (Fails e (ae_clock E 4)) (aq_TenantID q) k s)"
  | m res v where "finishQueryJob E repo k qt q s = fst (update_job (Succeeds m res (ae_clock E 4)) (aq_TenantID q) k s)"
      "query_result_json res = Inr v" "qm_ByteSize m = int (length (Marshal v))" "qm_SHA256 m = hex_EncodeToString (sha256 (Marshal v))"
      "qm_ResultType m = qt"
proof (cases "executeQueryJob E repo qt q")
  case (Inl e)
  then show ?thesis using that(1) by (simp add: finishQueryJob_def)
next
  case (Inr x)
  obtain res n where x: "x = (res, n)" by fastforce
  show ?thesis
  proof (cases "query_result_json res")
    case (Inl e)
    then show ?thesis using that(1) Inr x by (simp add: finishQueryJob_def queryManifest_def)
  next
    case (Inr v)
    then show ?thesis using that(2) \<open>executeQueryJob E repo qt q = Inr x\<close> x by (simp add: finishQueryJob_def queryManifest_def Let_def)
  qed
qed

text \<open>A goroutine's change of its own job keeps the invariant when the changed job shows the goroutine's next stage.\<close>

lemma update_jobs_inv:
  assumes "jobs_inv x" "sy_go x k = Some (st, t, q)"
    "\<And>j. job_shows (Some (st, t, q)) j \<Longrightarrow> job_shows g' (change_job u j)"
  shows "jobs_inv (x\<lparr> sy_store := fst (update_job u (aq_TenantID q) k (sy_store x)), sy_go := (sy_go x)(k := g') \<rparr>)"
proof -
  let ?s = "sy_store x" and ?s' = "fst (update_job u (aq_TenantID q) k (sy_store x))"
  have inv: "qjobs.store_ok ?s" "set (js_order ?s) \<subseteq> sy_used x" "dom (sy_go x) \<subseteq> sy_used x"
    "\<And>k j. js_jobs ?s k = Some j \<Longrightarrow> qj_QueryID j = k \<and> job_shows (sy_go x k) j"
    using assms(1) by (simp_all add: jobs_inv_def)
  have ok: "qjobs.store_ok ?s'" by (rule qjobs.update_keeps [OF inv(1)])
  have id: "qj_QueryID (change_job u j) = qj_QueryID j" for j by (cases u) simp_all
  have "js_order ?s' = js_order ?s \<and> (\<forall>j'. js_jobs ?s' k = Some j' \<longrightarrow> qj_QueryID j' = k \<and> job_shows g' j')"
  proof (cases "js_jobs ?s k")
    case None
    then have "update_job u (aq_TenantID q) k ?s = (?s, False)" by (intro qjobs.update_none) (simp add: job_get_def)
    then show ?thesis using None by simp
  next
    case (Some j)
    then have j: "qj_QueryID j = k" "job_shows (Some (st, t, q)) j" using inv(4) [OF Some] assms(2) by simp_all
    then have "qj_TenantID j = aq_TenantID q" by (cases st) (simp_all add: job_shows_def)
    then have "job_get ?s (aq_TenantID q) k = Some j" using Some by (simp add: job_get_def)
    from qjobs.update_some [OF this, of u] show ?thesis using assms(3) [OF j(2)] j(1) id by auto
  qed
  note own = this
  have "qj_QueryID j = k' \<and> job_shows (((sy_go x)(k := g')) k') j" if j: "js_jobs ?s' k' = Some j" for k' j
  proof (cases "k' = k")
    case False
    then show ?thesis using j qjobs.update_others [OF False, of u "aq_TenantID q" ?s] inv(4) [of k' j] by simp
  qed (use own j in simp)
  moreover have "dom ((sy_go x)(k := g')) \<subseteq> sy_used x" using inv(3) assms(2) by (auto split: if_splits)
  ultimately show ?thesis using ok own inv(2) by (simp add: jobs_inv_def)
qed

lemma jobs_inv_init: "jobs_inv (job_init n)"
  by (simp add: jobs_inv_def job_init_def newQueryJobStore_def qjobs.store_ok_def)

lemma jobs_inv_create:
  assumes "jobs_inv x" "k \<notin> sy_used x"
  shows "jobs_inv (x\<lparr> sy_store := job_insert k (new_job k (aq_TenantID q) qt q now) (sy_store x),
    sy_go := (sy_go x)(k \<mapsto> (Spawned, qt, q)), sy_used := insert k (sy_used x) \<rparr>)"
proof -
  let ?s = "sy_store x" and ?j = "new_job k (aq_TenantID q) qt q now"
  have inv: "qjobs.store_ok ?s" "set (js_order ?s) \<subseteq> sy_used x" "dom (sy_go x) \<subseteq> sy_used x"
    "\<And>k j. js_jobs ?s k = Some j \<Longrightarrow> qj_QueryID j = k \<and> job_shows (sy_go x k) j"
    using assms(1) by (simp_all add: jobs_inv_def)
  have l: "0 < js_maxJobs ?s" and f: "k \<notin> set (js_order ?s)" using inv(1,2) assms(2) by (auto simp: qjobs.store_ok_def)
  have "set (js_order (job_insert k ?j ?s)) \<subseteq> set (js_order ?s @ [k])" unfolding qjobs.add_order [OF l] by (rule set_drop_subset)
  then have o: "set (js_order (job_insert k ?j ?s)) \<subseteq> insert k (sy_used x)" using inv(2) by (simp only: set_append list.set) blast
  have "job_shows (Some (Spawned, qt, q)) ?j" "qj_QueryID ?j = k" by (simp_all add: job_shows_def new_job_def pending_job_def)
  moreover have "qj_QueryID j = k' \<and> job_shows (((sy_go x)(k \<mapsto> (Spawned, qt, q))) k') j" if j: "js_jobs (job_insert k ?j ?s) k' = Some j" for k' j
  proof (cases "k' = k")
    case True
    then have "j = ?j" using j unfolding qjobs.add_jobs [OF l] by (simp split: if_splits)
    then show ?thesis using True calculation(1,2) by simp
  next
    case False
    then have "js_jobs ?s k' = Some j" using j unfolding qjobs.add_jobs [OF l] by (simp split: if_splits)
    then show ?thesis using False inv(4) by simp
  qed
  ultimately show ?thesis
    using qjobs.add_keeps(1) [OF inv(1) f, of ?j] inv(3) o by (simp add: jobs_inv_def subset_insertI2)
qed

lemma jstep_inv: "jstep repo x y \<Longrightarrow> jobs_inv x \<Longrightarrow> jobs_inv y"
proof (induction rule: jstep.induct)
  case (js_create k x E r body s' resp qt q)
  then show ?case using createQueryJob_Some [OF js_create(2)] jobs_inv_create by simp
next
  case (js_refuse E k r body x s' resp)
  then show ?case using createQueryJob_None [OF js_refuse(1)] by simp
next
  case (js_start x k qt q now)
  have "jobs_inv (x\<lparr> sy_store := fst (update_job (Starts now) (aq_TenantID q) k (sy_store x)), sy_go := (sy_go x)(k := Some (Started, qt, q)) \<rparr>)"
    by (rule update_jobs_inv [OF js_start(2,1)]) (simp_all add: job_shows_def pending_job_def)
  then show ?case by simp
next
  case (js_finish x k qt q E)
  show ?case
  proof (rule finishQueryJob_update [of E repo k qt q "sy_store x"])
    fix e assume e: "finishQueryJob E repo k qt q (sy_store x) = fst (update_job (Fails e (ae_clock E 4)) (aq_TenantID q) k (sy_store x))"
    show ?thesis unfolding e
      by (rule update_jobs_inv [OF js_finish(2,1)]) (simp_all add: job_shows_def pending_job_def finished_job_def)
  next
    fix m res v
    assume m: "finishQueryJob E repo k qt q (sy_store x) = fst (update_job (Succeeds m res (ae_clock E 4)) (aq_TenantID q) k (sy_store x))"
      "query_result_json res = Inr v" "qm_ByteSize m = int (length (Marshal v))" "qm_SHA256 m = hex_EncodeToString (sha256 (Marshal v))"
      "qm_ResultType m = qt"
    show ?thesis unfolding m(1)
      by (rule update_jobs_inv [OF js_finish(2,1)]) (use m(2-5) in \<open>auto simp: job_shows_def pending_job_def finished_job_def\<close>)
  qed
qed

lemma jreach_inv: "(jstep repo)\<^sup>*\<^sup>* (job_init n) x \<Longrightarrow> jobs_inv x"
  by (induction rule: rtranclp_induct) (auto intro: jobs_inv_init jstep_inv)

lemma jstep_max: "jstep repo x y \<Longrightarrow> js_maxJobs (sy_store y) = js_maxJobs (sy_store x)"
proof -
  have u: "js_maxJobs (fst (update_job u t k s)) = js_maxJobs s" for u t k s
    using qjobs.update_none [of s t k u] qjobs.update_some [of s t k _ u] by (cases "job_get s t k") auto
  have f: "js_maxJobs (finishQueryJob E repo k qt q s) = js_maxJobs s" for E k qt q s
    by (rule finishQueryJob_update [of E repo k qt q s]) (simp_all only: u)
  have s: "js_maxJobs (fst (job_start t k now s)) = js_maxJobs s" for t k now s using u [of "Starts now" t k s] by simp
  assume "jstep repo x y"
  then show ?thesis
  proof (cases rule: jstep.cases)
    case (js_create k E r body s' resp qt q)
    then show ?thesis using createQueryJob_Some(2) [OF js_create(3)] by (simp add: qjobs.add_limit)
  next
    case (js_refuse E k r body s' resp)
    then show ?thesis using createQueryJob_None [OF js_refuse(2)] by simp
  qed (simp_all add: f s)
qed

lemma jreach_max: "(jstep repo)\<^sup>*\<^sup>* (job_init n) x \<Longrightarrow> js_maxJobs (sy_store x) = (if n \<le> 0 then 1000 else n)"
  by (induction rule: rtranclp_induct) (auto simp: job_init_def newQueryJobStore_def dest: jstep_max)

text \<open>C34: What a client sees of a job is what its goroutine did.  However requests and goroutines interleave, the store never holds more jobs
  than its limit; a job is returned only to its tenant and under its own identifier; it is queued while its goroutine has not started,
  running while the goroutine works, and once the goroutine is done it has a start and an end time and either failed, or succeeded with a
  manifest whose size and SHA-256 are those of the encoded result.\<close>
theorem query_jobs_lifecycle:
  assumes "(jstep repo)\<^sup>*\<^sup>* (job_init n) x"
  shows "int (card (dom (js_jobs (sy_store x)))) \<le> (if n \<le> 0 then 1000 else n)
    \<and> (\<forall>t k j. job_get (sy_store x) t k = Some j \<longrightarrow> qj_TenantID j = t \<and> qj_QueryID j = k \<and> job_shows (sy_go x k) j)"
proof -
  have inv: "jobs_inv x" by (rule jreach_inv [OF assms])
  then have ok: "qjobs.store_ok (sy_store x)" by (simp add: jobs_inv_def)
  then have "card (dom (js_jobs (sy_store x))) = length (js_order (sy_store x))" by (simp add: qjobs.store_ok_def distinct_card)
  moreover have "qj_TenantID j = t \<and> qj_QueryID j = k \<and> job_shows (sy_go x k) j" if "job_get (sy_store x) t k = Some j" for t k j
    using inv that by (simp add: jobs_inv_def job_get_def split: option.splits if_splits)
  ultimately show ?thesis using ok jreach_max [OF assms] by (simp add: qjobs.store_ok_def)
qed

text \<open>A string without characters to escape is encoded as it is.\<close>

definition unescaped :: "char \<Rightarrow> bool" where
  "unescaped c = (0x20 \<le> (of_char c :: nat) \<and> (of_char c :: nat) < 0x80 \<and> c \<notin> set (quote # backslash # ''<>&''))"

lemma escape_char_unescaped:
  assumes "unescaped c" shows "escape_char c = [c]"
proof -
  have n: "0x20 \<le> (of_char c :: nat)" using assms by (simp add: unescaped_def)
  then have "c \<noteq> CHR 0x08" "c \<noteq> CHR 0x0C" "c \<noteq> CHR 0x0A" "c \<noteq> CHR 0x0D" "c \<noteq> CHR 0x09" by (intro notI, simp)+
  then show ?thesis using assms n by (simp add: unescaped_def escape_char_def)
qed

lemma escape_string_unescaped: "list_all unescaped s \<Longrightarrow> escape_string s = s"
proof (induction s)
  case (Cons c s)
  then have c: "unescaped c" and "escape_string s = s" by simp_all
  moreover have "(of_char c :: nat) < 0x80" using c by (simp add: unescaped_def)
  ultimately show ?case by (subst escape_string.simps) (simp add: escape_char_unescaped)
qed (subst escape_string.simps, simp)

definition sample_job_json :: json where
  "sample_job_json = JObj [(''query_type'', JStr ''usage''), (''start'', JStr ''1970-01-01T00:00:00Z''), (''end'', JStr ''1970-01-01T01:00:00Z'')]"

definition sample_job_query :: analytics_query where
  "sample_job_query = sample_page_query\<lparr> aq_Limit := 100 \<rparr>"

lemma sample_job_created:
  "createQueryJob sample_page_env ''query_1'' sample_page_request (Marshal sample_job_json) s
   = (job_insert ''query_1'' (new_job ''query_1'' ''acme'' ''usage'' sample_job_query 0) s, JSON 202 (new_job ''query_1'' ''acme'' ''usage'' sample_job_query 0),
      Some (''query_1'', ''usage'', sample_job_query))"
proof -
  note t = TrimSpace_printable printable_ascii
  obtain d where d: "maxNestingDepth = Suc d" by (cases maxNestingDepth) (simp_all add: maxNestingDepth_def)
  have "utf8_Valid ''query_type''" "utf8_Valid ''start''" "utf8_Valid ''end''" "utf8_Valid ''usage''" "utf8_Valid ''1970-01-01T00:00:00Z''"
    "utf8_Valid ''1970-01-01T01:00:00Z''" by (rule utf8_Valid_ASCII, simp)+
  then have ok: "json_ok maxNestingDepth sample_job_json" unfolding d sample_job_json_def by simp
  have "length (Marshal sample_job_json) \<le> 1048576"
    by (simp add: sample_job_json_def json_string_def escape_string_unescaped unescaped_def)
  then have "take 1048576 (Marshal sample_job_json) = Marshal sample_job_json" by simp
  then have b: "decodeQueryJobRequest (Marshal sample_job_json) = Some \<lparr> qr_QueryType = ''usage'', qr_ClusterID = [], qr_Start = ''1970-01-01T00:00:00Z'',
      qr_End = ''1970-01-01T01:00:00Z'', qr_GroupBy = [], qr_Limit = 0, qr_IncludeQuality = False \<rparr>"
    using parse_Marshal(2) [OF ok]
    by (simp add: decodeQueryJobRequest_def decode_body_def into_struct_def sample_job_json_def query_request_names_def query_request_put_def
        field_of_def into_string_def)
  have a: "(authenticatedTenant (ae_getenv sample_page_env) (ae_now sample_page_env) sample_page_request :: query_job_result response + string) = Inr ''acme''"
    by (simp add: authenticatedTenant_def trustedGateway_def VerifyRequest_def sample_page_env_def sample_page_request_def header_Get_def t)
  have c: "ae_clock sample_page_env 0 = 0" by (simp add: sample_page_env_def)
  show ?thesis
    by (simp add: createQueryJob_def a b c asyncAnalyticsQuery_def analyticsRange_def parseRequiredTime_def sample_times t time_Truncate_Hour_def
        validAnalyticsGroupBy_def sample_job_query_def sample_page_query_def defaultAnalyticsLimit_def job_create_def Let_def)
qed

theorem query_jobs_lifecycle_witness:
  "\<exists>x j. (jstep sample_repo)\<^sup>*\<^sup>* (job_init 10) x \<and> job_get (sy_store x) ''acme'' ''query_1'' = Some j \<and> finished_job j"
proof -
  let ?k = "''query_1''" and ?q = sample_job_query and ?j = "new_job ''query_1'' ''acme'' ''usage'' sample_job_query 0"
  define s0 where "s0 = newQueryJobStore 10"
  define s1 where "s1 = job_insert ?k ?j s0"
  define s2 where "s2 = fst (update_job (Starts 0) ''acme'' ?k s1)"
  define s3 where "s3 = finishQueryJob sample_page_env sample_repo ?k ''usage'' ?q s2"
  define x1 where "x1 = \<lparr> sy_store = s1, sy_go = [?k \<mapsto> (Spawned, ''usage'', ?q)], sy_used = {?k} \<rparr>"
  define x2 where "x2 = \<lparr> sy_store = s2, sy_go = [?k \<mapsto> (Started, ''usage'', ?q)], sy_used = {?k} \<rparr>"
  define x3 where "x3 = \<lparr> sy_store = s3, sy_go = Map.empty, sy_used = {?k} \<rparr>"
  have t: "aq_TenantID ?q = ''acme''" by (simp add: sample_job_query_def sample_page_query_def)
  have "jstep sample_repo (job_init 10) x1"
    using js_create [of ?k "job_init 10" sample_page_env sample_page_request "Marshal sample_job_json", OF _ sample_job_created]
    by (simp add: job_init_def x1_def s1_def s0_def)
  moreover have "jstep sample_repo x1 x2" using js_start [of x1 ?k "''usage''" ?q sample_repo 0] t by (simp add: x1_def x2_def s2_def)
  moreover have "jstep sample_repo x2 x3" using js_finish [of x2 ?k "''usage''" ?q sample_repo sample_page_env] by (simp add: x2_def x3_def s3_def)
  ultimately have r: "(jstep sample_repo)\<^sup>*\<^sup>* (job_init 10) x3" by (meson converse_rtranclp_into_rtranclp rtranclp.rtrancl_refl)
  have "qjobs.store_ok s0" "?k \<notin> set (js_order s0)" by (simp_all add: s0_def newQueryJobStore_def qjobs.store_ok_def)
  then have "job_get s1 ''acme'' ?k = Some ?j" using qjobs.add_keeps(2) [of s0 ?k ?j] by (simp add: s1_def new_job_def)
  from qjobs.update_own [OF this, of "Starts 0"] obtain j2 where "job_get s2 ''acme'' ?k = Some j2" by (simp add: s2_def)
  note own = qjobs.update_own [OF this]
  have "\<exists>j. job_get s3 ''acme'' ?k = Some j"
    unfolding s3_def by (rule finishQueryJob_update [of sample_page_env sample_repo ?k "''usage''" ?q s2]) (auto simp only: t own)
  then obtain j where j: "job_get (sy_store x3) ''acme'' ?k = Some j" by (auto simp: x3_def)
  then have "finished_job j" using query_jobs_lifecycle [OF r] by (auto simp: x3_def job_shows_def)
  then show ?thesis using r j by blast
qed

end
