(* ===== verification/Go_Sort.thy ===== *)
theory Go_Sort
  imports Prelude "HOL-Library.Multiset" "HOL-Library.List_Lexorder" "HOL-Library.Product_Lexorder"
begin

text \<open>
  What Go leaves open about order: \<^verbatim>\<open>sort.Slice\<close> is not stable and a map is iterated over in any order.  Both are functions given to the model as
  arguments, constrained by \<^verbatim>\<open>sorts\<close> and \<^verbatim>\<open>permutes\<close>.  Strings compare bytewise.  Keys built from several identifiers separate them by the
  byte zero.
\<close>

section \<open>Definitions\<close>

abbreviation nul :: char where "nul \<equiv> CHR 0x00"

fun string_less :: "string \<Rightarrow> string \<Rightarrow> bool" where
  "string_less a [] = False"
| "string_less [] (d # b) = True"
| "string_less (c # a) (d # b) = ((of_char c :: nat) < of_char d \<or> c = d \<and> string_less a b)"

definition permutes :: "('a list \<Rightarrow> 'a list) \<Rightarrow> bool" where
  "permutes f = (\<forall>xs. mset (f xs) = mset xs)"

definition sorts :: "('a \<Rightarrow> 'a \<Rightarrow> bool) \<Rightarrow> ('a list \<Rightarrow> 'a list) \<Rightarrow> bool" where
  "sorts lt f = (permutes f \<and> (\<forall>xs. sorted_wrt (\<lambda>a b. \<not> lt b a) (f xs)))"

section \<open>Lemmas\<close>

lemma permutes_set: "permutes f \<Longrightarrow> set (f xs) = set xs"
  unfolding permutes_def by (metis set_mset_mset)

lemma permutes_length: "permutes f \<Longrightarrow> length (f xs) = length xs"
  unfolding permutes_def by (metis size_mset)

lemma permutes_map: "permutes f \<Longrightarrow> mset (map g (f xs)) = mset (map g xs)"
  unfolding permutes_def by simp

lemma permutes_sum: "permutes f \<Longrightarrow> (\<Sum>x\<leftarrow>f xs. h x) = (\<Sum>x\<leftarrow>xs. h x :: 'b :: comm_monoid_add)"
  using permutes_map [of f h xs] by (metis sum_mset_sum_list)

abbreviation codes :: "string \<Rightarrow> nat list" where "codes \<equiv> map of_char"

lemma string_less_codes: "string_less a b = (codes a < codes b)"
  by (induction a b rule: string_less.induct) auto

lemma codes_eq: "codes a = codes b \<longleftrightarrow> a = b"
  by (rule inj_map_eq_map) (simp add: inj_def)

lemma sorts_sort_key: "(\<And>a b. lt a b = (k a < k b)) \<Longrightarrow> sorts lt (sort_key k)"
  by (simp add: sorts_def permutes_def not_less) (metis sorted_map sorted_sort_key)

text \<open>The separator makes keys of identifiers without it unambiguous.\<close>

lemma nul_split: "nul \<notin> set a \<Longrightarrow> nul \<notin> set b \<Longrightarrow> a @ nul # x = b @ nul # y \<longleftrightarrow> a = b \<and> x = y"
proof (induction a arbitrary: b)
  case Nil
  then show ?case by (cases b) auto
next
  case (Cons c a)
  then show ?case by (cases b) auto
qed

end
