(* ===== verification/Recommendations.thy ===== *)
theory Recommendations
  imports Go_Time Go_Sort Query_Sql
begin

text \<open>
  The recommendation engine (\<^verbatim>\<open>services/recommendations/engine.go\<close>), the facts it stores (\<^verbatim>\<open>facts.go\<close>) and the statement that reads its samples
  (\<^verbatim>\<open>repository.go\<close>).  Floats are the rationals of the float theory.  The order of a map and the sort are arguments.  \<^verbatim>\<open>uuid\<close> and \<^verbatim>\<open>decimal\<close> are arguments too.
\<close>

section \<open>Types and constants\<close>

definition defaultAnalysisWindow :: duration where "defaultAnalysisWindow = 30 * 24 * 3600 * Second"
definition defaultCPURequestHeadroom :: rat where "defaultCPURequestHeadroom = rnd (115 / 100)"
definition defaultMemoryRequestHeadroom :: rat where "defaultMemoryRequestHeadroom = rnd (120 / 100)"
definition defaultCPULimitMultiplier :: rat where "defaultCPULimitMultiplier = 2"
definition defaultMemoryLimitMultiplier :: rat where "defaultMemoryLimitMultiplier = rnd (15 / 10)"
definition defaultMinCPUMillicores :: u64 where "defaultMinCPUMillicores = 10"
definition defaultMinMemoryBytes :: u64 where "defaultMinMemoryBytes = 64 * 1024 * 1024"
definition defaultMonthlyHours :: rat where "defaultMonthlyHours = 730"
definition defaultCPUCoreHourUSD :: rat where "defaultCPUCoreHourUSD = rnd (3 / 100)"
definition defaultMemoryGiBHourUSD :: rat where "defaultMemoryGiBHourUSD = rnd (4 / 1000)"
definition optimization_version :: string where "optimization_version = ''optimization-v1-cpu-p95-memory-p99''"

record opt_query =
  oq_TenantID :: string
  oq_ClusterID :: string
  oq_End :: gotime

record sample =
  sm_TenantID :: string
  sm_ClusterID :: string
  sm_ScopeType :: string
  sm_ScopeID :: string
  sm_BucketStart :: gotime
  sm_BucketSeconds :: u64
  sm_CPUUsageCoreMS :: u64
  sm_CPURequestCoreMS :: u64
  sm_CPULimitCoreMS :: u64
  sm_MemoryWorkingSetBytes :: u64
  sm_MemoryRequestBytes :: u64
  sm_MemoryLimitBytes :: u64

record recommendation =
  re_TenantID :: string
  re_ClusterID :: string
  re_ScopeType :: string
  re_ScopeID :: string
  re_AnalysisWindowStart :: gotime
  re_AnalysisWindowEnd :: gotime
  re_CPUUsageP95Millicores :: u64
  re_MemoryWorkingSetP99Bytes :: u64
  re_CurrentCPURequestMillicores :: u64
  re_RecommendedCPURequestMillicores :: u64
  re_CurrentMemoryRequestBytes :: u64
  re_RecommendedMemoryRequestBytes :: u64
  re_CurrentCPULimitMillicores :: u64
  re_RecommendedCPULimitMillicores :: u64
  re_CurrentMemoryLimitBytes :: u64
  re_RecommendedMemoryLimitBytes :: u64
  re_EstimatedMonthlySavingsUSD :: rat
  re_SampleCount :: nat
  re_ComputationVersion :: string

record engine_config =
  ec_AnalysisWindow :: duration
  ec_CPURequestHeadroom :: rat
  ec_MemoryRequestHeadroom :: rat
  ec_CPULimitMultiplier :: rat
  ec_MemoryLimitMultiplier :: rat
  ec_MinCPUMillicores :: u64
  ec_MinMemoryBytes :: u64
  ec_CPUCoreHourUSD :: rat
  ec_MemoryGiBHourUSD :: rat
  ec_MinimumSampleCount :: int

section \<open>Arithmetic\<close>

definition ceilDiv :: "u64 \<Rightarrow> u64 \<Rightarrow> u64" where
  "ceilDiv value divisor = (if value = 0 then 0 else (value - 1) div divisor + 1)"

text \<open>The conversion of a float to \<^verbatim>\<open>uint64\<close> as amd64 does it: through \<^verbatim>\<open>CVTTSD2SQ\<close>, which answers \<^verbatim>\<open>-2^63\<close> out of its range.\<close>

definition cvttsd2sq :: "rat \<Rightarrow> i64" where
  "cvttsd2sq x = (if - (2 ^ 63) \<le> \<lfloor>x\<rfloor> \<and> \<lfloor>x\<rfloor> < 2 ^ 63 then of_int (int_of_float x) else of_int (- (2 ^ 63)))"

definition float_to_uint64 :: "rat \<Rightarrow> u64" where
  "float_to_uint64 x = (if x < 2 ^ 63 then cvttsd2sq x else Bit_Operations.xor (cvttsd2sq (rnd (x - 2 ^ 63))) (2 ^ 63))"

definition ceilUint64 :: "rat \<Rightarrow> u64" where
  "ceilUint64 value = (if value \<le> 0 then 0 else float_to_uint64 (of_int \<lceil>value\<rceil>))"

definition maxUint64 :: "u64 \<Rightarrow> u64 \<Rightarrow> u64" where
  "maxUint64 left right = (if left > right then left else right)"

definition positiveDelta :: "u64 \<Rightarrow> u64 \<Rightarrow> u64" where
  "positiveDelta current recommended = (if current \<le> recommended then 0 else current - recommended)"

text \<open>\<^verbatim>\<open>math.Round\<close>: half away from zero.\<close>

definition math_Round :: "rat \<Rightarrow> rat" where
  "math_Round x = (if x < 0 then - of_int \<lfloor>- x + 1 / 2\<rfloor> else of_int \<lfloor>x + 1 / 2\<rfloor>)"

definition roundMoney :: "rat \<Rightarrow> rat" where
  "roundMoney value = fdiv (math_Round (fmul value 1000000)) 1000000"

definition averageMillicores :: "u64 \<Rightarrow> u64 \<Rightarrow> u64" where
  "averageMillicores coreMilliseconds seconds = (if seconds = 0 then 0 else ceilDiv coreMilliseconds seconds)"

definition averageBytes :: "u64 \<Rightarrow> u64 \<Rightarrow> u64" where
  "averageBytes byteSeconds seconds = (if seconds = 0 then 0 else ceilDiv byteSeconds seconds)"

definition percentile :: "u64 list \<Rightarrow> rat \<Rightarrow> u64" where
  "percentile values quantile =
     (if values = [] then 0
      else let sorted = sort values;
               index = \<lceil>fmul quantile (rnd (of_nat (length sorted)))\<rceil> - 1;
               index = (if index < 0 then 0 else index);
               index = (if index \<ge> int (length sorted) then int (length sorted) - 1 else index)
           in sorted ! nat index)"

section \<open>The engine\<close>

definition normalizeConfig :: "engine_config \<Rightarrow> engine_config" where
  "normalizeConfig c =
     \<lparr> ec_AnalysisWindow = (if ec_AnalysisWindow c \<le> 0 then defaultAnalysisWindow else ec_AnalysisWindow c),
       ec_CPURequestHeadroom = (if ec_CPURequestHeadroom c \<le> 0 then defaultCPURequestHeadroom else ec_CPURequestHeadroom c),
       ec_MemoryRequestHeadroom = (if ec_MemoryRequestHeadroom c \<le> 0 then defaultMemoryRequestHeadroom else ec_MemoryRequestHeadroom c),
       ec_CPULimitMultiplier = (if ec_CPULimitMultiplier c \<le> 0 then defaultCPULimitMultiplier else ec_CPULimitMultiplier c),
       ec_MemoryLimitMultiplier = (if ec_MemoryLimitMultiplier c \<le> 0 then defaultMemoryLimitMultiplier else ec_MemoryLimitMultiplier c),
       ec_MinCPUMillicores = (if ec_MinCPUMillicores c = 0 then defaultMinCPUMillicores else ec_MinCPUMillicores c),
       ec_MinMemoryBytes = (if ec_MinMemoryBytes c = 0 then defaultMinMemoryBytes else ec_MinMemoryBytes c),
       ec_CPUCoreHourUSD = (if ec_CPUCoreHourUSD c \<le> 0 then defaultCPUCoreHourUSD else ec_CPUCoreHourUSD c),
       ec_MemoryGiBHourUSD = (if ec_MemoryGiBHourUSD c \<le> 0 then defaultMemoryGiBHourUSD else ec_MemoryGiBHourUSD c),
       ec_MinimumSampleCount = (if ec_MinimumSampleCount c \<le> 0 then 24 else ec_MinimumSampleCount c) \<rparr>"

text \<open>The zero time is \<^verbatim>\<open>0001-01-01\<close>.\<close>

definition zeroTime :: gotime where "zeroTime = - 62135596800 * Second"

definition opt_normalizeQuery :: "opt_query \<Rightarrow> gotime \<Rightarrow> duration \<Rightarrow> opt_query result" where
  "opt_normalizeQuery q now window =
     (let q' = q\<lparr> oq_TenantID := TrimSpace (oq_TenantID q), oq_ClusterID := TrimSpace (oq_ClusterID q) \<rparr> in
      if oq_TenantID q' = [] then Inl ''invalid optimization query: tenant_id is required''
      else let q'' = (if oq_End q' = zeroTime then q'\<lparr> oq_End := time_Truncate_Hour now \<rparr> else q') in
        if window \<le> 0 then Inl ''invalid optimization query: analysis window must be positive'' else Inr q'')"

text \<open>The loop from the last sample backwards: each setting is the latest that is not zero.\<close>

fun configuration_loop :: "sample list \<Rightarrow> u64 \<times> u64 \<times> u64 \<times> u64 \<Rightarrow> u64 \<times> u64 \<times> u64 \<times> u64" where
  "configuration_loop [] acc = acc"
| "configuration_loop (s # ss) (cr, mr, cl, ml) =
     (if sm_BucketSeconds s = 0 then configuration_loop ss (cr, mr, cl, ml)
      else let cr' = (if cr = 0 then averageMillicores (sm_CPURequestCoreMS s) (sm_BucketSeconds s) else cr);
               mr' = (if mr = 0 then averageBytes (sm_MemoryRequestBytes s) (sm_BucketSeconds s) else mr);
               cl' = (if cl = 0 then averageMillicores (sm_CPULimitCoreMS s) (sm_BucketSeconds s) else cl);
               ml' = (if ml = 0 then averageBytes (sm_MemoryLimitBytes s) (sm_BucketSeconds s) else ml)
           in if cr' > 0 \<and> mr' > 0 \<and> cl' > 0 \<and> ml' > 0 then (cr', mr', cl', ml') else configuration_loop ss (cr', mr', cl', ml'))"

definition currentConfiguration :: "sample list \<Rightarrow> u64 \<times> u64 \<times> u64 \<times> u64" where
  "currentConfiguration samples = configuration_loop (rev samples) (0, 0, 0, 0)"

definition estimatedMonthlySavings :: "engine_config \<Rightarrow> u64 \<Rightarrow> u64 \<Rightarrow> u64 \<Rightarrow> u64 \<Rightarrow> rat" where
  "estimatedMonthlySavings c currentCPU recommendedCPU currentMemory recommendedMemory =
     (let cpuSavings = fmul (fmul (fdiv (f64 (positiveDelta currentCPU recommendedCPU)) 1000) (ec_CPUCoreHourUSD c)) defaultMonthlyHours;
          memorySavings = fmul (fmul (fdiv (f64 (positiveDelta currentMemory recommendedMemory)) 1073741824) (ec_MemoryGiBHourUSD c)) defaultMonthlyHours
      in roundMoney (fadd cpuSavings memorySavings))"

definition recommend :: "engine_config \<Rightarrow> sample list \<Rightarrow> opt_query \<Rightarrow> recommendation option" where
  "recommend c samples q =
     (if int (length samples) < ec_MinimumSampleCount c then None
      else
        let cpuUsage = map (\<lambda>s. averageMillicores (sm_CPUUsageCoreMS s) (sm_BucketSeconds s)) samples;
            memoryUsage = map (\<lambda>s. averageBytes (sm_MemoryWorkingSetBytes s) (sm_BucketSeconds s)) samples;
            cpuP95 = percentile cpuUsage (rnd (95 / 100));
            memoryP99 = percentile memoryUsage (rnd (99 / 100));
            (currentCPURequest, currentMemoryRequest, currentCPULimit, currentMemoryLimit) = currentConfiguration samples
        in if currentCPURequest = 0 \<or> currentMemoryRequest = 0 \<or> (cpuP95 = 0 \<and> memoryP99 = 0) then None
           else
             let cpuRequest = maxUint64 (ec_MinCPUMillicores c) (ceilUint64 (fmul (f64 cpuP95) (ec_CPURequestHeadroom c)));
                 memoryRequest = maxUint64 (ec_MinMemoryBytes c) (ceilUint64 (fmul (f64 memoryP99) (ec_MemoryRequestHeadroom c)));
                 cpuLimit = maxUint64 cpuRequest (ceilUint64 (fmul (f64 cpuRequest) (ec_CPULimitMultiplier c)));
                 memoryLimit = maxUint64 memoryRequest (ceilUint64 (fmul (f64 memoryRequest) (ec_MemoryLimitMultiplier c)));
                 savings = estimatedMonthlySavings c currentCPURequest cpuRequest currentMemoryRequest memoryRequest;
                 first = hd samples
             in if savings \<le> 0 then None
                else Some \<lparr> re_TenantID = sm_TenantID first, re_ClusterID = sm_ClusterID first, re_ScopeType = sm_ScopeType first,
                  re_ScopeID = sm_ScopeID first, re_AnalysisWindowStart = oq_End q - ec_AnalysisWindow c, re_AnalysisWindowEnd = oq_End q,
                  re_CPUUsageP95Millicores = cpuP95, re_MemoryWorkingSetP99Bytes = memoryP99,
                  re_CurrentCPURequestMillicores = currentCPURequest, re_RecommendedCPURequestMillicores = cpuRequest,
                  re_CurrentMemoryRequestBytes = currentMemoryRequest, re_RecommendedMemoryRequestBytes = memoryRequest,
                  re_CurrentCPULimitMillicores = currentCPULimit, re_RecommendedCPULimitMillicores = cpuLimit,
                  re_CurrentMemoryLimitBytes = currentMemoryLimit, re_RecommendedMemoryLimitBytes = memoryLimit,
                  re_EstimatedMonthlySavingsUSD = savings, re_SampleCount = length samples, re_ComputationVersion = optimization_version \<rparr>)"

definition targetKey :: "sample \<Rightarrow> string" where
  "targetKey s = sm_TenantID s @ [nul] @ sm_ClusterID s @ [nul] @ sm_ScopeType s @ [nul] @ sm_ScopeID s"

fun add_target :: "string \<Rightarrow> sample \<Rightarrow> (string \<times> sample list) list \<Rightarrow> (string \<times> sample list) list" where
  "add_target k s [] = [(k, [s])]"
| "add_target k s ((k', ss) # ts) = (if k' = k then (k', ss @ [s]) # ts else (k', ss) # add_target k s ts)"

definition group_targets :: "sample list \<Rightarrow> (string \<times> sample list) list" where
  "group_targets samples = fold (\<lambda>s. if sm_BucketSeconds s = 0 \<or> sm_ScopeID s = [] then id else add_target (targetKey s) s) samples []"

definition bucket_less :: "sample \<Rightarrow> sample \<Rightarrow> bool" where
  "bucket_less a b = (sm_BucketStart a < sm_BucketStart b)"

definition recommendation_less :: "recommendation \<Rightarrow> recommendation \<Rightarrow> bool" where
  "recommendation_less a b =
     (if re_EstimatedMonthlySavingsUSD a \<noteq> re_EstimatedMonthlySavingsUSD b then re_EstimatedMonthlySavingsUSD a > re_EstimatedMonthlySavingsUSD b
      else if re_ClusterID a \<noteq> re_ClusterID b then string_less (re_ClusterID a) (re_ClusterID b)
      else string_less (re_ScopeID a) (re_ScopeID b))"

record go_order =
  go_samples :: "sample list \<Rightarrow> sample list"
  go_targets :: "(string \<times> sample list) list \<Rightarrow> (string \<times> sample list) list"
  go_recommendations :: "recommendation list \<Rightarrow> recommendation list"

definition go_order_ok :: "go_order \<Rightarrow> bool" where
  "go_order_ok g = (sorts bucket_less (go_samples g) \<and> permutes (go_targets g) \<and> sorts recommendation_less (go_recommendations g))"

definition Generate :: "go_order \<Rightarrow> engine_config \<Rightarrow> sample list \<Rightarrow> opt_query \<Rightarrow> recommendation list" where
  "Generate g c samples q =
     go_recommendations g (List.map_filter (\<lambda>(k, ss). recommend c (go_samples g ss) q) (go_targets g (group_targets samples)))"

definition engine_Recommendations ::
  "go_order \<Rightarrow> (opt_query \<Rightarrow> duration \<Rightarrow> sample list result) \<Rightarrow> gotime \<Rightarrow> engine_config \<Rightarrow> opt_query \<Rightarrow> recommendation list result" where
  "engine_Recommendations g repoSamples now config q =
     (let c = normalizeConfig config in
      case opt_normalizeQuery q now (ec_AnalysisWindow c) of
        Inl e \<Rightarrow> Inl e
      | Inr normalized \<Rightarrow> (case repoSamples normalized (ec_AnalysisWindow c) of
            Inl e \<Rightarrow> Inl e
          | Inr samples \<Rightarrow> Inr (Generate g c samples normalized)))"

section \<open>Samples from the database\<close>

definition sampleWhere :: "opt_query \<Rightarrow> duration \<Rightarrow> 'd statement" where
  "sampleWhere q window =
     (Join ([''tenant_id = ?'', ''scope_type = '' @ [sq] @ ''container'' @ [sq], ''bucket_start >= ?'', ''bucket_start < ?'', ''sample_count > 0'']
        @ (if oq_ClusterID q \<noteq> [] then [''cluster_id = ?''] else [])) '' AND '',
      [ArgString (oq_TenantID q), ArgTime (oq_End q - window), ArgTime (oq_End q)]
        @ (if oq_ClusterID q \<noteq> [] then [ArgString (oq_ClusterID q)] else []))"

definition samples_sql :: string where
  "samples_sql = ''
SELECT
    tenant_id,
    cluster_id,
    scope_type,
    scope_id,
    bucket_start,
    bucket_seconds,
    cpu_usage_core_milliseconds,
    cpu_request_core_milliseconds,
    cpu_limit_core_milliseconds,
    memory_working_set_byte_seconds,
    memory_request_byte_seconds,
    memory_limit_byte_seconds
FROM kube_cost.scope_metrics_1h
WHERE ''"

definition samplesSQL :: "opt_query \<Rightarrow> duration \<Rightarrow> 'd statement" where
  "samplesSQL q window = (case sampleWhere q window of (w, args) \<Rightarrow>
     (samples_sql @ w @ ''
ORDER BY tenant_id, cluster_id, scope_type, scope_id, bucket_start'', args))"

fun scan_samples :: "sample result list \<Rightarrow> sample list result" where
  "scan_samples [] = Inr []"
| "scan_samples (Inl e # rs) = Inl (''scan optimization sample: '' @ e)"
| "scan_samples (Inr c # rs) = (case scan_samples rs of Inl e \<Rightarrow> Inl e | Inr cs \<Rightarrow> Inr (c # cs))"

definition repository_Samples :: "('d, sample) connection \<Rightarrow> opt_query \<Rightarrow> duration \<Rightarrow> sample list result" where
  "repository_Samples conn q window = (case conn (fst (samplesSQL q window :: 'd statement)) (snd (samplesSQL q window)) of
       Inl e \<Rightarrow> Inl (''query optimization samples: '' @ e)
     | Inr (rows, err) \<Rightarrow> (case scan_samples rows of
           Inl e \<Rightarrow> Inl e
         | Inr cs \<Rightarrow> (case err of Some e \<Rightarrow> Inl (''read optimization samples: '' @ e) | None \<Rightarrow> Inr cs)))"

section \<open>Facts\<close>

definition recommendationColumns :: "string list" where
  "recommendationColumns = [''tenant_id'', ''recommendation_id'', ''cluster_id'', ''namespace_uid'', ''target_kind'', ''target_uid'', ''recommendation_type'',
     ''safety_class'', ''status'', ''analysis_window_start'', ''analysis_window_end'', ''generated_at'', ''expires_at'', ''current_configuration'',
     ''proposed_configuration'', ''evidence'', ''currency'', ''monthly_gross_savings'', ''monthly_net_savings'', ''confidence'', ''risk_score'',
     ''policy_version'', ''model_version'', ''computation_version'', ''version'']"

record 'd recommendation_fact =
  rf_TenantID :: string
  rf_RecommendationID :: string
  rf_ClusterID :: string
  rf_NamespaceUID :: string
  rf_TargetKind :: string
  rf_TargetUID :: string
  rf_RecommendationType :: string
  rf_SafetyClass :: string
  rf_Status :: string
  rf_AnalysisWindowStart :: gotime
  rf_AnalysisWindowEnd :: gotime
  rf_GeneratedAt :: gotime
  rf_ExpiresAt :: gotime
  rf_CurrentConfiguration :: string
  rf_ProposedConfig :: string
  rf_Evidence :: string
  rf_Currency :: string
  rf_MonthlyGrossSavings :: 'd
  rf_MonthlyNetSavings :: 'd
  rf_Confidence :: 'd
  rf_RiskScore :: 'd
  rf_PolicyVersion :: string
  rf_ModelVersion :: string
  rf_ComputationVersion :: string
  rf_Version :: u64

text \<open>\<^verbatim>\<open>Marshal\<close> writes the keys of a map in order.\<close>

definition u64_json :: "u64 \<Rightarrow> json" where
  "u64_json w = JNum (itoa_int (uint w))"

definition configuration_json :: "u64 \<Rightarrow> u64 \<Rightarrow> u64 \<Rightarrow> u64 \<Rightarrow> string" where
  "configuration_json cpuRequest cpuLimit memoryRequest memoryLimit = Marshal (JObj [(''cpu_limit_millicores'', u64_json cpuLimit),
     (''cpu_request_millicores'', u64_json cpuRequest), (''memory_limit_bytes'', u64_json memoryLimit), (''memory_request_bytes'', u64_json memoryRequest)])"

definition evidence_json :: "recommendation \<Rightarrow> string" where
  "evidence_json r = Marshal (JObj [(''cpu_usage_p95_millicores'', u64_json (re_CPUUsageP95Millicores r)),
     (''memory_working_set_p99_bytes'', u64_json (re_MemoryWorkingSetP99Bytes r)), (''sample_count'', JNum (itoa_int (int (re_SampleCount r))))])"

definition recommendationID :: "(string \<Rightarrow> string) \<Rightarrow> recommendation \<Rightarrow> string" where
  "recommendationID uuid5 r = uuid5 (Join [re_TenantID r, re_ClusterID r, re_ScopeType r, re_ScopeID r, format_RFC3339Nano (re_AnalysisWindowStart r),
     format_RFC3339Nano (re_AnalysisWindowEnd r), re_ComputationVersion r] [nul])"

definition recommendationFact :: "(string \<Rightarrow> string) \<Rightarrow> (rat \<Rightarrow> 'd) \<Rightarrow> gotime \<Rightarrow> recommendation \<Rightarrow> 'd recommendation_fact" where
  "recommendationFact uuid5 newFromFloat generatedAt r =
     \<lparr> rf_TenantID = re_TenantID r, rf_RecommendationID = recommendationID uuid5 r, rf_ClusterID = re_ClusterID r, rf_NamespaceUID = [],
       rf_TargetKind = re_ScopeType r, rf_TargetUID = re_ScopeID r, rf_RecommendationType = ''rightsizing'', rf_SafetyClass = ''review_required'',
       rf_Status = ''open'', rf_AnalysisWindowStart = re_AnalysisWindowStart r, rf_AnalysisWindowEnd = re_AnalysisWindowEnd r,
       rf_GeneratedAt = generatedAt, rf_ExpiresAt = generatedAt + 30 * 24 * 3600 * Second,
       rf_CurrentConfiguration = configuration_json (re_CurrentCPURequestMillicores r) (re_CurrentCPULimitMillicores r)
         (re_CurrentMemoryRequestBytes r) (re_CurrentMemoryLimitBytes r),
       rf_ProposedConfig = configuration_json (re_RecommendedCPURequestMillicores r) (re_RecommendedCPULimitMillicores r)
         (re_RecommendedMemoryRequestBytes r) (re_RecommendedMemoryLimitBytes r),
       rf_Evidence = evidence_json r, rf_Currency = ''USD'',
       rf_MonthlyGrossSavings = newFromFloat (re_EstimatedMonthlySavingsUSD r), rf_MonthlyNetSavings = newFromFloat (re_EstimatedMonthlySavingsUSD r),
       rf_Confidence = newFromFloat (rnd (7 / 10)), rf_RiskScore = newFromFloat (rnd (3 / 10)), rf_PolicyVersion = [],
       rf_ModelVersion = optimization_version, rf_ComputationVersion = re_ComputationVersion r, rf_Version = of_int generatedAt \<rparr>"

definition recommendationFacts :: "(string \<Rightarrow> string) \<Rightarrow> (rat \<Rightarrow> 'd) \<Rightarrow> recommendation list \<Rightarrow> gotime \<Rightarrow> 'd recommendation_fact list" where
  "recommendationFacts uuid5 newFromFloat recs generatedAt = map (recommendationFact uuid5 newFromFloat generatedAt) recs"

datatype 'd fact_cell = FString string | FTime gotime | FDecimal 'd | FUint u64

definition fact_row :: "'d recommendation_fact \<Rightarrow> 'd fact_cell list" where
  "fact_row f = [FString (rf_TenantID f), FString (rf_RecommendationID f), FString (rf_ClusterID f), FString (rf_NamespaceUID f),
     FString (rf_TargetKind f), FString (rf_TargetUID f), FString (rf_RecommendationType f), FString (rf_SafetyClass f), FString (rf_Status f),
     FTime (rf_AnalysisWindowStart f), FTime (rf_AnalysisWindowEnd f), FTime (rf_GeneratedAt f), FTime (rf_ExpiresAt f),
     FString (rf_CurrentConfiguration f), FString (rf_ProposedConfig f), FString (rf_Evidence f), FString (rf_Currency f),
     FDecimal (rf_MonthlyGrossSavings f), FDecimal (rf_MonthlyNetSavings f), FDecimal (rf_Confidence f), FDecimal (rf_RiskScore f),
     FString (rf_PolicyVersion f), FString (rf_ModelVersion f), FString (rf_ComputationVersion f), FUint (rf_Version f)]"

text \<open>The batch: preparing, appending a row and sending may fail; the result is what the database received.\<close>

record 'd batch_env =
  be_prepare :: "error option"
  be_append :: "'d fact_cell list \<Rightarrow> error option"
  be_send :: "error option"

fun append_facts :: "'d batch_env \<Rightarrow> 'd recommendation_fact list \<Rightarrow> 'd fact_cell list list result" where
  "append_facts env [] = Inr []"
| "append_facts env (f # fs) =
     (if length (fact_row f) \<noteq> length recommendationColumns
      then Inl (''recommendation row has '' @ itoa (length (fact_row f)) @ '' values for '' @ itoa (length recommendationColumns) @ '' columns'')
      else case be_append env (fact_row f) of
          Some e \<Rightarrow> Inl (''append recommendation row: '' @ e)
        | None \<Rightarrow> (case append_facts env fs of Inl e \<Rightarrow> Inl e | Inr rows \<Rightarrow> Inr (fact_row f # rows)))"

definition SaveRecommendations ::
  "(string \<Rightarrow> string) \<Rightarrow> (rat \<Rightarrow> 'd) \<Rightarrow> 'd batch_env \<Rightarrow> gotime \<Rightarrow> recommendation list \<Rightarrow> (string \<times> 'd fact_cell list list) option result" where
  "SaveRecommendations uuid5 newFromFloat env now recs =
     (if recs = [] then Inr None
      else case be_prepare env of
          Some e \<Rightarrow> Inl (''prepare recommendation batch: '' @ e)
        | None \<Rightarrow> (case append_facts env (recommendationFacts uuid5 newFromFloat recs now) of
              Inl e \<Rightarrow> Inl e
            | Inr rows \<Rightarrow> (case be_send env of
                  Some e \<Rightarrow> Inl (''send recommendation batch: '' @ e)
                | None \<Rightarrow> Inr (Some (''INSERT INTO kube_cost.recommendation ('' @ Join recommendationColumns '', '' @ '')'', rows)))))"

text \<open>The table the rows go to, from \<^verbatim>\<open>deploy/clickhouse/migrations/005_recommendation_facts.sql\<close>, and which cells a column takes.\<close>

datatype column_type = TString | TFixedString nat | TDateTime | TDateTime64 | TDecimal nat nat | TUInt64

definition recommendation_table :: "(string \<times> column_type) list" where
  "recommendation_table = [(''tenant_id'', TString), (''recommendation_id'', TString), (''cluster_id'', TString), (''namespace_uid'', TString),
     (''target_kind'', TString), (''target_uid'', TString), (''recommendation_type'', TString), (''safety_class'', TString), (''status'', TString),
     (''analysis_window_start'', TDateTime), (''analysis_window_end'', TDateTime), (''generated_at'', TDateTime64), (''expires_at'', TDateTime64),
     (''current_configuration'', TString), (''proposed_configuration'', TString), (''evidence'', TString), (''currency'', TFixedString 3),
     (''monthly_gross_savings'', TDecimal 38 9), (''monthly_net_savings'', TDecimal 38 9), (''confidence'', TDecimal 6 5), (''risk_score'', TDecimal 6 5),
     (''policy_version'', TString), (''model_version'', TString), (''computation_version'', TString), (''version'', TUInt64)]"

fun cell_fits :: "column_type \<Rightarrow> 'd fact_cell \<Rightarrow> bool" where
  "cell_fits TString (FString s) = True"
| "cell_fits (TFixedString n) (FString s) = (length s \<le> n)"
| "cell_fits TDateTime (FTime t) = True"
| "cell_fits TDateTime64 (FTime t) = True"
| "cell_fits (TDecimal m n) (FDecimal d) = True"
| "cell_fits TUInt64 (FUint w) = True"
| "cell_fits _ _ = False"

definition fits_column :: "string \<Rightarrow> 'd fact_cell \<Rightarrow> bool" where
  "fits_column column cell = (case map_of recommendation_table column of None \<Rightarrow> False | Some t \<Rightarrow> cell_fits t cell)"

section \<open>Percentiles\<close>

text \<open>The nearest-rank quantile \<^verbatim>\<open>p/q\<close>: the least value with at least that share of the values at or below it.\<close>

definition rank :: "nat \<Rightarrow> nat \<Rightarrow> nat \<Rightarrow> nat" where
  "rank p q n = (p * n + q - 1) div q"

definition at_most :: "u64 list \<Rightarrow> u64 \<Rightarrow> nat" where
  "at_most xs v = length (filter (\<lambda>x. x \<le> v) xs)"

lemma rank_bounds:
  assumes "0 < n" "0 < p" "p \<le> q" shows "1 \<le> rank p q n" "rank p q n \<le> n" "p * n \<le> q * rank p q n" "q * (rank p q n - 1) < p * n"
proof -
  have pn: "0 < p * n" "p * n \<le> q * n" and q: "0 < q" using assms by simp_all
  let ?m = "p * n + q - 1"
  have d: "q * rank p q n \<le> ?m" "?m < q * rank p q n + q"
  proof -
    have "q * (?m div q) + ?m mod q = ?m" "?m mod q < q" using q by simp_all
    then show "q * rank p q n \<le> ?m" "?m < q * rank p q n + q" unfolding rank_def by linarith+
  qed
  have "q * 0 < q * rank p q n" using d(2) pn(1) by linarith
  then show r1: "1 \<le> rank p q n" by simp
  have "?m < q * n + q" using pn q by linarith
  then have "q * rank p q n < q * (n + 1)" using d(1) by simp
  then have "rank p q n < n + 1" by (simp only: mult_less_cancel1)
  then show "rank p q n \<le> n" by simp
  show "p * n \<le> q * rank p q n" using d(2) q by linarith
  have "q * (rank p q n - 1) = q * rank p q n - q" by (simp add: diff_mult_distrib2)
  then show "q * (rank p q n - 1) < p * n" using d(1) pn(1) q by linarith
qed

text \<open>With a quantile rounded downwards the floating-point index is the exact one.\<close>

lemma ceiling_quantile:
  fixes p q n :: nat
  assumes "0 < n" "n \<le> 2 ^ 40" "0 < p" "p \<le> q" "q \<le> 1000" "rnd (of_nat p / of_nat q) \<le> of_nat p / of_nat q"
  shows "\<lceil>fmul (rnd (of_nat p / of_nat q)) (rnd (of_nat n))\<rceil> = int (rank p q n)"
proof -
  let ?r = "rnd (of_nat p / of_nat q :: rat)" and ?x = "of_nat p * of_nat n / of_nat q :: rat" and ?k = "rank p q n"
  note b = rank_bounds [OF assms(1,3,4)]
  have q: "(0 :: rat) < of_nat q" using assms by simp
  have n: "rnd (of_nat n) = (of_nat n :: rat)" using assms(2) by (intro rnd_nat) simp
  have e1: "of_nat p / of_nat q * (1 - 1 / 2 ^ 53) \<le> ?r" by (rule rnd_lower) simp
  have r0: "0 \<le> ?r" by simp
  have up: "?r * of_nat n \<le> ?x" using mult_right_mono [OF assms(6), of "of_nat n"] by simp
  have "?x \<le> of_nat ?k" using b(3) q by (simp add: field_simps flip: of_nat_mult)
  then have "fmul ?r (of_nat n) \<le> rnd (of_nat ?k)" unfolding fmul_def using up r0 by (intro rnd_mono) simp_all
  also have "rnd (of_nat ?k) = (of_nat ?k :: rat)" using b(2) assms(2) by (intro rnd_nat) simp
  finally have hi: "fmul ?r (of_nat n) \<le> of_nat ?k" .
  have "?x * (1 - 1 / 2 ^ 53) \<le> ?r * of_nat n" using mult_right_mono [OF e1, of "of_nat n"] by (simp add: mult.commute mult.left_commute)
  moreover have "?r * of_nat n * (1 - 1 / 2 ^ 53) \<le> fmul ?r (of_nat n)"
    unfolding fmul_def using r0 by (intro rnd_lower) simp
  ultimately have "?x * (1 - 1 / 2 ^ 53) * (1 - 1 / 2 ^ 53) \<le> fmul ?r (of_nat n)"
    using mult_right_mono [of "?x * (1 - 1 / 2 ^ 53)" "?r * of_nat n" "1 - 1 / 2 ^ 53"] by simp
  moreover have "?x - ?x / 2 ^ 52 \<le> ?x * (1 - 1 / 2 ^ 53) * (1 - 1 / 2 ^ 53)"
  proof -
    have "y - y * (2 * u) \<le> y * (1 - u) * (1 - u)" if "0 \<le> y" for y u :: rat
      using that mult_nonneg_nonneg [OF that, of "u * u"] by (simp add: algebra_simps)
    from this [of ?x "1 / 2 ^ 53"] show ?thesis by simp
  qed
  moreover have "?x / 2 ^ 52 < 1 / of_nat q"
  proof -
    have "p * n < 2 ^ 52"
    proof -
      have "p * n \<le> 1000 * 2 ^ 40" using assms by (intro mult_le_mono) simp_all
      then show ?thesis by simp
    qed
    then have "(of_nat (p * n) :: rat) < of_nat (2 ^ 52)" by (simp only: of_nat_less_iff)
    then show ?thesis using q by (simp add: field_simps)
  qed
  moreover have "?x \<ge> of_nat (?k - 1) + 1 / of_nat q"
  proof -
    have "q * (?k - 1) + 1 \<le> p * n" using b(4) by simp
    then have "(of_nat (q * (?k - 1) + 1) :: rat) \<le> of_nat (p * n)" by (simp only: of_nat_le_iff)
    then have "of_nat (q * (?k - 1) + 1) / of_nat q \<le> (of_nat (p * n) / of_nat q :: rat)" using q by (intro divide_right_mono) simp_all
    then show ?thesis using q by (simp add: add_divide_distrib)
  qed
  ultimately have "of_nat (?k - 1) < fmul ?r (of_nat n)" by linarith
  then have "of_int (int ?k) - 1 < fmul ?r (of_nat n)" using b(1) by (simp add: of_nat_diff)
  then show ?thesis using hi unfolding n by (intro ceiling_unique) simp_all
qed

lemma at_most_nth_sort:
  assumes "i < length xs" shows "Suc i \<le> at_most xs (sort xs ! i)"
proof -
  have "length (filter (\<lambda>x. x \<le> sort xs ! i) (take (Suc i) (sort xs))) \<le> at_most (sort xs) (sort xs ! i)"
    unfolding at_most_def by (metis append_take_drop_id filter_append length_append le_add1)
  moreover have "filter (\<lambda>x. x \<le> sort xs ! i) (take (Suc i) (sort xs)) = take (Suc i) (sort xs)"
    using assms by (auto simp: filter_id_conv in_set_conv_nth intro!: sorted_nth_mono [OF sorted_sort])
  moreover have "at_most (sort xs) v = at_most xs v" for v
    unfolding at_most_def by (metis mset_filter mset_sort size_mset)
  ultimately show ?thesis using assms by simp
qed

lemma at_most_below:
  assumes "i < length xs" "v < sort xs ! i" shows "at_most xs v \<le> i"
proof -
  have "at_most xs v = at_most (sort xs) v" unfolding at_most_def by (metis mset_filter mset_sort size_mset)
  also have "\<dots> = length (filter (\<lambda>x. x \<le> v) (take i (sort xs))) + length (filter (\<lambda>x. x \<le> v) (drop i (sort xs)))"
    unfolding at_most_def by (metis append_take_drop_id filter_append length_append)
  also have "filter (\<lambda>x. x \<le> v) (drop i (sort xs)) = []"
  proof -
    have "\<not> x \<le> v" if "x \<in> set (drop i (sort xs))" for x
    proof -
      obtain j where j: "j < length xs - i" "x = sort xs ! (i + j)" using \<open>x \<in> _\<close> assms(1) by (auto simp: in_set_conv_nth)
      then have "sort xs ! i \<le> x" using assms(1) by (auto intro!: sorted_nth_mono [OF sorted_sort])
      then show ?thesis using assms(2) by simp
    qed
    then show ?thesis by (auto simp: filter_empty_conv)
  qed
  also have "length (filter (\<lambda>x. x \<le> v) (take i (sort xs))) + length ([] :: u64 list) \<le> i"
    using length_filter_le [of "\<lambda>x. x \<le> v" "take i (sort xs)"] by simp
  finally show ?thesis by simp
qed

lemma percentile_rank:
  assumes "xs \<noteq> []" "length xs \<le> 2 ^ 40" "0 < p" "p \<le> q" "q \<le> 1000" "rnd (of_nat p / of_nat q) \<le> of_nat p / of_nat q"
  shows "percentile xs (rnd (of_nat p / of_nat q)) = sort xs ! (rank p q (length xs) - 1)"
proof -
  let ?n = "length xs"
  have n: "0 < ?n" using assms(1) by simp
  note c = ceiling_quantile [OF n assms(2-6)] and b = rank_bounds [OF n assms(3,4)]
  have "nat (int (rank p q ?n) - 1) = rank p q ?n - 1" using b(1) by linarith
  then show ?thesis using assms(1) c b(1,2) unfolding percentile_def Let_def by simp
qed

lemma rnd_downwards:
  fixes x u :: rat
  assumes "ilog x = -1" "of_int a \<le> x * u" "x * u < of_int a + 1 / 2" "0 < x" "2 powi (- 53) = 1 / u" "0 < u"
  shows "rnd x \<le> x"
proof -
  have f: "\<lfloor>x * u\<rfloor> = a" using assms by (intro floor_unique) linarith+
  have "rnd x = of_int (rne (x / (1 / u))) * (1 / u)" using assms(1,4,5) by (simp add: rnd_def Let_def)
  also have "x / (1 / u) = x * u" using assms by simp
  also have "rne (x * u) = a" using assms f by (simp add: rne_def Let_def)
  also have "of_int a * (1 / u) \<le> (x * u) * (1 / u)" using assms by (intro mult_right_mono) simp_all
  finally show ?thesis using assms by simp
qed

lemma rnd_quantiles: "rnd (95 / 100) \<le> 95 / 100" "rnd (99 / 100) \<le> 99 / 100"
proof -
  have e: "ilog (95 / 100) = -1" "ilog (99 / 100) = -1" by (rule ilog_unique; simp add: power_int_def)+
  have u: "2 powi (- 53) = 1 / (9007199254740992 :: rat)" by (simp add: power_int_minus)
  show "rnd (95 / 100) \<le> 95 / 100" by (rule rnd_downwards [of _ 8556839292003942, OF e(1) _ _ _ u]) simp_all
  show "rnd (99 / 100) \<le> 99 / 100" by (rule rnd_downwards [of _ 8917127262193582, OF e(2) _ _ _ u]) simp_all
qed

text \<open>The nearest-rank definition of a quantile, as statisticians write it.\<close>

definition nearest_rank :: "nat \<Rightarrow> nat \<Rightarrow> u64 list \<Rightarrow> u64" where
  "nearest_rank p q xs = hd (filter (\<lambda>v. p * length xs \<le> q * at_most xs v) (sort xs))"

lemma hd_filter_nth: "i < length ys \<Longrightarrow> P (ys ! i) \<Longrightarrow> \<forall>u \<in> set (take i ys). P u \<longrightarrow> u = ys ! i \<Longrightarrow> hd (filter P ys) = ys ! i"
proof (induction ys arbitrary: i)
  case (Cons y ys)
  then show ?case by (cases i) auto
qed simp

lemma percentile_nearest_rank:
  assumes "xs \<noteq> []" "length xs \<le> 2 ^ 40" "0 < p" "p \<le> q" "q \<le> 1000" "rnd (of_nat p / of_nat q) \<le> of_nat p / of_nat q"
  shows "percentile xs (rnd (of_nat p / of_nat q)) = nearest_rank p q xs"
    and "p * length xs \<le> q * at_most xs (percentile xs (rnd (of_nat p / of_nat q)))"
proof -
  let ?n = "length xs" let ?i = "rank p q ?n - 1" let ?P = "\<lambda>v. p * ?n \<le> q * at_most xs v"
  have n: "0 < ?n" using assms(1) by simp
  note b = rank_bounds [OF n assms(3,4)]
  have i: "?i < ?n" using b(1,2) by linarith
  note v = percentile_rank [OF assms]
  have "rank p q ?n \<le> at_most xs (sort xs ! ?i)" using at_most_nth_sort [OF i] b(1) by linarith
  then have "q * rank p q ?n \<le> q * at_most xs (sort xs ! ?i)" by (rule mult_le_mono2)
  then have P: "?P (sort xs ! ?i)" using b(3) by linarith
  then show "p * length xs \<le> q * at_most xs (percentile xs (rnd (of_nat p / of_nat q)))" by (simp only: v)
  have N: "u = sort xs ! ?i" if u: "u \<in> set (take ?i (sort xs))" "?P u" for u
  proof (rule ccontr)
    assume "u \<noteq> sort xs ! ?i"
    moreover have "u \<le> sort xs ! ?i"
    proof -
      obtain j where "j < ?i" "u = sort xs ! j" using u(1) i by (auto simp: in_set_conv_nth)
      then show ?thesis using i by (auto intro!: sorted_nth_mono [OF sorted_sort])
    qed
    ultimately have "u < sort xs ! ?i" by simp
    then have "at_most xs u \<le> ?i" by (rule at_most_below [OF i])
    then have "q * at_most xs u \<le> q * ?i" by (rule mult_le_mono2)
    then show False using b(4) u(2) by linarith
  qed
  have "hd (filter ?P (sort xs)) = sort xs ! ?i" using i P N by (intro hd_filter_nth) simp_all
  then show "percentile xs (rnd (of_nat p / of_nat q)) = nearest_rank p q xs" unfolding v nearest_rank_def ..
qed

section \<open>Requests cover the usage\<close>

lemma ceilUint64_ge:
  assumes "0 \<le> x" "x \<le> 2 ^ 62" shows "x \<le> of_nat (unat (ceilUint64 x))"
proof (cases "x = 0")
  case False
  have c: "0 \<le> \<lceil>x\<rceil>" "\<lceil>x\<rceil> \<le> 2 ^ 62" using assms by (simp_all add: ceiling_le_iff)
  then have "(of_int \<lceil>x\<rceil> :: rat) \<le> of_int (2 ^ 62)" by (simp only: of_int_le_iff)
  then have l: "(of_int \<lceil>x\<rceil> :: rat) < 2 ^ 63" by simp
  have "ceilUint64 x = of_int \<lceil>x\<rceil>" using False assms c l by (simp add: ceilUint64_def float_to_uint64_def cvttsd2sq_def int_of_float_def)
  then have "uint (ceilUint64 x) = \<lceil>x\<rceil> mod 2 ^ 64" by (simp add: uint_word_of_int)
  moreover have "\<lceil>x\<rceil> mod 2 ^ 64 = \<lceil>x\<rceil>" by (intro mod_pos_pos_trivial c(1) le_less_trans [OF c(2)]) simp
  ultimately have "uint (ceilUint64 x) = \<lceil>x\<rceil>" by (rule trans)
  then have "(of_int (uint (ceilUint64 x)) :: rat) = of_int \<lceil>x\<rceil>" by simp
  then have "(of_nat (unat (ceilUint64 x)) :: rat) = of_int \<lceil>x\<rceil>" by simp
  then show ?thesis by (simp add: le_of_int_ceiling)
qed (simp del: unsigned_0 of_nat_unat)

lemma request_covers:
  assumes "unat v \<le> 2 ^ 50" "1 \<le> h" "h \<le> 1024" shows "v \<le> maxUint64 m (ceilUint64 (fmul (f64 v) h))"
proof -
  let ?x = "of_nat (unat v) :: rat"
  have v: "f64 v = ?x" using assms(1) by (intro f64_exact) simp
  have x: "0 \<le> ?x" "?x \<le> 2 ^ 50" using assms(1) by (simp_all only: of_nat_0_le_iff) (metis of_nat_le_iff of_nat_numeral of_nat_power)
  have "?x * 1 \<le> ?x * h" using assms(2) x(1) by (rule mult_left_mono)
  then have "rnd ?x \<le> fmul ?x h" unfolding fmul_def using x(1) by (intro rnd_mono) simp_all
  moreover have "rnd ?x = ?x" using v unfolding f64_def .
  ultimately have lo: "?x \<le> fmul ?x h" by simp
  have xh: "0 \<le> ?x * h" "?x * h \<le> 2 ^ 50 * 1024"
    using x assms(2,3) by (intro mult_nonneg_nonneg mult_mono; linarith)+
  have "fmul ?x h \<le> ?x * h * (1 + 1 / 2 ^ 53)" unfolding fmul_def by (rule rnd_upper [OF xh(1)])
  also have "\<dots> \<le> 2 ^ 50 * 1024 * 2" by (rule mult_mono [OF xh(2)]) simp_all
  finally have hi: "fmul ?x h \<le> 2 ^ 62" by simp
  have "?x \<le> of_nat (unat (ceilUint64 (fmul ?x h)))" using ceilUint64_ge [OF _ hi] lo x(1) by linarith
  then have "v \<le> ceilUint64 (fmul (f64 v) h)" unfolding v word_le_nat_alt of_nat_le_iff .
  then show ?thesis unfolding maxUint64_def by auto
qed

lemma at_most_mono: "v \<le> w \<Longrightarrow> at_most xs v \<le> at_most xs w"
  unfolding at_most_def by (induction xs) auto

lemma floor_half: "\<lfloor>1 / 2 :: rat\<rfloor> = 0"
  by (rule floor_unique) simp_all

lemma no_savings: "c' \<ge> c \<Longrightarrow> m' \<ge> m \<Longrightarrow> estimatedMonthlySavings cfg c c' m m' = 0"
  by (simp add: estimatedMonthlySavings_def positiveDelta_def f64_def fdiv_def fmul_def fadd_def roundMoney_def math_Round_def Let_def floor_half)

abbreviation cpu_usage :: "sample list \<Rightarrow> u64 list" where
  "cpu_usage ts \<equiv> map (\<lambda>s. averageMillicores (sm_CPUUsageCoreMS s) (sm_BucketSeconds s)) ts"
abbreviation memory_usage :: "sample list \<Rightarrow> u64 list" where
  "memory_usage ts \<equiv> map (\<lambda>s. averageBytes (sm_MemoryWorkingSetBytes s) (sm_BucketSeconds s)) ts"

lemma recommend_SomeD:
  assumes "recommend c ts q = Some r"
  shows "ec_MinimumSampleCount c \<le> int (length ts)"
    and "re_TenantID r = sm_TenantID (hd ts) \<and> re_ClusterID r = sm_ClusterID (hd ts) \<and> re_ScopeType r = sm_ScopeType (hd ts)
      \<and> re_ScopeID r = sm_ScopeID (hd ts) \<and> re_SampleCount r = length ts"
    and "re_CPUUsageP95Millicores r = percentile (cpu_usage ts) (rnd (95 / 100))"
    and "re_MemoryWorkingSetP99Bytes r = percentile (memory_usage ts) (rnd (99 / 100))"
    and "re_RecommendedCPURequestMillicores r = maxUint64 (ec_MinCPUMillicores c) (ceilUint64 (fmul (f64 (re_CPUUsageP95Millicores r)) (ec_CPURequestHeadroom c)))"
    and "re_RecommendedMemoryRequestBytes r = maxUint64 (ec_MinMemoryBytes c) (ceilUint64 (fmul (f64 (re_MemoryWorkingSetP99Bytes r)) (ec_MemoryRequestHeadroom c)))"
    and "re_RecommendedCPURequestMillicores r \<le> re_RecommendedCPULimitMillicores r \<and> re_RecommendedMemoryRequestBytes r \<le> re_RecommendedMemoryLimitBytes r"
    and "0 < estimatedMonthlySavings c (re_CurrentCPURequestMillicores r) (re_RecommendedCPURequestMillicores r)
      (re_CurrentMemoryRequestBytes r) (re_RecommendedMemoryRequestBytes r)"
    and "re_EstimatedMonthlySavingsUSD r = estimatedMonthlySavings c (re_CurrentCPURequestMillicores r) (re_RecommendedCPURequestMillicores r)
      (re_CurrentMemoryRequestBytes r) (re_RecommendedMemoryRequestBytes r)"
proof -
  obtain a b e f where cc: "currentConfiguration ts = (a, b, e, f)" by (cases "currentConfiguration ts")
  have m: "x \<le> maxUint64 x y" for x y unfolding maxUint64_def by auto
  note d = assms [unfolded recommend_def cc Let_def split_conv]
  show "ec_MinimumSampleCount c \<le> int (length ts)" using d by (simp split: if_splits)
  show "re_TenantID r = sm_TenantID (hd ts) \<and> re_ClusterID r = sm_ClusterID (hd ts) \<and> re_ScopeType r = sm_ScopeType (hd ts)
      \<and> re_ScopeID r = sm_ScopeID (hd ts) \<and> re_SampleCount r = length ts" using d by (auto split: if_splits)
  show "re_CPUUsageP95Millicores r = percentile (cpu_usage ts) (rnd (95 / 100))"
    "re_MemoryWorkingSetP99Bytes r = percentile (memory_usage ts) (rnd (99 / 100))"
    "re_RecommendedCPURequestMillicores r = maxUint64 (ec_MinCPUMillicores c) (ceilUint64 (fmul (f64 (re_CPUUsageP95Millicores r)) (ec_CPURequestHeadroom c)))"
    "re_RecommendedMemoryRequestBytes r = maxUint64 (ec_MinMemoryBytes c) (ceilUint64 (fmul (f64 (re_MemoryWorkingSetP99Bytes r)) (ec_MemoryRequestHeadroom c)))"
    using d by (auto split: if_splits)
  show "re_RecommendedCPURequestMillicores r \<le> re_RecommendedCPULimitMillicores r \<and> re_RecommendedMemoryRequestBytes r \<le> re_RecommendedMemoryLimitBytes r"
    using d m by (auto split: if_splits)
  show "0 < estimatedMonthlySavings c (re_CurrentCPURequestMillicores r) (re_RecommendedCPURequestMillicores r)
      (re_CurrentMemoryRequestBytes r) (re_RecommendedMemoryRequestBytes r)"
    "re_EstimatedMonthlySavingsUSD r = estimatedMonthlySavings c (re_CurrentCPURequestMillicores r) (re_RecommendedCPURequestMillicores r)
      (re_CurrentMemoryRequestBytes r) (re_RecommendedMemoryRequestBytes r)"
    using d by (auto split: if_splits)
qed

lemma recommend_safe:
  assumes r: "recommend c ts q = Some r" "0 < ec_MinimumSampleCount c" "length ts \<le> 2 ^ 40"
    and h: "1 \<le> ec_CPURequestHeadroom c" "ec_CPURequestHeadroom c \<le> 1024" "1 \<le> ec_MemoryRequestHeadroom c" "ec_MemoryRequestHeadroom c \<le> 1024"
    and p: "unat (re_CPUUsageP95Millicores r) \<le> 2 ^ 50" "unat (re_MemoryWorkingSetP99Bytes r) \<le> 2 ^ 50"
  shows "95 * length ts \<le> 100 * at_most (cpu_usage ts) (re_RecommendedCPURequestMillicores r)"
    and "99 * length ts \<le> 100 * at_most (memory_usage ts) (re_RecommendedMemoryRequestBytes r)"
    and "re_RecommendedCPURequestMillicores r < re_CurrentCPURequestMillicores r \<or> re_RecommendedMemoryRequestBytes r < re_CurrentMemoryRequestBytes r"
proof -
  note d = recommend_SomeD [OF r(1)]
  have ts: "ts \<noteq> []" using d(1) r(2) by auto
  have "95 * length (cpu_usage ts) \<le> 100 * at_most (cpu_usage ts) (re_CPUUsageP95Millicores r)"
    unfolding d(3) using percentile_nearest_rank(2) [of "cpu_usage ts" 95 100] ts r(3) rnd_quantiles(1) by simp
  moreover have "re_CPUUsageP95Millicores r \<le> re_RecommendedCPURequestMillicores r" unfolding d(5) by (rule request_covers [OF p(1) h(1,2)])
  ultimately show "95 * length ts \<le> 100 * at_most (cpu_usage ts) (re_RecommendedCPURequestMillicores r)"
    using at_most_mono [of "re_CPUUsageP95Millicores r" "re_RecommendedCPURequestMillicores r" "cpu_usage ts"] by simp
  have "99 * length (memory_usage ts) \<le> 100 * at_most (memory_usage ts) (re_MemoryWorkingSetP99Bytes r)"
    unfolding d(4) using percentile_nearest_rank(2) [of "memory_usage ts" 99 100] ts r(3) rnd_quantiles(2) by simp
  moreover have "re_MemoryWorkingSetP99Bytes r \<le> re_RecommendedMemoryRequestBytes r" unfolding d(6) by (rule request_covers [OF p(2) h(3,4)])
  ultimately show "99 * length ts \<le> 100 * at_most (memory_usage ts) (re_RecommendedMemoryRequestBytes r)"
    using at_most_mono [of "re_MemoryWorkingSetP99Bytes r" "re_RecommendedMemoryRequestBytes r" "memory_usage ts"] by simp
  show "re_RecommendedCPURequestMillicores r < re_CurrentCPURequestMillicores r \<or> re_RecommendedMemoryRequestBytes r < re_CurrentMemoryRequestBytes r"
    using d(8) no_savings [of "re_CurrentCPURequestMillicores r" "re_RecommendedCPURequestMillicores r"
      "re_CurrentMemoryRequestBytes r" "re_RecommendedMemoryRequestBytes r" c] by (rule_tac ccontr) (simp add: not_less)
qed

section \<open>Targets\<close>

abbreviation target_samples :: "string \<Rightarrow> sample list \<Rightarrow> sample list" where
  "target_samples k \<equiv> filter (\<lambda>s. sm_BucketSeconds s \<noteq> 0 \<and> sm_ScopeID s \<noteq> [] \<and> targetKey s = k)"

lemma map_of_add_target: "map_of (add_target k s ts) k' =
    (if k' = k then Some (case map_of ts k of None \<Rightarrow> [s] | Some ss \<Rightarrow> ss @ [s]) else map_of ts k')"
  by (induction k s ts rule: add_target.induct) auto

lemma keys_add_target: "distinct (map fst ts) \<Longrightarrow> distinct (map fst (add_target k s ts)) \<and> fst ` set (add_target k s ts) = insert k (fst ` set ts)"
  by (induction k s ts rule: add_target.induct) auto

lemma group_targets_snoc: "group_targets (xs @ [s]) =
    (if sm_BucketSeconds s = 0 \<or> sm_ScopeID s = [] then group_targets xs else add_target (targetKey s) s (group_targets xs))"
  by (simp add: group_targets_def)

text \<open>The groups are the samples of each target, in the order they came, one group per target.\<close>

lemma group_targets_distinct: "distinct (map fst (group_targets samples))"
proof (induction samples rule: rev_induct)
  case (snoc s samples)
  then show ?case using keys_add_target [of "group_targets samples" "targetKey s" s] by (simp add: group_targets_snoc)
qed (simp add: group_targets_def)

lemma group_targets_map: "map_of (group_targets samples) k = (if target_samples k samples = [] then None else Some (target_samples k samples))"
proof (induction samples rule: rev_induct)
  case (snoc s samples)
  show ?case
  proof (cases "k = targetKey s")
    case True
    show ?thesis using snoc unfolding True by (simp add: group_targets_snoc map_of_add_target del: map_of_eq_Some_iff)
  qed (use snoc in \<open>simp add: group_targets_snoc map_of_add_target del: map_of_eq_Some_iff\<close>)
qed (simp add: group_targets_def)

lemma group_targets_in:
  assumes "(k, ts) \<in> set (group_targets samples)" shows "ts = target_samples k samples \<and> ts \<noteq> []"
proof -
  have "map_of (group_targets samples) k = Some ts" using assms group_targets_distinct by (rule map_of_is_SomeI [rotated])
  then show ?thesis unfolding group_targets_map by (simp split: if_splits)
qed

lemma permutes_at_most: "permutes f \<Longrightarrow> at_most (map g (f xs)) v = at_most (map g xs) v"
proof -
  assume "permutes f"
  then have "mset (map g (f xs)) = mset (map g xs)" unfolding permutes_def by simp
  then show ?thesis unfolding at_most_def by (metis mset_filter size_mset)
qed

lemma Generate_in:
  assumes "r \<in> set (Generate g c samples q)" "go_order_ok g"
  obtains ts where "recommend c (go_samples g ts) q = Some r" "ts = target_samples (targetKey (hd (go_samples g ts))) samples" "ts \<noteq> []"
proof -
  have p: "permutes (go_samples g)" "permutes (go_targets g)" "permutes (go_recommendations g)"
    using assms(2) unfolding go_order_ok_def sorts_def by blast+
  obtain k ts where k: "(k, ts) \<in> set (group_targets samples)" "recommend c (go_samples g ts) q = Some r"
    using assms(1) unfolding Generate_def permutes_set [OF p(3)] by (auto simp: List.map_filter_def permutes_set [OF p(2)])
  note ts = group_targets_in [OF k(1)]
  have "go_samples g ts \<noteq> []" using ts permutes_length [OF p(1), of ts] by auto
  then have "hd (go_samples g ts) \<in> set ts" using permutes_set [OF p(1)] hd_in_set by blast
  then have "targetKey (hd (go_samples g ts)) = k" using ts by auto
  then show thesis using that k(2) ts by blast
qed

section \<open>Orders\<close>

definition recommendation_key :: "recommendation \<Rightarrow> rat \<times> nat list \<times> nat list" where
  "recommendation_key r = (- re_EstimatedMonthlySavingsUSD r, codes (re_ClusterID r), codes (re_ScopeID r))"

lemma recommendation_less_key: "recommendation_less a b = (recommendation_key a < recommendation_key b)"
  by (simp add: recommendation_less_def recommendation_key_def string_less_codes codes_eq less_prod_simp)
    (metis codes_eq less_le_not_le linorder_neqE order_le_less)

definition sorting :: go_order where
  "sorting = \<lparr> go_samples = sort_key sm_BucketStart, go_targets = rev, go_recommendations = sort_key recommendation_key \<rparr>"

lemma go_order_ok_sorting: "go_order_ok sorting"
  by (simp add: go_order_ok_def sorting_def sorts_sort_key bucket_less_def recommendation_less_key) (simp add: permutes_def)

lemma Generate_ordered: "go_order_ok g \<Longrightarrow> sorted_wrt (\<lambda>a b. re_EstimatedMonthlySavingsUSD b \<le> re_EstimatedMonthlySavingsUSD a) (Generate g c samples q)"
proof -
  assume "go_order_ok g"
  then have "sorted_wrt (\<lambda>a b. \<not> recommendation_less b a) (Generate g c samples q)" unfolding go_order_ok_def sorts_def Generate_def by blast
  then show ?thesis by (rule sorted_wrt_mono_rel [rotated]) (auto simp: recommendation_less_def split: if_splits)
qed

section \<open>Properties\<close>

text \<open>C36: The engine's percentile, computed with floating-point numbers, is the nearest-rank percentile: on any list of at most \<^verbatim>\<open>2^40\<close> values the 95th
  and the 99th percentile are the least of the values with at least that share of all values at or below them.\<close>

theorem percentile_is_nearest_rank:
  "xs \<noteq> [] \<and> length xs \<le> 2 ^ 40 \<longrightarrow>
     percentile xs (rnd (95 / 100)) = nearest_rank 95 100 xs \<and> percentile xs (rnd (99 / 100)) = nearest_rank 99 100 xs"
  using percentile_nearest_rank(1) [of xs 95 100] percentile_nearest_rank(1) [of xs 99 100] rnd_quantiles by simp

theorem percentile_is_nearest_rank_witness:
  "percentile [30, 10, 20] (rnd (95 / 100)) = 30 \<and> nearest_rank 95 100 [30, 10, 20] = 30 \<and> percentile [30, 10, 20] (rnd (99 / 100)) = 30"
proof -
  have "nearest_rank 95 100 [30, 10, 20] = 30" "nearest_rank 99 100 [30, 10, 20] = 30" by (simp_all add: nearest_rank_def at_most_def)
  moreover have "length [30 :: u64, 10, 20] \<le> 2 ^ 40" by simp
  ultimately show ?thesis using percentile_is_nearest_rank [of "[30, 10, 20]"] by (metis list.distinct(1))
qed

text \<open>C35: Recommendations are safe to apply.  Whatever order Go iterates over the targets in, each recommendation the engine generates rests on at least
  the configured number of samples of its target; the CPU request covers the average usage of at least 95% of these samples and the memory request the
  working set of at least 99% of them; requests are not below the configured minimum, limits not below the requests; the savings are positive and at least
  one of the two requests really shrinks; and the list is in the order of decreasing savings.  The headroom factors are between 1 and 1024, a percentile is at
  most \<^verbatim>\<open>2^50\<close> and there are at most \<^verbatim>\<open>2^40\<close> samples.\<close>

theorem recommendations_cover_usage:
  assumes "go_order_ok g" "c = normalizeConfig config" "length samples \<le> 2 ^ 40"
    and "1 \<le> ec_CPURequestHeadroom c" "ec_CPURequestHeadroom c \<le> 1024" "1 \<le> ec_MemoryRequestHeadroom c" "ec_MemoryRequestHeadroom c \<le> 1024"
  shows "sorted_wrt (\<lambda>a b. re_EstimatedMonthlySavingsUSD b \<le> re_EstimatedMonthlySavingsUSD a) (Generate g c samples q) \<and>
    (\<forall>r \<in> set (Generate g c samples q). unat (re_CPUUsageP95Millicores r) \<le> 2 ^ 50 \<and> unat (re_MemoryWorkingSetP99Bytes r) \<le> 2 ^ 50 \<longrightarrow>
       (let ts = target_samples (re_TenantID r @ [nul] @ re_ClusterID r @ [nul] @ re_ScopeType r @ [nul] @ re_ScopeID r) samples in
          re_SampleCount r = length ts \<and> ec_MinimumSampleCount c \<le> int (length ts) \<and>
          95 * length ts \<le> 100 * at_most (cpu_usage ts) (re_RecommendedCPURequestMillicores r) \<and>
          99 * length ts \<le> 100 * at_most (memory_usage ts) (re_RecommendedMemoryRequestBytes r)) \<and>
       ec_MinCPUMillicores c \<le> re_RecommendedCPURequestMillicores r \<and> ec_MinMemoryBytes c \<le> re_RecommendedMemoryRequestBytes r \<and>
       re_RecommendedCPURequestMillicores r \<le> re_RecommendedCPULimitMillicores r \<and> re_RecommendedMemoryRequestBytes r \<le> re_RecommendedMemoryLimitBytes r \<and>
       0 < re_EstimatedMonthlySavingsUSD r \<and>
       (re_RecommendedCPURequestMillicores r < re_CurrentCPURequestMillicores r \<or> re_RecommendedMemoryRequestBytes r < re_CurrentMemoryRequestBytes r))"
    (is "_ \<and> (\<forall>r \<in> _. ?A r \<longrightarrow> ?B r)")
proof (rule conjI [OF Generate_ordered [OF assms(1)]], rule ballI, rule impI)
  fix r assume r: "r \<in> set (Generate g c samples q)" and a: "?A r"
  obtain ts where ts: "recommend c (go_samples g ts) q = Some r" "ts = target_samples (targetKey (hd (go_samples g ts))) samples" "ts \<noteq> []"
    by (rule Generate_in [OF r assms(1)])
  have p: "permutes (go_samples g)" using assms(1) unfolding go_order_ok_def sorts_def by blast
  have n: "0 < ec_MinimumSampleCount c" unfolding assms(2) normalizeConfig_def by simp
  have "length ts \<le> length samples" by (subst ts(2)) (rule length_filter_le)
  then have l: "length (go_samples g ts) \<le> 2 ^ 40" unfolding permutes_length [OF p] using assms(3) by linarith
  note d = recommend_SomeD [OF ts(1)] and s = recommend_safe [OF ts(1) n l assms(4-7) conjunct1 [OF a] conjunct2 [OF a]]
  have k: "re_TenantID r @ [nul] @ re_ClusterID r @ [nul] @ re_ScopeType r @ [nul] @ re_ScopeID r = targetKey (hd (go_samples g ts))"
    using d(2) unfolding targetKey_def by simp
  have m: "x \<le> maxUint64 x y" for x y unfolding maxUint64_def by auto
  have mc: "ec_MinCPUMillicores c \<le> re_RecommendedCPURequestMillicores r" "ec_MinMemoryBytes c \<le> re_RecommendedMemoryRequestBytes r"
    unfolding d(5,6) by (rule m)+
  have sv: "0 < re_EstimatedMonthlySavingsUSD r" unfolding d(9) by (rule d(8))
  note e = d(1) [unfolded permutes_length [OF p]] and x = d(2) [unfolded permutes_length [OF p]]
  note u = s(1,2) [unfolded permutes_length [OF p] permutes_at_most [OF p]]
  show "?B r" unfolding Let_def k ts(2) [symmetric]
    by (intro conjI mc sv u s(3) conjunct1 [OF d(7)] conjunct2 [OF d(7)] e) (use x in simp)
qed

definition example_config :: engine_config where
  "example_config = \<lparr> ec_AnalysisWindow = 3600, ec_CPURequestHeadroom = 1, ec_MemoryRequestHeadroom = 1, ec_CPULimitMultiplier = 2, ec_MemoryLimitMultiplier = 1,
     ec_MinCPUMillicores = 10, ec_MinMemoryBytes = 64, ec_CPUCoreHourUSD = 1, ec_MemoryGiBHourUSD = 1, ec_MinimumSampleCount = 1 \<rparr>"

definition example_sample :: sample where
  "example_sample = \<lparr> sm_TenantID = ''t'', sm_ClusterID = ''c'', sm_ScopeType = ''container'', sm_ScopeID = ''s'', sm_BucketStart = 0, sm_BucketSeconds = 10,
     sm_CPUUsageCoreMS = 200, sm_CPURequestCoreMS = 10200, sm_CPULimitCoreMS = 0, sm_MemoryWorkingSetBytes = 1000, sm_MemoryRequestBytes = 1000,
     sm_MemoryLimitBytes = 0 \<rparr>"

lemma rnd_numeral: "numeral n \<le> (2 ^ 53 :: nat) \<Longrightarrow> rnd (numeral n) = numeral n"
  using rnd_nat [of "numeral n"] by simp

lemma percentile_single: "percentile [x] (rnd (95 / 100)) = x" "percentile [x] (rnd (99 / 100)) = x"
  using percentile_nearest_rank(1) [of "[x]" 95 100] percentile_nearest_rank(1) [of "[x]" 99 100] rnd_quantiles
  by (simp_all add: nearest_rank_def at_most_def)

lemma example_recommendation:
  "\<exists>r. Generate sorting (normalizeConfig example_config) [example_sample] q = [r] \<and> re_CPUUsageP95Millicores r = 20 \<and> re_MemoryWorkingSetP99Bytes r = 100 \<and>
     re_RecommendedCPURequestMillicores r = 20 \<and> re_CurrentCPURequestMillicores r = 1020 \<and> re_EstimatedMonthlySavingsUSD r = 730"
proof -
  have g: "Generate sorting c [example_sample] q = (case recommend c [example_sample] q of None \<Rightarrow> [] | Some r \<Rightarrow> [r])" for c
    by (simp add: Generate_def group_targets_def example_sample_def sorting_def List.map_filter_def split: option.split)
  have a: "averageMillicores 200 10 = 20" "averageMillicores 10200 10 = 1020" "averageBytes 1000 10 = 100" "averageMillicores 0 10 = 0" "averageBytes 0 10 = 0"
    by (simp_all add: averageMillicores_def averageBytes_def ceilDiv_def)
  have f: "f64 (20 :: u64) = 20" "f64 (100 :: u64) = 100" "f64 (1000 :: u64) = 1000" "f64 (0 :: u64) = 0" by (simp_all add: f64_def rnd_numeral)
  have ce: "ceilUint64 20 = 20" "ceilUint64 100 = 100" by (simp_all add: ceilUint64_def float_to_uint64_def cvttsd2sq_def int_of_float_def)
  have mx: "maxUint64 10 20 = 20" "maxUint64 64 100 = 100" by (simp_all add: maxUint64_def)
  have "rnd 1 = 1" using rnd_nat [of 1] by simp
  moreover have "\<lfloor>730000000 + 1 / 2 :: rat\<rfloor> = 730000000" by (rule floor_unique) simp_all
  ultimately have sv: "estimatedMonthlySavings (normalizeConfig example_config) 1020 20 100 100 = 730"
    by (simp add: estimatedMonthlySavings_def positiveDelta_def f roundMoney_def math_Round_def fdiv_def fmul_def fadd_def rnd_numeral
      normalizeConfig_def example_config_def defaultMonthlyHours_def Let_def)
  have cc: "currentConfiguration [example_sample] = (1020, 100, 0, 0)" by (simp add: currentConfiguration_def example_sample_def a Let_def)
  have nc: "ec_MinCPUMillicores (normalizeConfig example_config) = 10" "ec_MinMemoryBytes (normalizeConfig example_config) = 64"
    "ec_CPURequestHeadroom (normalizeConfig example_config) = 1" "ec_MemoryRequestHeadroom (normalizeConfig example_config) = 1"
    "ec_MinimumSampleCount (normalizeConfig example_config) = 1" by (simp_all add: normalizeConfig_def example_config_def)
  show ?thesis unfolding g recommend_def cc Let_def split_conv
    by (simp add: sv nc percentile_single [simplified] a f ce mx fmul_def rnd_numeral example_sample_def)
qed

theorem recommendations_cover_usage_witness:
  "\<exists>r. Generate sorting (normalizeConfig example_config) [example_sample] \<lparr> oq_TenantID = ''t'', oq_ClusterID = [], oq_End = 3600 \<rparr> = [r] \<and>
     95 \<le> 100 * at_most [20] (re_RecommendedCPURequestMillicores r) \<and> re_SampleCount r = 1 \<and>
     re_RecommendedCPURequestMillicores r = 20 \<and> re_CurrentCPURequestMillicores r = 1020 \<and> re_EstimatedMonthlySavingsUSD r = 730"
proof -
  let ?q = "\<lparr> oq_TenantID = ''t'', oq_ClusterID = [], oq_End = 3600 \<rparr>"
  obtain r where r: "Generate sorting (normalizeConfig example_config) [example_sample] ?q = [r]" "re_CPUUsageP95Millicores r = 20"
    "re_MemoryWorkingSetP99Bytes r = 100" "re_RecommendedCPURequestMillicores r = 20" "re_CurrentCPURequestMillicores r = 1020"
    "re_EstimatedMonthlySavingsUSD r = 730" using example_recommendation by blast
  have h: "ec_CPURequestHeadroom (normalizeConfig example_config) = 1" "ec_MemoryRequestHeadroom (normalizeConfig example_config) = 1"
    "ec_MinimumSampleCount (normalizeConfig example_config) = 1" by (simp_all add: normalizeConfig_def example_config_def)
  let ?ts = "target_samples (re_TenantID r @ [nul] @ re_ClusterID r @ [nul] @ re_ScopeType r @ [nul] @ re_ScopeID r) [example_sample]"
  have "\<forall>r' \<in> set [r]. unat (re_CPUUsageP95Millicores r') \<le> 2 ^ 50 \<and> unat (re_MemoryWorkingSetP99Bytes r') \<le> 2 ^ 50 \<longrightarrow> (let ts = target_samples
      (re_TenantID r' @ [nul] @ re_ClusterID r' @ [nul] @ re_ScopeType r' @ [nul] @ re_ScopeID r') [example_sample] in re_SampleCount r' = length ts \<and>
      1 \<le> int (length ts) \<and> 95 * length ts \<le> 100 * at_most (cpu_usage ts) (re_RecommendedCPURequestMillicores r'))"
    using recommendations_cover_usage [OF go_order_ok_sorting refl, of "[example_sample]" example_config ?q] unfolding r(1) h Let_def by simp
  then have t: "re_SampleCount r = length ?ts" "1 \<le> length ?ts" "95 * length ?ts \<le> 100 * at_most (cpu_usage ?ts) (re_RecommendedCPURequestMillicores r)"
    using r(2,3) by (simp_all add: Let_def split: if_splits)
  have "?ts = [example_sample]" using t(2) by (simp split: if_splits)
  moreover have "cpu_usage [example_sample] = [20]" by (simp add: example_sample_def averageMillicores_def ceilDiv_def)
  ultimately show ?thesis using r t by (intro exI [of _ r] conjI) simp_all
qed

lemma fact_row_fits: "list_all2 fits_column recommendationColumns (fact_row (recommendationFact uuid5 nf now r))"
  by (simp add: recommendationColumns_def fact_row_def recommendationFact_def fits_column_def recommendation_table_def)

lemma fact_row_width: "length (fact_row f) = length recommendationColumns"
  by (simp add: fact_row_def recommendationColumns_def)

lemma append_facts_cases:
  "case append_facts env (map F recs) of
     Inl e \<Rightarrow> list_ex (\<lambda>r. \<exists>m. be_append env (fact_row (F r)) = Some m \<and> e = ''append recommendation row: '' @ m) recs
   | Inr rows \<Rightarrow> rows = map (\<lambda>r. fact_row (F r)) recs"
proof (induction recs)
  case (Cons r recs)
  then show ?case by (cases "append_facts env (map F recs)"; cases "be_append env (fact_row (F r))") (simp_all add: fact_row_width)
qed simp


end
