(* ===== verification/Allocation.thy ===== *)
theory Allocation
  imports Go_Time Go_Sort Go_Float Query_Sql
begin

text \<open>
  The allocation service (\<^verbatim>\<open>services/allocation\<close>): the engine that divides the hourly cost of nodes and of the control plane among namespaces
  (\<^verbatim>\<open>engine.go\<close>), the statement that does it in the database (\<^verbatim>\<open>repository.go\<close>) and the endpoint (\<^verbatim>\<open>server.go\<close>).  A Go map is an association
  list in the order of insertion; where the code iterates over a map or sorts, the order is an argument.
\<close>

section \<open>Types and constants\<close>

definition defaultNodeHourlyCostUSD :: rat where "defaultNodeHourlyCostUSD = rnd (10 / 100)"
definition defaultControlPlaneHourlyCostUSD :: rat where "defaultControlPlaneHourlyCostUSD = rnd (5 / 100)"
definition defaultNetworkCostPerGiBUSD :: rat where "defaultNetworkCostPerGiBUSD = rnd (1 / 100)"
definition defaultCurrency :: string where "defaultCurrency = ''USD''"
definition allocationMethodCPU :: string where "allocationMethodCPU = ''cpu_request_allocatable''"
definition allocation_version :: string where "allocation_version = ''allocation-v1-cpu-request-overhead-idle''"
definition idleNamespaceUID :: string where "idleNamespaceUID = ''__idle__''"
definition idleNamespaceName :: string where "idleNamespaceName = ''__idle__''"

record allocation_request =
  aq_TenantID :: string
  aq_ClusterID :: string
  aq_Start :: gotime
  aq_End :: gotime

record namespace_cost =
  nc_TenantID :: string
  nc_ClusterID :: string
  nc_NamespaceUID :: string
  nc_NamespaceName :: string
  nc_BucketStart :: string
  nc_CPURequestCoreMilliseconds :: u64
  nc_NetworkBytes :: u64
  nc_AllocationWeight :: rat
  nc_DirectCost :: rat
  nc_IdleCost :: rat
  nc_NetworkCost :: rat
  nc_ControlPlaneCost :: rat
  nc_SystemNamespaceCost :: rat
  nc_AllocatedCost :: rat
  nc_Currency :: string
  nc_AllocationMethod :: string
  nc_ComputationVersion :: string

record node_request =
  nr_TenantID :: string
  nr_ClusterID :: string
  nr_NodeUID :: string
  nr_NamespaceUID :: string
  nr_NamespaceName :: string
  nr_BucketStart :: gotime
  nr_CPURequestCoreMilliseconds :: u64
  nr_NetworkBytes :: u64
  nr_NodeAllocatableMillicores :: u64

record allocation_options =
  ao_NodeHourlyCostUSD :: rat
  ao_ControlPlaneHourlyCostUSD :: rat
  ao_NetworkCostPerGiBUSD :: rat

record allocation_result =
  ar_Currency :: string
  ar_AllocationMethod :: string
  ar_NodeHourlyCostUSD :: rat
  ar_ControlPlaneHourlyCostUSD :: rat
  ar_NetworkCostPerGiBUSD :: rat
  ar_Start :: gotime
  ar_End :: gotime
  ar_Items :: "namespace_cost list"

section \<open>Helpers\<close>

definition normalizeAllocationOptions :: "allocation_options \<Rightarrow> allocation_options" where
  "normalizeAllocationOptions c =
     \<lparr> ao_NodeHourlyCostUSD = (if ao_NodeHourlyCostUSD c \<le> 0 then defaultNodeHourlyCostUSD else ao_NodeHourlyCostUSD c),
       ao_ControlPlaneHourlyCostUSD = (if ao_ControlPlaneHourlyCostUSD c < 0 then defaultControlPlaneHourlyCostUSD else ao_ControlPlaneHourlyCostUSD c),
       ao_NetworkCostPerGiBUSD = (if ao_NetworkCostPerGiBUSD c < 0 then defaultNetworkCostPerGiBUSD else ao_NetworkCostPerGiBUSD c) \<rparr>"

definition isSystemNamespace :: "string \<Rightarrow> string \<Rightarrow> bool" where
  "isSystemNamespace name uid = (name \<in> set [''kube-system'', ''kube-public'', ''kube-node-lease''] \<or>
     uid \<in> set [''kube-system'', ''kube-public'', ''kube-node-lease''])"

definition bytesToGiB :: "u64 \<Rightarrow> rat" where "bytesToGiB bytes = fdiv (f64 bytes) 1073741824"

definition alloc_maxUint64 :: "u64 \<Rightarrow> u64 \<Rightarrow> u64" where
  "alloc_maxUint64 left right = (if left > right then left else right)"

definition nodeBucketKey :: "node_request \<Rightarrow> string" where
  "nodeBucketKey r = nr_TenantID r @ [nul] @ nr_ClusterID r @ [nul] @ nr_NodeUID r @ [nul] @ format_RFC3339 (nr_BucketStart r)"

definition namespaceBucketKey :: "node_request \<Rightarrow> string" where
  "namespaceBucketKey r = nr_TenantID r @ [nul] @ nr_ClusterID r @ [nul] @ nr_NamespaceUID r @ [nul] @ format_RFC3339 (nr_BucketStart r)"

definition idleNamespaceBucketKey :: "node_request \<Rightarrow> string" where
  "idleNamespaceBucketKey r = nr_TenantID r @ [nul] @ nr_ClusterID r @ [nul] @ idleNamespaceUID @ [nul] @ format_RFC3339 (nr_BucketStart r)"

definition clusterBucketKey :: "node_request \<Rightarrow> string" where
  "clusterBucketKey r = nr_TenantID r @ [nul] @ nr_ClusterID r @ [nul] @ format_RFC3339 (nr_BucketStart r)"

definition zero_request :: node_request where
  "zero_request = \<lparr> nr_TenantID = [], nr_ClusterID = [], nr_NodeUID = [], nr_NamespaceUID = [], nr_NamespaceName = [], nr_BucketStart = - 62135596800 * Second,
     nr_CPURequestCoreMilliseconds = 0, nr_NetworkBytes = 0, nr_NodeAllocatableMillicores = 0 \<rparr>"

fun firstNodeRequest :: "string \<Rightarrow> node_request list \<Rightarrow> node_request" where
  "firstNodeRequest k [] = zero_request"
| "firstNodeRequest k (r # rs) = (if nodeBucketKey r = k then r else firstNodeRequest k rs)"

text \<open>A map of numbers reads zero where it has no entry; \<^verbatim>\<open>upsert\<close> changes an entry or inserts it.\<close>

definition get0 :: "(string \<times> u64) list \<Rightarrow> string \<Rightarrow> u64" where
  "get0 m k = (case map_of m k of None \<Rightarrow> 0 | Some v \<Rightarrow> v)"

fun upsert :: "'k \<Rightarrow> 'v \<Rightarrow> ('v \<Rightarrow> 'v) \<Rightarrow> ('k \<times> 'v) list \<Rightarrow> ('k \<times> 'v) list" where
  "upsert k v f [] = [(k, f v)]"
| "upsert k v f ((k', w) # m) = (if k' = k then (k', f w) # m else (k', w) # upsert k v f m)"

section \<open>The engine\<close>

record request_totals =
  rt_nodeTotals :: "(string \<times> u64) list"
  rt_nodeAllocatable :: "(string \<times> u64) list"
  rt_clusterTotals :: "(string \<times> u64) list"

text \<open>The first loop.\<close>

definition count_request :: "node_request \<Rightarrow> request_totals \<Rightarrow> request_totals" where
  "count_request r t =
     (if nr_NodeUID r = [] \<or> nr_CPURequestCoreMilliseconds r = 0 then t
      else let allocatable = nr_NodeAllocatableMillicores r * 3600 in
        t\<lparr> rt_nodeTotals := upsert (nodeBucketKey r) 0 (\<lambda>v. v + nr_CPURequestCoreMilliseconds r) (rt_nodeTotals t),
           rt_clusterTotals := upsert (clusterBucketKey r) 0 (\<lambda>v. v + nr_CPURequestCoreMilliseconds r) (rt_clusterTotals t),
           rt_nodeAllocatable := (if allocatable > get0 (rt_nodeAllocatable t) (nodeBucketKey r)
             then upsert (nodeBucketKey r) 0 (\<lambda>v. allocatable) (rt_nodeAllocatable t) else rt_nodeAllocatable t) \<rparr>)"

definition request_totals :: "node_request list \<Rightarrow> request_totals" where
  "request_totals requests = fold count_request requests \<lparr> rt_nodeTotals = [], rt_nodeAllocatable = [], rt_clusterTotals = [] \<rparr>"

definition denominator :: "request_totals \<Rightarrow> string \<Rightarrow> u64" where
  "denominator t k = alloc_maxUint64 (get0 (rt_nodeTotals t) k) (get0 (rt_nodeAllocatable t) k)"

definition new_item :: "node_request \<Rightarrow> string \<Rightarrow> string \<Rightarrow> namespace_cost" where
  "new_item r uid name = \<lparr> nc_TenantID = nr_TenantID r, nc_ClusterID = nr_ClusterID r, nc_NamespaceUID = uid, nc_NamespaceName = name,
     nc_BucketStart = format_RFC3339 (nr_BucketStart r), nc_CPURequestCoreMilliseconds = 0, nc_NetworkBytes = 0, nc_AllocationWeight = 0, nc_DirectCost = 0,
     nc_IdleCost = 0, nc_NetworkCost = 0, nc_ControlPlaneCost = 0, nc_SystemNamespaceCost = 0, nc_AllocatedCost = 0, nc_Currency = [],
     nc_AllocationMethod = [], nc_ComputationVersion = [] \<rparr>"

definition node_weight :: "request_totals \<Rightarrow> node_request \<Rightarrow> rat" where
  "node_weight t r = fdiv (f64 (nr_CPURequestCoreMilliseconds r)) (f64 (denominator t (nodeBucketKey r)))"

definition control_plane_weight :: "request_totals \<Rightarrow> node_request \<Rightarrow> rat" where
  "control_plane_weight t r = (let clusterTotal = get0 (rt_clusterTotals t) (clusterBucketKey r) in
     if clusterTotal > 0 then fdiv (f64 (nr_CPURequestCoreMilliseconds r)) (f64 clusterTotal) else 0)"

definition charge :: "allocation_options \<Rightarrow> request_totals \<Rightarrow> node_request \<Rightarrow> namespace_cost \<Rightarrow> namespace_cost" where
  "charge c t r item =
     (let nodeWeight = node_weight t r;
          controlPlaneWeight = control_plane_weight t r;
          networkCost = fmul (bytesToGiB (nr_NetworkBytes r)) (ao_NetworkCostPerGiBUSD c);
          controlPlaneCost = fmul (ao_ControlPlaneHourlyCostUSD c) controlPlaneWeight;
          directCost = fmul (ao_NodeHourlyCostUSD c) nodeWeight;
          cost = fadd (fadd directCost networkCost) controlPlaneCost
      in item\<lparr> nc_CPURequestCoreMilliseconds := nc_CPURequestCoreMilliseconds item + nr_CPURequestCoreMilliseconds r,
               nc_NetworkBytes := nc_NetworkBytes item + nr_NetworkBytes r,
               nc_AllocationWeight := fadd (nc_AllocationWeight item) nodeWeight,
               nc_DirectCost := fadd (nc_DirectCost item) directCost,
               nc_NetworkCost := fadd (nc_NetworkCost item) networkCost,
               nc_ControlPlaneCost := fadd (nc_ControlPlaneCost item) controlPlaneCost,
               nc_AllocatedCost := fadd (nc_AllocatedCost item) cost,
               nc_SystemNamespaceCost := (if isSystemNamespace (nr_NamespaceName r) (nr_NamespaceUID r)
                 then fadd (nc_SystemNamespaceCost item) cost else nc_SystemNamespaceCost item) \<rparr>)"

text \<open>The second loop.\<close>

definition allocate_request ::
  "allocation_options \<Rightarrow> request_totals \<Rightarrow> node_request \<Rightarrow> (string \<times> namespace_cost) list \<Rightarrow> (string \<times> namespace_cost) list" where
  "allocate_request c t r items =
     (if denominator t (nodeBucketKey r) = 0 \<or> nr_CPURequestCoreMilliseconds r = 0 then items
      else upsert (namespaceBucketKey r) (new_item r (nr_NamespaceUID r) (nr_NamespaceName r)) (charge c t r) items)"

text \<open>The third loop, over the nodes.\<close>

definition idle_weight :: "request_totals \<Rightarrow> string \<Rightarrow> u64 \<Rightarrow> rat" where
  "idle_weight t k tot = fdiv (f64 (denominator t k - tot)) (f64 (denominator t k))"

definition allocate_idle :: "allocation_options \<Rightarrow> request_totals \<Rightarrow> node_request list \<Rightarrow> string \<times> u64
    \<Rightarrow> (string \<times> namespace_cost) list \<Rightarrow> (string \<times> namespace_cost) list" where
  "allocate_idle c t requests = (\<lambda>(k, tot) items.
     if denominator t k = 0 \<or> denominator t k \<le> tot then items
     else let r = firstNodeRequest k requests; idleCost = fmul (ao_NodeHourlyCostUSD c) (idle_weight t k tot) in
       upsert (idleNamespaceBucketKey r) (new_item r idleNamespaceUID idleNamespaceName)
         (\<lambda>item. item\<lparr> nc_IdleCost := fadd (nc_IdleCost item) idleCost, nc_AllocatedCost := fadd (nc_AllocatedCost item) idleCost \<rparr>) items)"

definition label_item :: "namespace_cost \<Rightarrow> namespace_cost" where
  "label_item item = item\<lparr> nc_Currency := defaultCurrency, nc_AllocationMethod := allocationMethodCPU, nc_ComputationVersion := allocation_version \<rparr>"

definition item_less :: "namespace_cost \<Rightarrow> namespace_cost \<Rightarrow> bool" where
  "item_less a b =
     (if nc_BucketStart a \<noteq> nc_BucketStart b then string_less (nc_BucketStart a) (nc_BucketStart b)
      else if nc_ClusterID a \<noteq> nc_ClusterID b then string_less (nc_ClusterID a) (nc_ClusterID b)
      else string_less (nc_NamespaceUID a) (nc_NamespaceUID b))"

record allocation_order =
  al_nodes :: "(string \<times> u64) list \<Rightarrow> (string \<times> u64) list"
  al_items :: "(string \<times> namespace_cost) list \<Rightarrow> (string \<times> namespace_cost) list"
  al_sort :: "namespace_cost list \<Rightarrow> namespace_cost list"

definition allocation_order_ok :: "allocation_order \<Rightarrow> bool" where
  "allocation_order_ok g = (permutes (al_nodes g) \<and> permutes (al_items g) \<and> sorts item_less (al_sort g))"

definition allocateCosts :: "allocation_order \<Rightarrow> node_request list \<Rightarrow> allocation_options \<Rightarrow> namespace_cost list" where
  "allocateCosts g requests options =
     (let c = normalizeAllocationOptions options;
          t = request_totals requests;
          byNamespace = fold (allocate_request c t) requests [];
          byNamespace = fold (allocate_idle c t requests) (al_nodes g (rt_nodeTotals t)) byNamespace
      in al_sort g (map (\<lambda>(k, item). label_item item) (al_items g byNamespace)))"

definition allocateByCPURequest :: "allocation_order \<Rightarrow> node_request list \<Rightarrow> rat \<Rightarrow> namespace_cost list" where
  "allocateByCPURequest g requests nodeHourlyCostUSD = allocateCosts g requests
     \<lparr> ao_NodeHourlyCostUSD = nodeHourlyCostUSD, ao_ControlPlaneHourlyCostUSD = 0, ao_NetworkCostPerGiBUSD = 0 \<rparr>"

section \<open>The service\<close>

definition alloc_zeroTime :: gotime where "alloc_zeroTime = - 62135596800 * Second"

definition alloc_normalizeQuery :: "allocation_request \<Rightarrow> gotime \<Rightarrow> allocation_request result" where
  "alloc_normalizeQuery q now =
     (let q = q\<lparr> aq_TenantID := TrimSpace (aq_TenantID q), aq_ClusterID := TrimSpace (aq_ClusterID q) \<rparr> in
      if aq_TenantID q = [] then Inl ''invalid allocation query: tenant_id is required''
      else let q = (if aq_End q = alloc_zeroTime then q\<lparr> aq_End := time_Truncate_Hour now \<rparr> else q);
               q = (if aq_Start q = alloc_zeroTime then q\<lparr> aq_Start := aq_End q - 3600 * Second \<rparr> else q)
        in if \<not> aq_Start q < aq_End q then Inl ''invalid allocation query: start must be before end''
           else if aq_Start q \<noteq> time_Truncate_Hour (aq_Start q) \<or> aq_End q \<noteq> time_Truncate_Hour (aq_End q)
           then Inl ''invalid allocation query: start and end must be aligned to whole hours''
           else Inr q)"

definition engine_NamespaceCosts ::
  "allocation_options \<Rightarrow> (allocation_request \<Rightarrow> namespace_cost list result) \<Rightarrow> gotime \<Rightarrow> allocation_request \<Rightarrow> allocation_result result" where
  "engine_NamespaceCosts options repo now q =
     (let c = normalizeAllocationOptions options in
      case alloc_normalizeQuery q now of
        Inl e \<Rightarrow> Inl e
      | Inr normalized \<Rightarrow> (case repo normalized of
            Inl e \<Rightarrow> Inl e
          | Inr items \<Rightarrow> Inr \<lparr> ar_Currency = defaultCurrency, ar_AllocationMethod = allocationMethodCPU, ar_NodeHourlyCostUSD = ao_NodeHourlyCostUSD c,
              ar_ControlPlaneHourlyCostUSD = ao_ControlPlaneHourlyCostUSD c, ar_NetworkCostPerGiBUSD = ao_NetworkCostPerGiBUSD c,
              ar_Start = aq_Start normalized, ar_End = aq_End normalized, ar_Items = map label_item items \<rparr>))"

datatype allocation_arg = AString string | ATime gotime | AFloat rat

definition metricWhere :: "allocation_request \<Rightarrow> string \<times> allocation_arg list" where
  "metricWhere q =
     (Join ([''tenant_id = ?'', ''bucket_start >= ?'', ''bucket_start < ?'', ''cpu_request_core_milliseconds > 0'']
        @ (if aq_ClusterID q \<noteq> [] then [''cluster_id = ?''] else [])) '' AND '',
      [AString (aq_TenantID q), ATime (aq_Start q), ATime (aq_End q)] @ (if aq_ClusterID q \<noteq> [] then [AString (aq_ClusterID q)] else []))"

definition cost_sql_usage :: string where
  "cost_sql_usage = ''
WITH usage AS
(
    SELECT
        tenant_id,
        cluster_id,
        node_uid,
        namespace_uid,
        toStartOfHour(bucket_start) AS bucket_start,
        sum(cpu_request_core_milliseconds) AS cpu_request_core_milliseconds,
        sum(network_rx_bytes + network_tx_bytes) AS network_bytes
    FROM kube_cost.container_metrics_10s
    WHERE ''"

definition cost_sql_allocated :: string where
  "cost_sql_allocated = ''
    GROUP BY tenant_id, cluster_id, node_uid, namespace_uid, bucket_start
),
node_requests AS
(
    SELECT
        tenant_id,
        cluster_id,
        node_uid,
        toStartOfHour(bucket_start) AS bucket_start,
        sum(cpu_request_core_milliseconds) AS node_cpu_request_core_milliseconds
    FROM usage
    GROUP BY tenant_id, cluster_id, node_uid, bucket_start
    HAVING node_cpu_request_core_milliseconds > 0
),
cluster_requests AS
(
    SELECT
        tenant_id,
        cluster_id,
        bucket_start,
        sum(cpu_request_core_milliseconds) AS cluster_cpu_request_core_milliseconds
    FROM usage
    GROUP BY tenant_id, cluster_id, bucket_start
    HAVING cluster_cpu_request_core_milliseconds > 0
),
allocated AS
(
    SELECT
        usage.tenant_id,
        usage.cluster_id,
        usage.namespace_uid,
        if(empty(any(ns.namespace_name)), usage.namespace_uid, any(ns.namespace_name)) AS namespace_name,
        usage.bucket_start,
        sum(usage.cpu_request_core_milliseconds) AS cpu_request_core_milliseconds,
        sum(usage.network_bytes) AS network_bytes,
        sum(toFloat64(usage.cpu_request_core_milliseconds) / greatest(toFloat64(node.allocatable_cpu_millicores) * 3600, toFloat64(node_requests.node_cpu_request_core_milliseconds))) AS allocation_weight,
        sum(? * (toFloat64(usage.cpu_request_core_milliseconds) / greatest(toFloat64(node.allocatable_cpu_millicores) * 3600, toFloat64(node_requests.node_cpu_request_core_milliseconds)))) AS direct_cost,
        toFloat64(0) AS idle_cost,
        sum((toFloat64(usage.network_bytes) / 1073741824) * ?) AS network_cost,
        sum(? * (toFloat64(usage.cpu_request_core_milliseconds) / toFloat64(cluster_requests.cluster_cpu_request_core_milliseconds))) AS control_plane_cost
    FROM usage
    INNER JOIN node_requests
        ON usage.tenant_id = node_requests.tenant_id
       AND usage.cluster_id = node_requests.cluster_id
       AND usage.node_uid = node_requests.node_uid
       AND usage.bucket_start = node_requests.bucket_start
    INNER JOIN cluster_requests
        ON usage.tenant_id = cluster_requests.tenant_id
       AND usage.cluster_id = cluster_requests.cluster_id
       AND usage.bucket_start = cluster_requests.bucket_start
    INNER JOIN kube_cost.current_node AS node
        ON usage.tenant_id = node.tenant_id
       AND usage.cluster_id = node.cluster_id
       AND usage.node_uid = node.node_uid
    LEFT JOIN kube_cost.current_namespace AS ns
        ON usage.tenant_id = ns.tenant_id
       AND usage.cluster_id = ns.cluster_id
       AND usage.namespace_uid = ns.namespace_uid
    GROUP BY usage.tenant_id, usage.cluster_id, usage.namespace_uid, usage.bucket_start
),
''"

definition cost_sql_idle :: string where
  "cost_sql_idle = ''idle AS
(
    SELECT
        node_requests.tenant_id,
        node_requests.cluster_id,
        '' @ [sq] @ ''__idle__'' @ [sq] @ '' AS namespace_uid,
        '' @ [sq] @ ''__idle__'' @ [sq] @ '' AS namespace_name,
        node_requests.bucket_start,
        toUInt64(0) AS cpu_request_core_milliseconds,
        toUInt64(0) AS network_bytes,
        toFloat64(0) AS allocation_weight,
        toFloat64(0) AS direct_cost,
        sum(? * greatest(
            greatest(toFloat64(node.allocatable_cpu_millicores) * 3600, toFloat64(node_requests.node_cpu_request_core_milliseconds)) - toFloat64(node_requests.node_cpu_request_core_milliseconds),
            0
        ) / greatest(toFloat64(node.allocatable_cpu_millicores) * 3600, toFloat64(node_requests.node_cpu_request_core_milliseconds))) AS idle_cost,
        toFloat64(0) AS network_cost,
        toFloat64(0) AS control_plane_cost
    FROM node_requests
    INNER JOIN kube_cost.current_node AS node
        ON node_requests.tenant_id = node.tenant_id
       AND node_requests.cluster_id = node.cluster_id
       AND node_requests.node_uid = node.node_uid
    GROUP BY node_requests.tenant_id, node_requests.cluster_id, node_requests.bucket_start
)
SELECT
    tenant_id,
    cluster_id,
    namespace_uid,
    namespace_name,
    bucket_start,
    cpu_request_core_milliseconds,
    network_bytes,
    allocation_weight,
    direct_cost,
    idle_cost,
    network_cost,
    control_plane_cost,
    if(namespace_name IN ('' @ [sq] @ ''kube-system'' @ [sq] @ '', '' @ [sq] @ ''kube-public'' @ [sq] @ '', '' @ [sq] @ ''kube-node-lease'' @ [sq] @ ''), direct_cost + network_cost + control_plane_cost, 0) AS system_namespace_cost,
    direct_cost + idle_cost + network_cost + control_plane_cost AS allocated_cost
FROM
(
    SELECT * FROM allocated
    UNION ALL
    SELECT * FROM idle
)
ORDER BY bucket_start, cluster_id, namespace_uid''"

definition namespaceCostSQL :: "allocation_request \<Rightarrow> allocation_options \<Rightarrow> string \<times> allocation_arg list" where
  "namespaceCostSQL q options =
     (let c = normalizeAllocationOptions options; (where_clause, args) = metricWhere q in
      (cost_sql_usage @ where_clause @ cost_sql_allocated @ cost_sql_idle,
       args @ [AFloat (ao_NodeHourlyCostUSD c), AFloat (ao_NetworkCostPerGiBUSD c), AFloat (ao_ControlPlaneHourlyCostUSD c), AFloat (ao_NodeHourlyCostUSD c)]))"

text \<open>A row of the result: the item with the time of its bucket, as scanned.\<close>

fun scan_costs :: "(namespace_cost \<times> gotime) result list \<Rightarrow> namespace_cost list result" where
  "scan_costs [] = Inr []"
| "scan_costs (Inl e # rs) = Inl (''scan namespace cost row: '' @ e)"
| "scan_costs (Inr (item, bucketStart) # rs) = (case scan_costs rs of
       Inl e \<Rightarrow> Inl e
     | Inr items \<Rightarrow> Inr (label_item (item\<lparr> nc_BucketStart := format_RFC3339 bucketStart \<rparr>) # items))"

definition repository_NamespaceCosts ::
  "(string \<Rightarrow> allocation_arg list \<Rightarrow> ((namespace_cost \<times> gotime) result list \<times> error option) result) \<Rightarrow> allocation_options
     \<Rightarrow> allocation_request \<Rightarrow> namespace_cost list result" where
  "repository_NamespaceCosts conn options q = (case conn (fst (namespaceCostSQL q options)) (snd (namespaceCostSQL q options)) of
       Inl e \<Rightarrow> Inl (''query namespace costs: '' @ e)
     | Inr (rows, err) \<Rightarrow> (case scan_costs rows of
           Inl e \<Rightarrow> Inl e
         | Inr items \<Rightarrow> (case err of Some e \<Rightarrow> Inl (''read namespace cost rows: '' @ e) | None \<Rightarrow> Inr items)))"

text \<open>\<^verbatim>\<open>writeError\<close> and \<^verbatim>\<open>writeJSON\<close>.  What \<^verbatim>\<open>time.Parse\<close> says of a text it rejects is an argument.\<close>

datatype 'a allocation_response = ErrorJSON nat string | ResultJSON nat 'a

definition alloc_parseTime :: "(string \<Rightarrow> string) \<Rightarrow> string \<Rightarrow> gotime result" where
  "alloc_parseTime describe value =
     (if TrimSpace value = [] then Inr alloc_zeroTime
      else case parse_RFC3339 value of None \<Rightarrow> Inl (describe value) | Some t \<Rightarrow> Inr t)"

definition alloc_health :: "error option \<Rightarrow> unit allocation_response" where
  "alloc_health ping = (case ping of Some e \<Rightarrow> ErrorJSON 503 ''clickhouse unavailable'' | None \<Rightarrow> ResultJSON 200 ())"

text \<open>\<^verbatim>\<open>errors.Is\<close> finds \<^verbatim>\<open>ErrInvalidQuery\<close> exactly in the errors of \<^verbatim>\<open>normalizeQuery\<close>.\<close>

definition namespaceCost :: "(string \<Rightarrow> string) \<Rightarrow> allocation_options \<Rightarrow> (allocation_request \<Rightarrow> namespace_cost list result) \<Rightarrow> gotime \<Rightarrow> request
    \<Rightarrow> allocation_result allocation_response" where
  "namespaceCost describe options repo now r =
     (let vs = url_Query (rq_RawQuery r) in
      case alloc_parseTime describe (values_Get vs ''start'') of
        Inl e \<Rightarrow> ErrorJSON 400 e
      | Inr start \<Rightarrow> (case alloc_parseTime describe (values_Get vs ''end'') of
          Inl e \<Rightarrow> ErrorJSON 400 e
        | Inr end' \<Rightarrow>
            let q = \<lparr> aq_TenantID = values_Get vs ''tenant_id'', aq_ClusterID = values_Get vs ''cluster_id'', aq_Start = start, aq_End = end' \<rparr> in
            (case alloc_normalizeQuery q now of
               Inl e \<Rightarrow> ErrorJSON 400 e
             | Inr _ \<Rightarrow> (case engine_NamespaceCosts options repo now q of
                   Inl e \<Rightarrow> ErrorJSON 500 ''namespace allocation query failed''
                 | Inr res \<Rightarrow> ResultJSON 200 res))))"

section \<open>Groups\<close>

text \<open>A fold of upserts collects, per key, the steps of its elements in order.\<close>

lemma map_of_upsert: "map_of (upsert k v f m) k' = (if k' = k then Some (f (case map_of m k of None \<Rightarrow> v | Some w \<Rightarrow> w)) else map_of m k')"
  by (induction k v f m rule: upsert.induct) auto

lemma keys_upsert: "fst ` set (upsert k v f m) = insert k (fst ` set m)"
  by (induction k v f m rule: upsert.induct) auto

lemma distinct_upsert: "distinct (map fst m) \<Longrightarrow> distinct (map fst (upsert k v f m))"
  by (induction k v f m rule: upsert.induct) (auto simp: keys_upsert)

definition upsert_all :: "('e \<Rightarrow> 'k) \<Rightarrow> ('e \<Rightarrow> 'v) \<Rightarrow> ('e \<Rightarrow> 'v \<Rightarrow> 'v) \<Rightarrow> 'e list \<Rightarrow> ('k \<times> 'v) list" where
  "upsert_all key ini step es = fold (\<lambda>e. upsert (key e) (ini e) (step e)) es []"

lemma upsert_all_snoc: "upsert_all key ini step (es @ [e]) = upsert (key e) (ini e) (step e) (upsert_all key ini step es)"
  by (simp add: upsert_all_def)

lemma upsert_all_distinct: "distinct (map fst (upsert_all key ini step es))"
  by (induction es rule: rev_induct) (simp_all add: upsert_all_snoc distinct_upsert, simp add: upsert_all_def)

lemma upsert_all_keys: "fst ` set (upsert_all key ini step es) = key ` set es"
  by (induction es rule: rev_induct) (simp_all add: upsert_all_snoc keys_upsert, simp add: upsert_all_def)

text \<open>A field that every step adds to, or leaves alone, is the sum of what the steps of the key add.\<close>

lemma upsert_all_field:
  assumes "\<And>e v. field (step e v) = (if touch e then ad (field v) (amount e) else field v)" "\<And>e. field (ini e) = zero"
  shows "map_of (upsert_all key ini step es) k = Some v \<Longrightarrow> field v = foldl ad zero (map amount (filter (\<lambda>e. touch e \<and> key e = k) es))"
proof (induction es arbitrary: v rule: rev_induct)
  case Nil
  then show ?case by (simp add: upsert_all_def)
next
  case (snoc e es)
  have none: "filter (\<lambda>e. touch e \<and> key e = k) es = []" if "map_of (upsert_all key ini step es) k = None"
  proof -
    have "k \<notin> key ` set es" using that unfolding map_of_eq_None_iff upsert_all_keys .
    then show ?thesis by (auto simp: filter_empty_conv)
  qed
  show ?case
  proof (cases "key e = k")
    case True
    then show ?thesis using snoc none assms
      by (cases "map_of (upsert_all key ini step es) k") (auto simp: upsert_all_snoc map_of_upsert simp del: map_of_eq_Some_iff)
  next
    case False
    then show ?thesis using snoc by (auto simp: upsert_all_snoc map_of_upsert simp del: map_of_eq_Some_iff)
  qed
qed

lemma foldl_plus: "foldl (+) (a :: 'a :: monoid_add) xs = a + sum_list xs"
  by (induction xs arbitrary: a) (simp_all add: add.assoc)

lemma sum_list_group:
  fixes f :: "'e \<Rightarrow> 'a :: comm_monoid_add"
  assumes "distinct ks" "key ` set es \<subseteq> set ks"
  shows "(\<Sum>k\<leftarrow>ks. \<Sum>e\<leftarrow>filter (\<lambda>e. key e = k) es. f e) = (\<Sum>e\<leftarrow>es. f e)"
  using assms(2)
proof (induction es)
  case (Cons e es)
  have "(\<Sum>k\<leftarrow>ks. \<Sum>e\<leftarrow>filter (\<lambda>e. key e = k) (e # es). f e) = (\<Sum>k\<leftarrow>ks. (if key e = k then f e else 0) + (\<Sum>e\<leftarrow>filter (\<lambda>e. key e = k) es. f e))"
    by (intro arg_cong [where f = sum_list] map_cong) auto
  also have "\<dots> = (\<Sum>k\<leftarrow>ks. if key e = k then f e else 0) + (\<Sum>e\<leftarrow>es. f e)" using Cons by (simp add: sum_list_addf)
  also have "(\<Sum>k\<leftarrow>ks. if key e = k then f e else 0) = f e"
    using Cons.prems assms(1) by (simp add: sum_list_distinct_conv_sum_set sum.delta)
  finally show ?case by simp
qed simp

text \<open>The total of a field over the groups, up to rounding.\<close>

lemma near_groups:
  fixes field :: "'v \<Rightarrow> rat"
  assumes step: "\<And>e v. field (step e v) = (if touch e then fadd (field v) (amount e) else field v)" and ini: "\<And>e. field (ini e) = 0"
    and near: "\<And>e. e \<in> set es \<Longrightarrow> touch e \<Longrightarrow> near j (amount e) (exact e) \<and> 0 \<le> exact e"
  shows "near (j + length es) (\<Sum>(k, v)\<leftarrow>upsert_all key ini step es. field v) (\<Sum>e\<leftarrow>filter touch es. exact e)"
proof -
  let ?m = "upsert_all key ini step es" and ?es = "filter touch es"
  have "near (j + length es) (field v) (\<Sum>e\<leftarrow>filter (\<lambda>e. key e = k) ?es. exact e)" if "(k, v) \<in> set ?m" for k v
  proof -
    let ?f = "filter (\<lambda>e. touch e \<and> key e = k) es"
    have "map_of ?m k = Some v" using that upsert_all_distinct by (rule map_of_is_SomeI [rotated])
    then have v: "field v = foldl fadd 0 (map amount ?f)" 
      by (rule upsert_all_field [where field = field and step = step and touch = touch and ad = fadd and amount = amount and ini = ini and zero = 0, OF step ini])
    have "near (j + length (map amount ?f)) (foldl fadd 0 (map amount ?f)) (sum_list (map exact ?f))"
      using near by (intro near_foldl) (auto simp: list_all2_map1 list_all2_map2 list_all2_same)
    moreover have "0 \<le> sum_list (map exact ?f)" using near by (intro sum_list_nonneg) auto
    moreover have "j + length (map amount ?f) \<le> j + length es" by simp
    ultimately have "near (j + length es) (field v) (sum_list (map exact ?f))" unfolding v by (rule near_mono)
    then show ?thesis by (simp add: conj_commute)
  qed
  then have n: "near (j + length es) (\<Sum>(k, v)\<leftarrow>?m. field v) (\<Sum>(k, v)\<leftarrow>?m. \<Sum>e\<leftarrow>filter (\<lambda>e. key e = k) ?es. exact e)"
    by (intro near_sum_list) (auto simp: list_all2_map1 list_all2_map2 list_all2_same)
  have "(\<Sum>k\<leftarrow>map fst ?m. \<Sum>e\<leftarrow>filter (\<lambda>e. key e = k) ?es. exact e) = (\<Sum>e\<leftarrow>?es. exact e)"
  proof (rule sum_list_group [OF upsert_all_distinct])
    have "set (map fst ?m) = key ` set es" unfolding set_map upsert_all_keys ..
    then show "key ` set ?es \<subseteq> set (map fst ?m)" by auto
  qed
  then have "(\<Sum>(k, v)\<leftarrow>?m. \<Sum>e\<leftarrow>filter (\<lambda>e. key e = k) ?es. exact e) = (\<Sum>e\<leftarrow>?es. exact e)" by (simp add: comp_def case_prod_unfold)
  then show ?thesis using n by (simp only:)
qed

section \<open>Totals\<close>

abbreviation cpu :: "node_request \<Rightarrow> u64" where "cpu \<equiv> nr_CPURequestCoreMilliseconds"

definition counts :: "node_request \<Rightarrow> bool" where
  "counts r = (nr_NodeUID r \<noteq> [] \<and> cpu r \<noteq> 0)"

lemma request_totals_snoc: "request_totals (rs @ [r]) = count_request r (request_totals rs)"
  by (simp add: request_totals_def)

lemma nodeTotals_eq: "rt_nodeTotals (request_totals rs) = upsert_all nodeBucketKey (\<lambda>_. 0) (\<lambda>r v. v + cpu r) (filter counts rs)"
  by (induction rs rule: rev_induct)
    (simp_all add: request_totals_snoc count_request_def counts_def upsert_all_snoc Let_def, simp add: request_totals_def upsert_all_def)

lemma clusterTotals_eq: "rt_clusterTotals (request_totals rs) = upsert_all clusterBucketKey (\<lambda>_. 0) (\<lambda>r v. v + cpu r) (filter counts rs)"
  by (induction rs rule: rev_induct)
    (simp_all add: request_totals_snoc count_request_def counts_def upsert_all_snoc Let_def, simp add: request_totals_def upsert_all_def)

lemma nodeAllocatable_bound:
  assumes "\<forall>r \<in> set rs. unat (nr_NodeAllocatableMillicores r * 3600) \<le> b"
  shows "unat (get0 (rt_nodeAllocatable (request_totals rs)) k) \<le> b \<and>
    (k \<notin> nodeBucketKey ` set (filter counts rs) \<longrightarrow> get0 (rt_nodeAllocatable (request_totals rs)) k = 0)"
  using assms
proof (induction rs rule: rev_induct)
  case Nil
  then show ?case by (simp add: request_totals_def get0_def)
next
  case (snoc r rs)
  then show ?case by (auto simp: request_totals_snoc count_request_def counts_def Let_def get0_def map_of_upsert split: option.splits)
qed

lemma get0_upsert_all: "get0 (upsert_all key (\<lambda>_. 0) (\<lambda>r v. v + cpu r) rs) k = (\<Sum>r\<leftarrow>filter (\<lambda>r. key r = k) rs. cpu r)"
proof (cases "map_of (upsert_all key (\<lambda>_. 0) (\<lambda>r v. v + cpu r) rs) k")
  case None
  then have "k \<notin> key ` set rs" unfolding map_of_eq_None_iff upsert_all_keys .
  then have "filter (\<lambda>r. key r = k) rs = []" by (auto simp: filter_empty_conv)
  then show ?thesis using None by (simp add: get0_def)
next
  case (Some v)
  have "v = foldl (+) 0 (map cpu (filter (\<lambda>r. True \<and> key r = k) rs))"
    by (rule upsert_all_field [where field = "\<lambda>v. v" and touch = "\<lambda>_. True", OF _ _ Some]) simp_all
  then show ?thesis using Some by (simp add: get0_def foldl_plus)
qed

lemma unat_sum_list: "(\<Sum>w\<leftarrow>ws. unat w) < 2 ^ 64 \<Longrightarrow> unat (sum_list ws) = (\<Sum>w\<leftarrow>ws. unat (w :: u64))"
proof (induction ws)
  case (Cons w ws)
  then have "unat (sum_list ws) = (\<Sum>w\<leftarrow>ws. unat w)" by simp
  then show ?case using Cons.prems by (simp add: unat_word_ariths)
qed simp

lemma of_nat_sum_map: "(of_nat (\<Sum>x\<leftarrow>xs. f x) :: rat) = (\<Sum>x\<leftarrow>xs. of_nat (f x))"
  by (induction xs) simp_all

lemma sum_filter_le: "(\<Sum>x\<leftarrow>filter P xs. f x) \<le> (\<Sum>x\<leftarrow>xs. f x :: nat)"
  by (induction xs) auto

text \<open>What the totals say when the requests of a bucket do not overflow.\<close>

lemma bucket_sum:
  assumes "(\<Sum>r\<leftarrow>rs. unat (cpu r)) \<le> 2 ^ 53"
  shows "unat (get0 (upsert_all key (\<lambda>_. 0) (\<lambda>r v. v + cpu r) (filter counts rs)) k) = (\<Sum>r\<leftarrow>filter (\<lambda>r. key r = k) (filter counts rs). unat (cpu r))"
    and "(\<Sum>r\<leftarrow>filter (\<lambda>r. key r = k) (filter counts rs). unat (cpu r)) \<le> 2 ^ 53"
proof -
  let ?f = "filter (\<lambda>r. key r = k) (filter counts rs)"
  have "(\<Sum>r\<leftarrow>?f. unat (cpu r)) \<le> (\<Sum>r\<leftarrow>rs. unat (cpu r))"
    by (rule order_trans [OF sum_filter_le sum_filter_le])
  then show s: "(\<Sum>r\<leftarrow>?f. unat (cpu r)) \<le> 2 ^ 53" using assms by linarith
  have "(\<Sum>w\<leftarrow>map cpu ?f. unat w) < 2 ^ 64" using s by (simp add: comp_def)
  then show "unat (get0 (upsert_all key (\<lambda>_. 0) (\<lambda>r v. v + cpu r) (filter counts rs)) k) = (\<Sum>r\<leftarrow>?f. unat (cpu r))"
    unfolding get0_upsert_all by (simp add: unat_sum_list comp_def)
qed

lemma bucket_pos:
  assumes "(\<Sum>r\<leftarrow>rs. unat (cpu r)) \<le> 2 ^ 53" "r \<in> set (filter counts rs)"
  shows "0 < unat (get0 (upsert_all key (\<lambda>_. 0) (\<lambda>r v. v + cpu r) (filter counts rs)) (key r))"
proof -
  have "unat (cpu r) \<in> set (map (\<lambda>q. unat (cpu q)) (filter (\<lambda>q. key q = key r) (filter counts rs)))" using assms(2) by auto
  then have "unat (cpu r) \<le> (\<Sum>q\<leftarrow>filter (\<lambda>q. key q = key r) (filter counts rs). unat (cpu q))" by (rule member_le_sum_list) simp
  moreover have "0 < unat (cpu r)" using assms(2) by (simp add: counts_def unat_gt_0)
  ultimately show ?thesis unfolding bucket_sum(1) [OF assms(1)] by linarith
qed

text \<open>Shares of a bucket: they add up to the share that is requested.\<close>

lemma sum_shares:
  fixes key :: "node_request \<Rightarrow> string"
  assumes "(\<Sum>r\<leftarrow>rs. unat (cpu r)) \<le> 2 ^ 53"
  shows "(\<Sum>r\<leftarrow>filter counts rs. c * (of_nat (unat (cpu r)) / d (key r))) =
    (\<Sum>(k, v)\<leftarrow>upsert_all key (\<lambda>_. 0) (\<lambda>r v. v + cpu r) (filter counts rs). c * (of_nat (unat v) / (d k :: rat)))"
proof -
  let ?m = "upsert_all key (\<lambda>_. 0 :: u64) (\<lambda>r v. v + cpu r) (filter counts rs)" and ?f = "\<lambda>k. filter (\<lambda>r. key r = k) (filter counts rs)"
  have k: "set (map fst ?m) = key ` set (filter counts rs)" unfolding set_map upsert_all_keys ..
  have "(\<Sum>r\<leftarrow>filter counts rs. c * (of_nat (unat (cpu r)) / d (key r))) = (\<Sum>k\<leftarrow>map fst ?m. \<Sum>r\<leftarrow>?f k. c * (of_nat (unat (cpu r)) / d (key r)))"
    by (rule sum_list_group [OF upsert_all_distinct, symmetric]) (simp only: k order_refl)
  also have "\<dots> = (\<Sum>(k, v)\<leftarrow>?m. \<Sum>r\<leftarrow>?f k. c * (of_nat (unat (cpu r)) / d (key r)))" by (simp add: comp_def case_prod_unfold)
  also have "\<dots> = (\<Sum>(k, v)\<leftarrow>?m. c * (of_nat (unat v) / d k))"
  proof (intro arg_cong [where f = sum_list] map_cong refl, clarify)
    fix k v assume "(k, v) \<in> set ?m"
    then have "map_of ?m k = Some v" using upsert_all_distinct by (rule map_of_is_SomeI [rotated])
    then have "unat v = (\<Sum>r\<leftarrow>?f k. unat (cpu r))" using bucket_sum(1) [OF assms, of key k] by (simp add: get0_def)
    then have "(of_nat (unat v) :: rat) = (\<Sum>r\<leftarrow>?f k. of_nat (unat (cpu r)))" by (simp only: of_nat_sum_map)
    moreover have "(\<Sum>r\<leftarrow>?f k. c * (of_nat (unat (cpu r)) / d (key r))) = (\<Sum>r\<leftarrow>?f k. (c / d k) * of_nat (unat (cpu r)))"
      by (intro arg_cong [where f = sum_list] map_cong) auto
    moreover have "(\<Sum>r\<leftarrow>?f k. (c / d k) * of_nat (unat (cpu r))) = (c / d k) * (\<Sum>r\<leftarrow>?f k. of_nat (unat (cpu r)))"
      by (rule sum_list_const_mult)
    ultimately show "(\<Sum>r\<leftarrow>?f k. c * (of_nat (unat (cpu r)) / d (key r))) = c * (of_nat (unat v) / d k)" by simp
  qed
  finally show ?thesis .
qed

section \<open>Items\<close>

text \<open>Both loops as one list of charges: the requests that are allocated, then the nodes with idle capacity.\<close>

type_synonym entry = "node_request + string \<times> u64"

definition allocated :: "request_totals \<Rightarrow> node_request \<Rightarrow> bool" where
  "allocated t r = (denominator t (nodeBucketKey r) \<noteq> 0 \<and> cpu r \<noteq> 0)"

definition idles :: "request_totals \<Rightarrow> string \<times> u64 \<Rightarrow> bool" where
  "idles t = (\<lambda>(k, tot). denominator t k \<noteq> 0 \<and> \<not> denominator t k \<le> tot)"

definition entry_key :: "node_request list \<Rightarrow> entry \<Rightarrow> string" where
  "entry_key rs e = (case e of Inl r \<Rightarrow> namespaceBucketKey r | Inr (k, tot) \<Rightarrow> idleNamespaceBucketKey (firstNodeRequest k rs))"

definition entry_ini :: "node_request list \<Rightarrow> entry \<Rightarrow> namespace_cost" where
  "entry_ini rs e = (case e of Inl r \<Rightarrow> new_item r (nr_NamespaceUID r) (nr_NamespaceName r)
     | Inr (k, tot) \<Rightarrow> new_item (firstNodeRequest k rs) idleNamespaceUID idleNamespaceName)"

definition entry_step :: "allocation_options \<Rightarrow> request_totals \<Rightarrow> entry \<Rightarrow> namespace_cost \<Rightarrow> namespace_cost" where
  "entry_step c t e item = (case e of Inl r \<Rightarrow> charge c t r item
     | Inr (k, tot) \<Rightarrow> (let idleCost = fmul (ao_NodeHourlyCostUSD c) (idle_weight t k tot) in
         item\<lparr> nc_IdleCost := fadd (nc_IdleCost item) idleCost, nc_AllocatedCost := fadd (nc_AllocatedCost item) idleCost \<rparr>))"

definition entries :: "request_totals \<Rightarrow> node_request list \<Rightarrow> (string \<times> u64) list \<Rightarrow> entry list" where
  "entries t rs ns = map Inl (filter (allocated t) rs) @ map Inr (filter (idles t) ns)"

lemma fold_requests: "fold (allocate_request c t) qs m = fold (\<lambda>e. upsert (entry_key rs e) (entry_ini rs e) (entry_step c t e)) (map Inl (filter (allocated t) qs)) m"
  by (induction qs arbitrary: m) (simp_all add: allocate_request_def allocated_def entry_key_def entry_ini_def entry_step_def [abs_def])

lemma fold_idle: "fold (allocate_idle c t rs) ns m = fold (\<lambda>e. upsert (entry_key rs e) (entry_ini rs e) (entry_step c t e)) (map Inr (filter (idles t) ns)) m"
  by (induction ns arbitrary: m) (auto simp: allocate_idle_def idles_def entry_key_def entry_ini_def entry_step_def [abs_def] Let_def)

lemma items_eq: "fold (allocate_idle c t rs) ns (fold (allocate_request c t) rs []) = upsert_all (entry_key rs) (entry_ini rs) (entry_step c t) (entries t rs ns)"
  by (simp add: fold_requests [where rs = rs] fold_idle upsert_all_def entries_def)

abbreviation is_request :: "entry \<Rightarrow> bool" where "is_request e \<equiv> (case e of Inl r \<Rightarrow> True | Inr _ \<Rightarrow> False)"

definition direct_amount :: "allocation_options \<Rightarrow> request_totals \<Rightarrow> entry \<Rightarrow> rat" where
  "direct_amount c t e = (case e of Inl r \<Rightarrow> fmul (ao_NodeHourlyCostUSD c) (node_weight t r) | Inr _ \<Rightarrow> 0)"

definition control_amount :: "allocation_options \<Rightarrow> request_totals \<Rightarrow> entry \<Rightarrow> rat" where
  "control_amount c t e = (case e of Inl r \<Rightarrow> fmul (ao_ControlPlaneHourlyCostUSD c) (control_plane_weight t r) | Inr _ \<Rightarrow> 0)"

definition idle_amount :: "allocation_options \<Rightarrow> request_totals \<Rightarrow> entry \<Rightarrow> rat" where
  "idle_amount c t e = (case e of Inl r \<Rightarrow> 0 | Inr (k, tot) \<Rightarrow> fmul (ao_NodeHourlyCostUSD c) (idle_weight t k tot))"

lemma entry_fields:
  "nc_DirectCost (entry_step c t e v) = (if is_request e then fadd (nc_DirectCost v) (direct_amount c t e) else nc_DirectCost v)"
  "nc_ControlPlaneCost (entry_step c t e v) = (if is_request e then fadd (nc_ControlPlaneCost v) (control_amount c t e) else nc_ControlPlaneCost v)"
  "nc_IdleCost (entry_step c t e v) = (if \<not> is_request e then fadd (nc_IdleCost v) (idle_amount c t e) else nc_IdleCost v)"
  "nc_DirectCost (entry_ini rs e) = 0" "nc_ControlPlaneCost (entry_ini rs e) = 0" "nc_IdleCost (entry_ini rs e) = 0"
  by (cases e; simp add: entry_step_def entry_ini_def new_item_def charge_def direct_amount_def control_amount_def idle_amount_def Let_def split: prod.split)+

lemma allocateCosts_sum:
  assumes "allocation_order_ok g" "\<And>i. field (label_item i) = field i"
  shows "(\<Sum>i\<leftarrow>allocateCosts g rs options. field i :: rat) = (let c = normalizeAllocationOptions options; t = request_totals rs in
    \<Sum>(k, i)\<leftarrow>upsert_all (entry_key rs) (entry_ini rs) (entry_step c t) (entries t rs (al_nodes g (rt_nodeTotals t))). field i)"
proof -
  have p: "permutes (al_items g)" "permutes (al_sort g)" using assms(1) unfolding allocation_order_ok_def sorts_def by blast+
  show ?thesis unfolding allocateCosts_def Let_def items_eq permutes_sum [OF p(2)] map_map comp_def permutes_sum [OF p(1)] by (simp add: case_prod_unfold assms(2))
qed

section \<open>Conservation\<close>

definition requests_ok :: "node_request list \<Rightarrow> bool" where
  "requests_ok rs = ((\<forall>r \<in> set rs. nul \<notin> set (nr_TenantID r) \<and> nul \<notin> set (nr_ClusterID r) \<and> nul \<notin> set (nr_NodeUID r) \<and>
     unat (nr_NodeAllocatableMillicores r * 3600) \<le> 2 ^ 53) \<and> (\<Sum>r\<leftarrow>rs. unat (cpu r)) \<le> 2 ^ 53)"

lemma requests_okD:
  assumes "requests_ok rs"
  shows "(\<Sum>r\<leftarrow>rs. unat (cpu r)) \<le> 2 ^ 53" "\<forall>r \<in> set rs. unat (nr_NodeAllocatableMillicores r * 3600) \<le> 2 ^ 53"
  using assms unfolding requests_ok_def by blast+

lemma denominator_bounds:
  assumes "requests_ok rs"
  shows "unat (denominator (request_totals rs) k) \<le> 2 ^ 53" and "get0 (rt_nodeTotals (request_totals rs)) k \<le> denominator (request_totals rs) k"
proof -
  have "unat (get0 (rt_nodeTotals (request_totals rs)) k) \<le> 2 ^ 53"
    unfolding nodeTotals_eq using bucket_sum [OF requests_okD(1) [OF assms]] by simp
  then show "unat (denominator (request_totals rs) k) \<le> 2 ^ 53"
    unfolding denominator_def alloc_maxUint64_def using nodeAllocatable_bound [OF requests_okD(2) [OF assms], of k] by auto
  show "get0 (rt_nodeTotals (request_totals rs)) k \<le> denominator (request_totals rs) k" unfolding denominator_def alloc_maxUint64_def by auto
qed

lemma allocated_counts:
  assumes "requests_ok rs" "r \<in> set rs" shows "allocated (request_totals rs) r \<longleftrightarrow> counts r"
proof (cases "counts r")
  case True
  then have "0 < unat (get0 (rt_nodeTotals (request_totals rs)) (nodeBucketKey r))"
    unfolding nodeTotals_eq using assms requests_okD(1) by (intro bucket_pos) simp_all
  then have "0 < unat (denominator (request_totals rs) (nodeBucketKey r))"
    using denominator_bounds(2) [OF assms(1), of "nodeBucketKey r"] unfolding word_le_nat_alt by linarith
  then show ?thesis using True unfolding allocated_def counts_def by (auto simp: unat_gt_0)
next
  case False
  have "denominator (request_totals rs) (nodeBucketKey r) = 0" if u: "nr_NodeUID r = []"
  proof -
    have k: "nodeBucketKey r \<notin> nodeBucketKey ` set (filter counts rs)"
    proof
      assume "nodeBucketKey r \<in> nodeBucketKey ` set (filter counts rs)"
      then obtain q where q: "q \<in> set rs" "counts q" "nodeBucketKey r = nodeBucketKey q" by auto
      then have "nr_NodeUID q = nr_NodeUID r" using assms unfolding requests_ok_def nodeBucketKey_def by (auto simp: nul_split)
      then show False using q(2) u by (simp add: counts_def)
    qed
    then have f: "filter (\<lambda>q. nodeBucketKey q = nodeBucketKey r) (filter counts rs) = []" unfolding filter_empty_conv by (metis imageI)
    then have "get0 (rt_nodeTotals (request_totals rs)) (nodeBucketKey r) = 0" unfolding nodeTotals_eq get0_upsert_all by (simp only: f list.map sum_list.Nil)
    then show ?thesis using nodeAllocatable_bound [OF requests_okD(2) [OF assms(1)]] k unfolding denominator_def alloc_maxUint64_def by simp
  qed
  then show ?thesis using False unfolding allocated_def counts_def by blast
qed

lemma near_share:
  assumes "unat (a :: u64) \<le> 2 ^ 53" "unat (d :: u64) \<le> 2 ^ 53" "0 \<le> c"
  shows "near 2 (fmul c (fdiv (f64 a) (f64 d))) (c * (of_nat (unat a) / of_nat (unat d))) \<and> 0 \<le> c * (of_nat (unat a) / of_nat (unat d))"
proof -
  let ?x = "of_nat (unat a) / of_nat (unat d) :: rat"
  have x: "0 \<le> ?x" by (intro divide_nonneg_nonneg of_nat_0_le_iff)
  moreover have "0 \<le> c * ?x" using assms(3) x by (rule mult_nonneg_nonneg)
  ultimately have x: "0 \<le> ?x" "0 \<le> c * ?x" .
  have "near 1 (fdiv (f64 a) (f64 d)) ?x"
    unfolding fdiv_def f64_exact [OF assms(1)] f64_exact [OF assms(2)] One_nat_def using x(1) by (intro near_rnd near_refl)
  then have "near (Suc 1) (fmul c (fdiv (f64 a) (f64 d))) (c * ?x)" unfolding fmul_def using x(2) assms(3) by (intro near_rnd near_mult)
  then show ?thesis using x(2) by (simp add: numeral_2_eq_2)
qed

lemma sum_list_filter0: "(\<And>x. x \<in> set xs \<Longrightarrow> \<not> P x \<Longrightarrow> f x = 0) \<Longrightarrow> (\<Sum>x\<leftarrow>filter P xs. f x) = (\<Sum>x\<leftarrow>xs. f x :: rat)"
  by (induction xs) auto

lemma entries_requests: "requests_ok rs \<Longrightarrow> filter is_request (entries (request_totals rs) rs ns) = map Inl (filter counts rs)"
  using allocated_counts [of rs] by (simp add: entries_def filter_map comp_def cong: filter_cong)

lemma entries_idle: "filter (\<lambda>e. \<not> is_request e) (entries t rs ns) = map Inr (filter (idles t) ns)"
  by (simp add: entries_def filter_map comp_def)

lemma node_total:
  assumes "requests_ok rs" "(k, v) \<in> set (rt_nodeTotals (request_totals rs))"
  shows "get0 (rt_nodeTotals (request_totals rs)) k = v" "0 < unat v" "unat v \<le> unat (denominator (request_totals rs) k)"
proof -
  have "map_of (rt_nodeTotals (request_totals rs)) k = Some v"
    using assms(2) unfolding nodeTotals_eq by (rule map_of_is_SomeI [OF upsert_all_distinct])
  then show g: "get0 (rt_nodeTotals (request_totals rs)) k = v" by (simp add: get0_def)
  have "k \<in> fst ` set (rt_nodeTotals (request_totals rs))" using assms(2) by force
  then obtain r where r: "r \<in> set (filter counts rs)" "k = nodeBucketKey r" unfolding nodeTotals_eq upsert_all_keys by blast
  have "0 < unat (get0 (rt_nodeTotals (request_totals rs)) (nodeBucketKey r))"
    unfolding nodeTotals_eq by (rule bucket_pos [OF requests_okD(1) [OF assms(1)] r(1)])
  then show "0 < unat v" using g r(2) by simp
  show "unat v \<le> unat (denominator (request_totals rs) k)" using denominator_bounds(2) [OF assms(1), of k] g unfolding word_le_nat_alt by simp
qed

text \<open>Requested and idle shares of all nodes together are the cost of the nodes.\<close>

lemma shares_add_up:
  assumes ok: "requests_ok rs" and p: "permutes f"
  defines "t \<equiv> request_totals rs"
  defines "D \<equiv> \<lambda>k. of_nat (unat (denominator t k)) :: rat"
  shows "(\<Sum>r\<leftarrow>filter counts rs. c * (of_nat (unat (cpu r)) / D (nodeBucketKey r))) +
    (\<Sum>(k, v)\<leftarrow>filter (idles t) (f (rt_nodeTotals t)). c * (of_nat (unat (denominator t k - v)) / D k)) = c * of_nat (length (rt_nodeTotals t))"
proof -
  let ?ns = "rt_nodeTotals t" and ?i = "\<lambda>(k, v). c * (of_nat (unat (denominator t k - v)) / D k)"
  have a: "(\<Sum>r\<leftarrow>filter counts rs. c * (of_nat (unat (cpu r)) / D (nodeBucketKey r))) = (\<Sum>(k, v)\<leftarrow>?ns. c * (of_nat (unat v) / D k))"
    unfolding t_def nodeTotals_eq by (rule sum_shares [OF requests_okD(1) [OF ok]])
  have n: "get0 ?ns k = v \<and> 0 < unat v \<and> unat v \<le> unat (denominator t k)" if "(k, v) \<in> set ?ns" for k v
    using node_total [OF ok] that unfolding t_def by blast
  have "(\<Sum>x\<leftarrow>filter (idles t) (f ?ns). ?i x) = (\<Sum>x\<leftarrow>f ?ns. ?i x)"
  proof (rule sum_list_filter0)
    fix x assume x: "x \<in> set (f ?ns)" "\<not> idles t x"
    obtain k v where kv: "x = (k, v)" by (cases x)
    note k = x [unfolded kv]
    have m: "(k, v) \<in> set ?ns" using k(1) permutes_set [OF p] by blast
    then have "0 < unat (denominator t k)" using n [OF m] by linarith
    then have "denominator t k \<noteq> 0" by (rule contrapos_pn) simp
    then have "denominator t k \<le> v" using k(2) by (simp add: idles_def)
    then have "unat (denominator t k) = unat v" using n [OF m] unfolding word_le_nat_alt by linarith
    then have "denominator t k = v" by (rule word_unat_eq_iff [THEN iffD2])
    then show "?i x = 0" unfolding kv by simp
  qed
  also have "\<dots> = (\<Sum>x\<leftarrow>?ns. ?i x)" by (rule permutes_sum [OF p])
  finally have "(\<Sum>r\<leftarrow>filter counts rs. c * (of_nat (unat (cpu r)) / D (nodeBucketKey r))) + (\<Sum>x\<leftarrow>filter (idles t) (f ?ns). ?i x) =
    (\<Sum>x\<leftarrow>?ns. (case x of (k, v) \<Rightarrow> c * (of_nat (unat v) / D k)) + ?i x)" unfolding a by (simp only: sum_list_addf)
  also have "\<dots> = (\<Sum>x\<leftarrow>?ns. c)"
  proof (intro arg_cong [where f = sum_list] map_cong refl, clarify)
    fix k v assume "(k, v) \<in> set ?ns"
    then have v: "0 < unat v" "unat v \<le> unat (denominator t k)" using n by blast+
    have "unat (denominator t k - v) = unat (denominator t k) - unat v" using v(2) by (simp add: unat_sub word_le_nat_alt)
    then have "(of_nat (unat (denominator t k - v)) :: rat) = D k - of_nat (unat v)" using v(2) by (simp only: D_def of_nat_diff)
    moreover have "0 < D k" using v unfolding D_def of_nat_0_less_iff by linarith
    ultimately show "c * (of_nat (unat v) / D k) + c * (of_nat (unat (denominator t k - v)) / D k) = c"
      by (simp only: distrib_left [symmetric] add_divide_distrib [symmetric]) simp
  qed
  also have "\<dots> = c * of_nat (length ?ns)" by (simp add: sum_list_triv)
  finally show ?thesis by simp
qed

lemma direct_near:
  assumes "requests_ok rs" "e \<in> set (entries (request_totals rs) rs ns)" "is_request e" "0 \<le> ao_NodeHourlyCostUSD c"
  defines "exact \<equiv> \<lambda>e. case e of Inl r \<Rightarrow> ao_NodeHourlyCostUSD c * (of_nat (unat (cpu r)) / of_nat (unat (denominator (request_totals rs) (nodeBucketKey r)))) | Inr _ \<Rightarrow> 0"
  shows "near 2 (direct_amount c (request_totals rs) e) (exact e) \<and> 0 \<le> exact e"
proof -
  obtain r where r: "e = Inl r" "r \<in> set rs" using assms(2,3) by (auto simp: entries_def)
  have "unat (cpu r) \<le> 2 ^ 53" using member_le_sum_list [of "unat (cpu r)" "map (\<lambda>r. unat (cpu r)) rs"] r(2) requests_okD(1) [OF assms(1)] by auto
  then show ?thesis unfolding r(1) direct_amount_def exact_def sum.case node_weight_def
    by (rule near_share [OF _ denominator_bounds(1) [OF assms(1)] assms(4)])
qed

lemma control_near:
  assumes "requests_ok rs" "e \<in> set (entries (request_totals rs) rs ns)" "is_request e" "0 \<le> ao_ControlPlaneHourlyCostUSD c"
  defines "T \<equiv> \<lambda>r. get0 (rt_clusterTotals (request_totals rs)) (clusterBucketKey r)"
  defines "exact \<equiv> \<lambda>e. case e of Inl r \<Rightarrow> ao_ControlPlaneHourlyCostUSD c * (of_nat (unat (cpu r)) / of_nat (unat (T r))) | Inr _ \<Rightarrow> 0"
  shows "near 2 (control_amount c (request_totals rs) e) (exact e) \<and> 0 \<le> exact e"
proof -
  obtain r where r: "e = Inl r" "r \<in> set rs" "allocated (request_totals rs) r" using assms(2,3) by (auto simp: entries_def)
  have "r \<in> set (filter counts rs)" using r(2,3) allocated_counts [OF assms(1)] by simp
  then have "0 < unat (T r)" unfolding T_def clusterTotals_eq by (rule bucket_pos [OF requests_okD(1) [OF assms(1)]])
  then have p: "T r > 0" by (simp add: word_less_nat_alt)
  have b: "unat (T r) \<le> 2 ^ 53" unfolding T_def clusterTotals_eq using bucket_sum [OF requests_okD(1) [OF assms(1)]] by simp
  have "unat (cpu r) \<le> 2 ^ 53" using member_le_sum_list [of "unat (cpu r)" "map (\<lambda>r. unat (cpu r)) rs"] r(2) requests_okD(1) [OF assms(1)] by auto
  then show ?thesis using near_share [OF _ b assms(4)] p unfolding r(1) control_amount_def exact_def sum.case control_plane_weight_def Let_def T_def by simp
qed

lemma idle_near:
  assumes "requests_ok rs" "\<not> is_request e" "0 \<le> ao_NodeHourlyCostUSD c"
  defines "D \<equiv> denominator (request_totals rs)"
  defines "exact \<equiv> \<lambda>e. case e of Inl r \<Rightarrow> 0 | Inr (k, v) \<Rightarrow> ao_NodeHourlyCostUSD c * (of_nat (unat (D k - v)) / of_nat (unat (D k)))"
  assumes e: "e \<in> set (entries (request_totals rs) rs ns)"
  shows "near 2 (idle_amount c (request_totals rs) e) (exact e) \<and> 0 \<le> exact e"
proof -
  obtain k v where k: "e = Inr (k, v)" "idles (request_totals rs) (k, v)" using e assms(2) by (auto simp: entries_def)
  have b: "unat (D k) \<le> 2 ^ 53" unfolding D_def by (rule denominator_bounds(1) [OF assms(1)])
  have "v \<le> D k" using k(2) unfolding idles_def D_def by auto
  then have "unat (D k - v) \<le> 2 ^ 53" using b by (simp add: unat_sub)
  then show ?thesis unfolding k(1) idle_amount_def exact_def sum.case prod.case idle_weight_def D_def [symmetric]
    by (rule near_share [OF _ b assms(3)])
qed

lemma buckets_length: "length (upsert_all key ini step es) = card (key ` set es)"
  using distinct_card [OF upsert_all_distinct [of key ini step es]] by (simp only: set_map upsert_all_keys length_map)

lemma entries_length:
  assumes "permutes f" shows "length (entries (request_totals rs) rs (f (rt_nodeTotals (request_totals rs)))) \<le> 2 * length rs"
proof -
  let ?t = "request_totals rs"
  have "card (nodeBucketKey ` set (filter counts rs)) \<le> length (filter counts rs)"
    using card_length [of "map nodeBucketKey (filter counts rs)"] by (simp only: set_map length_map)
  then have "length (rt_nodeTotals ?t) \<le> length rs"
    unfolding nodeTotals_eq buckets_length using length_filter_le [of counts rs] by linarith
  moreover have "length (filter (idles ?t) (f (rt_nodeTotals ?t))) \<le> length (rt_nodeTotals ?t)"
    using length_filter_le [of "idles ?t" "f (rt_nodeTotals ?t)"] permutes_length [OF assms] by simp
  moreover have "length (filter (allocated ?t) rs) \<le> length rs" by (rule length_filter_le)
  ultimately show ?thesis unfolding entries_def length_append length_map by linarith
qed

lemma options_nonneg:
  "0 \<le> ao_NodeHourlyCostUSD (normalizeAllocationOptions c)" "0 \<le> ao_ControlPlaneHourlyCostUSD (normalizeAllocationOptions c)"
  by (simp_all add: normalizeAllocationOptions_def defaultNodeHourlyCostUSD_def defaultControlPlaneHourlyCostUSD_def)

text \<open>The total of a cost over all items, up to rounding; then for each kind of cost.\<close>

abbreviation all_entries :: "allocation_order \<Rightarrow> node_request list \<Rightarrow> entry list" where
  "all_entries g rs \<equiv> entries (request_totals rs) rs (al_nodes g (rt_nodeTotals (request_totals rs)))"

lemma field_total:
  fixes options :: allocation_options and field :: "namespace_cost \<Rightarrow> rat"
  assumes g: "allocation_order_ok g" and label: "\<And>i. field (label_item i) = field i"
  defines "c \<equiv> normalizeAllocationOptions options"
  assumes step: "\<And>e v. field (entry_step c (request_totals rs) e v) = (if touch e then fadd (field v) (amount e) else field v)"
    and ini: "\<And>e. field (entry_ini rs e) = 0"
    and near: "\<And>e. e \<in> set (all_entries g rs) \<Longrightarrow> touch e \<Longrightarrow> near 2 (amount e) (exact e) \<and> 0 \<le> exact e"
  shows "near (2 + 2 * length rs) (\<Sum>i\<leftarrow>allocateCosts g rs options. field i) (\<Sum>e\<leftarrow>filter touch (all_entries g rs). exact e)"
proof -
  let ?m = "upsert_all (entry_key rs) (entry_ini rs) (entry_step c (request_totals rs)) (all_entries g rs)"
  have p: "permutes (al_nodes g)" using g by (simp add: allocation_order_ok_def)
  have "near (2 + length (all_entries g rs)) (\<Sum>(k, i)\<leftarrow>?m. field i) (\<Sum>e\<leftarrow>filter touch (all_entries g rs). exact e)"
    by (rule near_groups [where field = field and touch = touch and amount = amount and exact = exact, OF step ini near])
  moreover have "0 \<le> (\<Sum>e\<leftarrow>filter touch (all_entries g rs). exact e)" using near by (intro sum_list_nonneg) auto
  moreover have "2 + length (all_entries g rs) \<le> 2 + 2 * length rs" using entries_length [OF p] by simp
  ultimately have "near (2 + 2 * length rs) (\<Sum>(k, i)\<leftarrow>?m. field i) (\<Sum>e\<leftarrow>filter touch (all_entries g rs). exact e)" by (rule near_mono)
  moreover have "(\<Sum>i\<leftarrow>allocateCosts g rs options. field i) = (\<Sum>(k, i)\<leftarrow>?m. field i)"
    unfolding allocateCosts_sum [of g field, OF g label] Let_def c_def ..
  ultimately show ?thesis by (simp only:)
qed

lemma direct_total:
  fixes options :: allocation_options
  assumes "allocation_order_ok g" "requests_ok rs"
  defines "c \<equiv> normalizeAllocationOptions options"
  defines "D \<equiv> denominator (request_totals rs)"
  shows "near (2 + 2 * length rs) (\<Sum>i\<leftarrow>allocateCosts g rs options. nc_DirectCost i)
    (\<Sum>r\<leftarrow>filter counts rs. ao_NodeHourlyCostUSD c * (of_nat (unat (cpu r)) / of_nat (unat (D (nodeBucketKey r)))))"
proof -
  let ?x = "\<lambda>e. case e of Inl r \<Rightarrow> ao_NodeHourlyCostUSD c * (of_nat (unat (cpu r)) / of_nat (unat (D (nodeBucketKey r)))) | Inr _ \<Rightarrow> (0 :: rat)"
  have "near (2 + 2 * length rs) (\<Sum>i\<leftarrow>allocateCosts g rs options. nc_DirectCost i) (\<Sum>e\<leftarrow>filter is_request (all_entries g rs). ?x e)"
    by (rule field_total [OF assms(1) _ entry_fields(1,4)], simp add: label_item_def)
      (unfold c_def D_def, rule direct_near [OF assms(2) _ _ options_nonneg(1)])
  then show ?thesis unfolding entries_requests [OF assms(2)] map_map comp_def sum.case .
qed

lemma control_total:
  fixes options :: allocation_options
  assumes "allocation_order_ok g" "requests_ok rs"
  defines "c \<equiv> normalizeAllocationOptions options"
  defines "T \<equiv> get0 (rt_clusterTotals (request_totals rs))"
  shows "near (2 + 2 * length rs) (\<Sum>i\<leftarrow>allocateCosts g rs options. nc_ControlPlaneCost i)
    (\<Sum>r\<leftarrow>filter counts rs. ao_ControlPlaneHourlyCostUSD c * (of_nat (unat (cpu r)) / of_nat (unat (T (clusterBucketKey r)))))"
proof -
  let ?x = "\<lambda>e. case e of Inl r \<Rightarrow> ao_ControlPlaneHourlyCostUSD c * (of_nat (unat (cpu r)) / of_nat (unat (T (clusterBucketKey r)))) | Inr _ \<Rightarrow> (0 :: rat)"
  have "near (2 + 2 * length rs) (\<Sum>i\<leftarrow>allocateCosts g rs options. nc_ControlPlaneCost i) (\<Sum>e\<leftarrow>filter is_request (all_entries g rs). ?x e)"
    by (rule field_total [OF assms(1) _ entry_fields(2,5)], simp add: label_item_def)
      (unfold c_def T_def, rule control_near [OF assms(2) _ _ options_nonneg(2)])
  then show ?thesis unfolding entries_requests [OF assms(2)] map_map comp_def sum.case .
qed

lemma idle_total:
  fixes options :: allocation_options
  assumes "allocation_order_ok g" "requests_ok rs"
  defines "c \<equiv> normalizeAllocationOptions options"
  defines "t \<equiv> request_totals rs"
  shows "near (2 + 2 * length rs) (\<Sum>i\<leftarrow>allocateCosts g rs options. nc_IdleCost i)
    (\<Sum>(k, v)\<leftarrow>filter (idles t) (al_nodes g (rt_nodeTotals t)). ao_NodeHourlyCostUSD c * (of_nat (unat (denominator t k - v)) / of_nat (unat (denominator t k))))"
proof -
  let ?x = "\<lambda>e. case e of Inl r \<Rightarrow> (0 :: rat) | Inr (k, v) \<Rightarrow> ao_NodeHourlyCostUSD c * (of_nat (unat (denominator t k - v)) / of_nat (unat (denominator t k)))"
  have "near (2 + 2 * length rs) (\<Sum>i\<leftarrow>allocateCosts g rs options. nc_IdleCost i) (\<Sum>e\<leftarrow>filter (\<lambda>e. \<not> is_request e) (all_entries g rs). ?x e)"
    by (rule field_total [OF assms(1) _ entry_fields(3,6)], simp add: label_item_def)
      (unfold c_def t_def, rule idle_near [OF assms(2) _ options_nonneg(1)])
  then show ?thesis unfolding entries_idle map_map comp_def sum.case t_def .
qed

lemma control_adds_up:
  assumes "requests_ok rs"
  defines "T \<equiv> get0 (rt_clusterTotals (request_totals rs))"
  shows "(\<Sum>r\<leftarrow>filter counts rs. c * (of_nat (unat (cpu r)) / of_nat (unat (T (clusterBucketKey r))))) = (c * of_nat (length (rt_clusterTotals (request_totals rs))) :: rat)"
proof -
  let ?cs = "rt_clusterTotals (request_totals rs)"
  have "(\<Sum>r\<leftarrow>filter counts rs. c * (of_nat (unat (cpu r)) / of_nat (unat (T (clusterBucketKey r))))) = (\<Sum>(k, v)\<leftarrow>?cs. c * (of_nat (unat v) / of_nat (unat (T k))))"
    unfolding clusterTotals_eq by (rule sum_shares [OF requests_okD(1) [OF assms(1)]])
  also have "\<dots> = (\<Sum>x\<leftarrow>?cs. c)"
  proof (intro arg_cong [where f = sum_list] map_cong refl, clarify)
    fix k v assume kv: "(k, v) \<in> set ?cs"
    then have "map_of ?cs k = Some v" unfolding clusterTotals_eq by (rule map_of_is_SomeI [OF upsert_all_distinct])
    then have v: "T k = v" unfolding T_def by (simp add: get0_def)
    have "k \<in> fst ` set ?cs" using kv by force
    then obtain r where r: "r \<in> set (filter counts rs)" "k = clusterBucketKey r" unfolding clusterTotals_eq upsert_all_keys by blast
    have "0 < unat (T k)" unfolding T_def clusterTotals_eq r(2) by (rule bucket_pos [OF requests_okD(1) [OF assms(1)] r(1)])
    then show "c * (of_nat (unat v) / of_nat (unat (T k))) = c" unfolding v by (simp only: divide_self_if of_nat_eq_0_iff) simp
  qed
  also have "\<dots> = c * of_nat (length ?cs)" by (simp add: sum_list_triv)
  finally show ?thesis .
qed

section \<open>Property\<close>

text \<open>C38: Allocation conserves cost.  Whatever order Go iterates over its maps in, the direct and the idle cost of all namespaces together are the hourly cost of
  all nodes that have requests, and the control-plane costs are the hourly cost of the control plane of each cluster and hour, up to at most
  \<^verbatim>\<open>2 + 2 n\<close> roundings of relative size \<^verbatim>\<open>2^-53\<close> for \<^verbatim>\<open>n\<close> requests: no cost is lost and none is charged twice.  Identifiers do not contain the byte zero
  that separates them in keys, and the sum of the requests and the capacity of a node are at most \<^verbatim>\<open>2^53\<close>.\<close>

theorem allocation_conserves_cost:
  assumes "allocation_order_ok g" "requests_ok rs" "c = normalizeAllocationOptions options"
  shows "near (2 + 2 * length rs) ((\<Sum>i\<leftarrow>allocateCosts g rs options. nc_DirectCost i) + (\<Sum>i\<leftarrow>allocateCosts g rs options. nc_IdleCost i))
      (ao_NodeHourlyCostUSD c * of_nat (card (nodeBucketKey ` set (filter counts rs)))) \<and>
    near (2 + 2 * length rs) (\<Sum>i\<leftarrow>allocateCosts g rs options. nc_ControlPlaneCost i)
      (ao_ControlPlaneHourlyCostUSD c * of_nat (card (clusterBucketKey ` set (filter counts rs))))"
proof -
  have p: "permutes (al_nodes g)" using assms(1) by (simp add: allocation_order_ok_def)
  have n: "length (rt_nodeTotals (request_totals rs)) = card (nodeBucketKey ` set (filter counts rs))"
    "length (rt_clusterTotals (request_totals rs)) = card (clusterBucketKey ` set (filter counts rs))"
    unfolding nodeTotals_eq clusterTotals_eq buckets_length by (rule refl)+
  note d = near_add [OF direct_total [OF assms(1,2), of options] idle_total [OF assms(1,2), of options]]
    and k = control_total [OF assms(1,2), of options]
  show ?thesis using d k unfolding shares_add_up [OF assms(2) p] control_adds_up [OF assms(2)] n assms(3) by blast
qed

definition item_key :: "namespace_cost \<Rightarrow> nat list \<times> nat list \<times> nat list" where
  "item_key i = (codes (nc_BucketStart i), codes (nc_ClusterID i), codes (nc_NamespaceUID i))"

lemma item_less_key: "item_less a b = (item_key a < item_key b)"
  by (simp add: item_less_def item_key_def string_less_codes codes_eq less_prod_simp) (metis codes_eq less_le_not_le linorder_neqE order_le_less)

definition sample_order :: allocation_order where
  "sample_order = \<lparr> al_nodes = rev, al_items = rev, al_sort = sort_key item_key \<rparr>"

definition sample_node_request :: node_request where
  "sample_node_request = \<lparr> nr_TenantID = ''t'', nr_ClusterID = ''c'', nr_NodeUID = ''n'', nr_NamespaceUID = ''a'', nr_NamespaceName = ''a'', nr_BucketStart = 0,
     nr_CPURequestCoreMilliseconds = 1800, nr_NetworkBytes = 0, nr_NodeAllocatableMillicores = 1 \<rparr>"

theorem allocation_conserves_cost_witness:
  "let items = allocateCosts sample_order [sample_node_request] \<lparr> ao_NodeHourlyCostUSD = 1, ao_ControlPlaneHourlyCostUSD = 3, ao_NetworkCostPerGiBUSD = 0 \<rparr> in
     near 4 ((\<Sum>i\<leftarrow>items. nc_DirectCost i) + (\<Sum>i\<leftarrow>items. nc_IdleCost i)) 1 \<and> near 4 (\<Sum>i\<leftarrow>items. nc_ControlPlaneCost i) 3"
proof -
  have "allocation_order_ok sample_order"
    by (simp add: allocation_order_ok_def sample_order_def sorts_sort_key item_less_key) (simp add: permutes_def)
  moreover have "requests_ok [sample_node_request]" by (simp add: requests_ok_def sample_node_request_def)
  moreover have "card (k ` set (filter counts [sample_node_request])) = 1" for k :: "node_request \<Rightarrow> string"
    by (simp add: counts_def sample_node_request_def)
  ultimately show ?thesis
    using allocation_conserves_cost [of sample_order "[sample_node_request]" _ "\<lparr> ao_NodeHourlyCostUSD = 1, ao_ControlPlaneHourlyCostUSD = 3, ao_NetworkCostPerGiBUSD = 0 \<rparr>"]
    by (simp add: Let_def normalizeAllocationOptions_def)
qed

end
