(* ===== verification/Export.thy ===== *)
theory Export
  imports Query_Jobs
begin

text \<open>
  The export service (\<^verbatim>\<open>services/export\<close>): requests for exports, the manifest of a job and the bounded store of jobs, which interprets the same
  contract as the store of query jobs.  A job is complete when it is created and never changes.  The random identifier of a job is an argument;
  \<^verbatim>\<open>parseRequiredTime\<close> and \<^verbatim>\<open>authenticatedTenant\<close> are the code of the query service.
\<close>

section \<open>Types\<close>

record export_request =
  xr_QueryType :: string
  xr_Format :: string
  xr_ClusterID :: string
  xr_Start :: string
  xr_End :: string
  xr_GroupBy :: string

record export_spec =
  xs_QueryType :: string
  xs_Format :: string
  xs_ClusterID :: string
  xs_Start :: gotime
  xs_End :: gotime
  xs_GroupBy :: string

record export_manifest =
  xm_SchemaVersion :: string
  xm_ContentType :: string
  xm_ByteSize :: int
  xm_SHA256 :: string
  xm_Inline :: bool
  xm_URI :: string
  xm_GeneratedAt :: gotime

record export_job =
  xj_ExportID :: string
  xj_TenantID :: string
  xj_Status :: string
  xj_Request :: export_spec
  xj_Manifest :: export_manifest
  xj_CreatedAt :: gotime
  xj_UpdatedAt :: gotime

record export_store =
  xt_maxJobs :: int
  xt_order :: "string list"
  xt_jobs :: "string \<Rightarrow> export_job option"

section \<open>The store\<close>

definition export_NewStore :: "int \<Rightarrow> export_store" where
  "export_NewStore maxJobs = \<lparr> xt_maxJobs = (if maxJobs \<le> 0 then 1000 else maxJobs), xt_order = [], xt_jobs = Map.empty \<rparr>"

fun export_evictLocked :: "int \<Rightarrow> string list \<Rightarrow> (string \<Rightarrow> export_job option) \<Rightarrow> string list \<times> (string \<Rightarrow> export_job option)" where
  "export_evictLocked mx [] jobs = ([], jobs)"
| "export_evictLocked mx (oldest # order) jobs =
     (if int (length (oldest # order)) > mx then export_evictLocked mx order (jobs(oldest := None)) else (oldest # order, jobs))"

definition contentType :: "string \<Rightarrow> string" where
  "contentType format = (if format = ''csv'' then ''text/csv'' else if format = ''parquet'' then ''application/vnd.apache.parquet'' else ''application/json'')"

definition export_spec_json :: "export_spec \<Rightarrow> json result" where
  "export_spec_json x = obj ([str_field ''query_type'' (xs_QueryType x), str_field ''format'' (xs_Format x)] @ omit_empty ''cluster_id'' (xs_ClusterID x)
     @ [time_field ''start'' (xs_Start x), time_field ''end'' (xs_End x), str_field ''group_by'' (xs_GroupBy x)])"

definition export_payload_json :: "string \<Rightarrow> string \<Rightarrow> export_spec \<Rightarrow> json result" where
  "export_payload_json exportID tenantID x = obj [str_field ''export_id'' exportID, str_field ''tenant_id'' tenantID, (''request'', export_spec_json x)]"

definition exportManifest :: "string \<Rightarrow> string \<Rightarrow> export_spec \<Rightarrow> gotime \<Rightarrow> export_manifest result" where
  "exportManifest exportID tenantID x generatedAt = (case export_payload_json exportID tenantID x of
       Inl e \<Rightarrow> Inl (''encode export manifest payload: '' @ e)
     | Inr v \<Rightarrow>
         let data = Marshal v in
         Inr \<lparr> xm_SchemaVersion = ''export-manifest-v1'', xm_ContentType = contentType (xs_Format x), xm_ByteSize = int (length data),
           xm_SHA256 = hex_EncodeToString (sha256 data), xm_Inline = True, xm_URI = [], xm_GeneratedAt = generatedAt \<rparr>)"

definition export_insert :: "string \<Rightarrow> export_job \<Rightarrow> export_store \<Rightarrow> export_store" where
  "export_insert exportID job s = (case export_evictLocked (xt_maxJobs s) (xt_order s @ [exportID]) ((xt_jobs s)(exportID \<mapsto> job)) of
     (order, jobs) \<Rightarrow> s\<lparr> xt_order := order, xt_jobs := jobs \<rparr>)"

definition export_Create :: "string \<Rightarrow> string \<Rightarrow> export_spec \<Rightarrow> gotime \<Rightarrow> export_store \<Rightarrow> export_store \<times> export_job result" where
  "export_Create exportID tenantID x now s = (case exportManifest exportID tenantID x now of
       Inl e \<Rightarrow> (s, Inl e)
     | Inr manifest \<Rightarrow>
         let job = \<lparr> xj_ExportID = exportID, xj_TenantID = tenantID, xj_Status = ''succeeded'', xj_Request = x, xj_Manifest = manifest,
               xj_CreatedAt = now, xj_UpdatedAt = now \<rparr>
         in (export_insert exportID job s, Inr job))"

definition export_Get :: "export_store \<Rightarrow> string \<Rightarrow> string \<Rightarrow> export_job option" where
  "export_Get s tenantID exportID = (case xt_jobs s exportID of
       None \<Rightarrow> None
     | Some job \<Rightarrow> if xj_TenantID job \<noteq> tenantID then None else Some job)"

section \<open>Handlers\<close>

definition export_request_names :: "string list" where
  "export_request_names = [''query_type'', ''format'', ''cluster_id'', ''start'', ''end'', ''group_by'']"

definition export_request_put :: "string \<Rightarrow> json \<Rightarrow> export_request \<Rightarrow> export_request option" where
  "export_request_put n v c =
     (if n = ''query_type'' then map_option (\<lambda>x. c\<lparr> xr_QueryType := x \<rparr>) (into_string v (xr_QueryType c))
      else if n = ''format'' then map_option (\<lambda>x. c\<lparr> xr_Format := x \<rparr>) (into_string v (xr_Format c))
      else if n = ''cluster_id'' then map_option (\<lambda>x. c\<lparr> xr_ClusterID := x \<rparr>) (into_string v (xr_ClusterID c))
      else if n = ''start'' then map_option (\<lambda>x. c\<lparr> xr_Start := x \<rparr>) (into_string v (xr_Start c))
      else if n = ''end'' then map_option (\<lambda>x. c\<lparr> xr_End := x \<rparr>) (into_string v (xr_End c))
      else map_option (\<lambda>x. c\<lparr> xr_GroupBy := x \<rparr>) (into_string v (xr_GroupBy c)))"

text \<open>The decoder reports \<^verbatim>\<open>io.EOF\<close> for a body of white space that fits the limit.\<close>

definition body_empty :: "string \<Rightarrow> bool" where
  "body_empty body = (length body \<le> 1048576 \<and> list_all json_space body)"

definition decodeExportRequest :: "string \<Rightarrow> 'a response + export_request" where
  "decodeExportRequest body = (case decode_body export_request_names export_request_put
       \<lparr> xr_QueryType = [], xr_Format = [], xr_ClusterID = [], xr_Start = [], xr_End = [], xr_GroupBy = [] \<rparr> body of
       None \<Rightarrow> Inl (if body_empty body then invalid ''request body is required'' else invalid ''request body must be valid export JSON'')
     | Some req \<Rightarrow> Inr req)"

definition exportSpec :: "export_request \<Rightarrow> 'a response + export_spec" where
  "exportSpec req =
     (let queryType = TrimSpace (xr_QueryType req) in
      if queryType \<notin> set [''usage'', ''costs'', ''allocation''] then Inl (invalid ''query_type must be one of usage, costs, allocation'')
      else let f = ToLower (TrimSpace (xr_Format req)); format = (if f = [] then ''json'' else f) in
        if format \<notin> set [''json'', ''csv'', ''parquet''] then Inl (invalid ''format must be one of json, csv, parquet'')
        else case parseRequiredTime (xr_Start req) ''start'' of
            Inl e \<Rightarrow> Inl (invalid e)
          | Inr start \<Rightarrow> (case parseRequiredTime (xr_End req) ''end'' of
                Inl e \<Rightarrow> Inl (invalid e)
              | Inr end' \<Rightarrow>
                  if \<not> start < end' then Inl (invalid ''start must be before end'')
                  else let g = TrimSpace (xr_GroupBy req) in
                    Inr \<lparr> xs_QueryType = queryType, xs_Format = format, xs_ClusterID = TrimSpace (xr_ClusterID req), xs_Start = start, xs_End = end',
                      xs_GroupBy = (if g = [] then ''namespace'' else g) \<rparr>))"

definition createExport :: "api_env \<Rightarrow> string \<Rightarrow> request \<Rightarrow> string \<Rightarrow> export_store \<Rightarrow> export_store \<times> export_job response" where
  "createExport E exportID r body s = (case authenticatedTenant (ae_getenv E) (ae_now E) r of
       Inl resp \<Rightarrow> (s, resp)
     | Inr tenantID \<Rightarrow> (case decodeExportRequest body of
           Inl resp \<Rightarrow> (s, resp)
         | Inr req \<Rightarrow> (case exportSpec req of
               Inl resp \<Rightarrow> (s, resp)
             | Inr x \<Rightarrow> (case export_Create exportID tenantID x (ae_clock E 0) s of
                   (s', Inl e) \<Rightarrow> (s', Problem 500 ''export_failed'' ''create export job failed'')
                 | (s', Inr job) \<Rightarrow> (s', JSON 202 job)))))"

definition getExport :: "api_env \<Rightarrow> request \<Rightarrow> string \<Rightarrow> export_store \<Rightarrow> export_job response" where
  "getExport E r pathValue s = (case authenticatedTenant (ae_getenv E) (ae_now E) r of
       Inl resp \<Rightarrow> resp
     | Inr tenantID \<Rightarrow>
         let exportID = TrimSpace pathValue in
         if exportID = [] then invalid ''export_id is required''
         else case export_Get s tenantID exportID of
             None \<Rightarrow> Problem 404 ''not_found'' ''export job not found''
           | Some job \<Rightarrow> JSON 200 job)"

section \<open>The store keeps the contract\<close>

lemma export_evictLocked_spec:
  "0 < mx \<Longrightarrow> export_evictLocked mx order jobs =
     (drop (length order - nat mx) order, \<lambda>k. if k \<in> set (take (length order - nat mx) order) then None else jobs k)"
proof (induction mx order jobs rule: export_evictLocked.induct)
  case (2 mx oldest order jobs)
  show ?case
  proof (cases "int (length (oldest # order)) > mx")
    case True
    then have "length (oldest # order) - nat mx = Suc (length order - nat mx)" by simp
    then show ?thesis
      using 2(1) [OF True 2(2)] True by (simp only: export_evictLocked.simps if_True drop_Suc_Cons take_Suc_Cons) (auto simp: fun_eq_iff)
  qed simp
qed simp

interpretation exports: bounded_store xt_maxJobs xt_order xt_jobs export_insert export_Get xj_TenantID
proof
  fix s k j k'
  show "xt_maxJobs (export_insert k j s) = xt_maxJobs s" by (simp add: export_insert_def split: prod.splits)
  assume l: "0 < xt_maxJobs s"
  show "xt_order (export_insert k j s) = drop (Suc (length (xt_order s)) - nat (xt_maxJobs s)) (xt_order s @ [k])"
    by (simp add: export_insert_def export_evictLocked_spec [OF l])
  show "xt_jobs (export_insert k j s) k' =
      (if k' \<in> set (take (Suc (length (xt_order s)) - nat (xt_maxJobs s)) (xt_order s @ [k])) then None else if k' = k then Some j else xt_jobs s k')"
    by (simp add: export_insert_def export_evictLocked_spec [OF l])
next
  fix s t k
  show "export_Get s t k = (case xt_jobs s k of None \<Rightarrow> None | Some j \<Rightarrow> if xj_TenantID j = t then Some j else None)"
    by (simp add: export_Get_def split: option.splits)
qed

text \<open>Every request leaves the store well formed, and a job that was accepted can be read back by its tenant, and by no other.\<close>

lemma createExport_cases:
  "createExport E k r body s = (s', resp) \<Longrightarrow> s' = s \<or> (\<exists>job. resp = JSON 202 job \<and> xj_ExportID job = k \<and> s' = export_insert k job s)"
  by (auto simp: createExport_def export_Create_def Let_def split: sum.splits prod.splits)

lemma createExport_ok:
  assumes "exports.store_ok s" "k \<notin> set (xt_order s)" "createExport E k r body s = (s', resp)"
  shows "exports.store_ok s'" and "resp = JSON 202 job \<Longrightarrow> s' = export_insert k job s \<Longrightarrow> export_Get s' t k = (if t = xj_TenantID job then Some job else None)"
proof -
  show "exports.store_ok s'" using createExport_cases [OF assms(3)] exports.add_keeps(1) [OF assms(1,2)] assms(1) by auto
  assume "resp = JSON 202 job" "s' = export_insert k job s"
  then have g: "export_Get s' (xj_TenantID job) k = Some job" using exports.add_keeps(2) [OF assms(1,2), of job] by simp
  then have "xt_jobs s' k = Some job" by (simp add: export_Get_def split: option.splits if_splits)
  then show "export_Get s' t k = (if t = xj_TenantID job then Some job else None)" by (simp add: export_Get_def)
qed

lemma exportSpec_valid:
  "exportSpec req = Inr x \<Longrightarrow> xs_Start x < xs_End x \<and> xs_QueryType x \<in> set [''usage'', ''costs'', ''allocation''] \<and>
     xs_Format x \<in> set [''json'', ''csv'', ''parquet''] \<and> xs_GroupBy x \<noteq> []"
  by (auto simp: exportSpec_def Let_def split: if_splits sum.splits)

end
