(* ===== verification/Workflow.thy ===== *)
theory Workflow
  imports Recommendations Query_Json
begin

text \<open>
  The workflow service (\<^verbatim>\<open>services/workflow\<close>): commands that approve, reject, suppress or execute the recommendations the recommendation engine has
  stored.  The state is the two tables \<^verbatim>\<open>kube_cost.recommendation\<close>, whose rows are the facts of the engine, and \<^verbatim>\<open>kube_cost.recommendation_action\<close>,
  as lists in the order of insertion.  What \<^verbatim>\<open>SELECT ... FINAL\<close> reads, the decimal library, the identifiers and the encoding of the free-form details
  are arguments.
\<close>

section \<open>Types\<close>

record wf_recommendation =
  wr_TenantID :: string
  wr_RecommendationID :: string
  wr_ClusterID :: string
  wr_NamespaceUID :: string
  wr_TargetKind :: string
  wr_TargetUID :: string
  wr_RecommendationType :: string
  wr_SafetyClass :: string
  wr_Status :: string
  wr_AnalysisWindowStart :: gotime
  wr_AnalysisWindowEnd :: gotime
  wr_GeneratedAt :: gotime
  wr_ExpiresAt :: gotime
  wr_CurrentConfiguration :: string
  wr_ProposedConfiguration :: string
  wr_Evidence :: string
  wr_Currency :: string
  wr_MonthlyGrossSavings :: string
  wr_MonthlyNetSavings :: string
  wr_Confidence :: string
  wr_RiskScore :: string
  wr_PolicyVersion :: string
  wr_ModelVersion :: string
  wr_ComputationVersion :: string
  wr_Version :: u64

record wf_request =
  wq_ActorID :: string
  wq_Reason :: string
  wq_ExpectedVersion :: u64
  wq_Details :: "(string \<times> json) list option"

record wf_command =
  wc_TenantID :: string
  wc_RecommendationID :: string
  wc_Action :: string
  wc_NextStatus :: string
  wc_ActorID :: string
  wc_Reason :: string
  wc_ExpectedVersion :: u64
  wc_Details :: "(string \<times> json) list option"
  wc_OccurredAt :: gotime

record wf_action =
  wa_TenantID :: string
  wa_RecommendationID :: string
  wa_ActionID :: string
  wa_Action :: string
  wa_ExecutionID :: string
  wa_Status :: string
  wa_OccurredAt :: gotime

record wf_execution =
  wx_ExecutionID :: string
  wx_TenantID :: string
  wx_RecommendationID :: string
  wx_ActionID :: string
  wx_ClusterID :: string
  wx_NamespaceUID :: string
  wx_TargetKind :: string
  wx_TargetUID :: string
  wx_RecommendationType :: string
  wx_SafetyClass :: string
  wx_PolicyVersion :: string
  wx_CurrentConfiguration :: string
  wx_ProposedConfiguration :: string
  wx_Evidence :: string
  wx_RequestedAt :: gotime
  wx_Status :: string

record wf_result =
  ww_Recommendation :: wf_recommendation
  ww_Action :: wf_action
  ww_ExecutionRequest :: "wf_execution option"

text \<open>A row of the action table.\<close>

record wf_action_row =
  wt_Action :: wf_action
  wt_ActorType :: string
  wt_ActorID :: string
  wt_Reason :: string
  wt_Details :: string

record 'd wf_state =
  ws_rows :: "'d recommendation_fact list"
  ws_actions :: "wf_action_row list"

datatype wf_error = WNotFound | WVersionConflict | WInvalidTransition string string | WFailed error | WPanic

text \<open>The libraries: \<^verbatim>\<open>Decimal.String\<close>, \<^verbatim>\<open>decimal.NewFromString\<close> and the encoding of decoded JSON.  A failed \<^verbatim>\<open>Send\<close> says whether the row arrived all the
  same.\<close>

record 'd wf_lib =
  wl_String :: "'d \<Rightarrow> string"
  wl_Parse :: "string \<Rightarrow> 'd option"
  wl_Marshal :: "(string \<times> json) list option \<Rightarrow> string"
  wl_read :: "'d recommendation_fact list \<Rightarrow> string \<Rightarrow> string \<Rightarrow> 'd recommendation_fact option"

record wf_batch =
  wb_prepare :: "error option"
  wb_append :: "error option"
  wb_send :: "(error \<times> bool) option"

record wf_env =
  we_query :: "error option"
  we_rows :: "error option"
  we_scan :: "error option"
  we_ActionID :: string
  we_ExecutionID :: string
  we_recommendation :: wf_batch
  we_action :: wf_batch

section \<open>Commands\<close>

definition transitionAllowed :: "string \<Rightarrow> string \<Rightarrow> bool" where
  "transitionAllowed current next =
     (if next = ''approved'' then current = ''open'' \<or> current = ''acknowledged''
      else if next = ''rejected'' \<or> next = ''suppressed'' then current = ''open'' \<or> current = ''acknowledged'' \<or> current = ''approved''
      else if next = ''executing'' then current = ''approved''
      else False)"

definition wf_scanRecommendation :: "'d wf_lib \<Rightarrow> 'd recommendation_fact \<Rightarrow> wf_recommendation" where
  "wf_scanRecommendation L f =
     \<lparr> wr_TenantID = rf_TenantID f, wr_RecommendationID = rf_RecommendationID f, wr_ClusterID = rf_ClusterID f, wr_NamespaceUID = rf_NamespaceUID f,
       wr_TargetKind = rf_TargetKind f, wr_TargetUID = rf_TargetUID f, wr_RecommendationType = rf_RecommendationType f, wr_SafetyClass = rf_SafetyClass f,
       wr_Status = rf_Status f, wr_AnalysisWindowStart = rf_AnalysisWindowStart f, wr_AnalysisWindowEnd = rf_AnalysisWindowEnd f,
       wr_GeneratedAt = rf_GeneratedAt f, wr_ExpiresAt = rf_ExpiresAt f, wr_CurrentConfiguration = rf_CurrentConfiguration f,
       wr_ProposedConfiguration = rf_ProposedConfig f, wr_Evidence = rf_Evidence f, wr_Currency = rf_Currency f,
       wr_MonthlyGrossSavings = wl_String L (rf_MonthlyGrossSavings f), wr_MonthlyNetSavings = wl_String L (rf_MonthlyNetSavings f),
       wr_Confidence = wl_String L (rf_Confidence f), wr_RiskScore = wl_String L (rf_RiskScore f), wr_PolicyVersion = rf_PolicyVersion f,
       wr_ModelVersion = rf_ModelVersion f, wr_ComputationVersion = rf_ComputationVersion f, wr_Version = rf_Version f \<rparr>"

text \<open>\<^verbatim>\<open>RequireFromString\<close> panics on a text that is no decimal.\<close>

definition recommendationRow :: "'d wf_lib \<Rightarrow> wf_recommendation \<Rightarrow> 'd recommendation_fact option" where
  "recommendationRow L r = (case (wl_Parse L (wr_MonthlyGrossSavings r), wl_Parse L (wr_MonthlyNetSavings r), wl_Parse L (wr_Confidence r), wl_Parse L (wr_RiskScore r)) of
       (Some gross, Some net, Some confidence, Some risk) \<Rightarrow> Some
         \<lparr> rf_TenantID = wr_TenantID r, rf_RecommendationID = wr_RecommendationID r, rf_ClusterID = wr_ClusterID r, rf_NamespaceUID = wr_NamespaceUID r,
           rf_TargetKind = wr_TargetKind r, rf_TargetUID = wr_TargetUID r, rf_RecommendationType = wr_RecommendationType r, rf_SafetyClass = wr_SafetyClass r,
           rf_Status = wr_Status r, rf_AnalysisWindowStart = wr_AnalysisWindowStart r, rf_AnalysisWindowEnd = wr_AnalysisWindowEnd r,
           rf_GeneratedAt = wr_GeneratedAt r, rf_ExpiresAt = wr_ExpiresAt r, rf_CurrentConfiguration = wr_CurrentConfiguration r,
           rf_ProposedConfig = wr_ProposedConfiguration r, rf_Evidence = wr_Evidence r, rf_Currency = wr_Currency r, rf_MonthlyGrossSavings = gross,
           rf_MonthlyNetSavings = net, rf_Confidence = confidence, rf_RiskScore = risk, rf_PolicyVersion = wr_PolicyVersion r,
           rf_ModelVersion = wr_ModelVersion r, rf_ComputationVersion = wr_ComputationVersion r, rf_Version = wr_Version r \<rparr>
     | _ \<Rightarrow> None)"

definition wf_recommendation_of :: "'d wf_lib \<Rightarrow> wf_env \<Rightarrow> string \<Rightarrow> string \<Rightarrow> 'd wf_state \<Rightarrow> wf_error + wf_recommendation" where
  "wf_recommendation_of L E tenantID recID s = (case we_query E of
       Some e \<Rightarrow> Inl (WFailed (''query recommendation: '' @ e))
     | None \<Rightarrow> (case we_rows E of
           Some e \<Rightarrow> Inl (WFailed (''read recommendation row: '' @ e))
         | None \<Rightarrow> (case wl_read L (ws_rows s) tenantID recID of
               None \<Rightarrow> Inl WNotFound
             | Some f \<Rightarrow> (case we_scan E of
                   Some e \<Rightarrow> Inl (WFailed (''scan recommendation row: '' @ e))
                 | None \<Rightarrow> Inr (wf_scanRecommendation L f)))))"

definition executionRequestFor :: "wf_env \<Rightarrow> wf_recommendation \<Rightarrow> wf_action \<Rightarrow> gotime \<Rightarrow> wf_execution" where
  "executionRequestFor E r action requestedAt =
     \<lparr> wx_ExecutionID = we_ExecutionID E, wx_TenantID = wr_TenantID r, wx_RecommendationID = wr_RecommendationID r, wx_ActionID = wa_ActionID action,
       wx_ClusterID = wr_ClusterID r, wx_NamespaceUID = wr_NamespaceUID r, wx_TargetKind = wr_TargetKind r, wx_TargetUID = wr_TargetUID r,
       wx_RecommendationType = wr_RecommendationType r, wx_SafetyClass = wr_SafetyClass r, wx_PolicyVersion = wr_PolicyVersion r,
       wx_CurrentConfiguration = wr_CurrentConfiguration r, wx_ProposedConfiguration = wr_ProposedConfiguration r, wx_Evidence = wr_Evidence r,
       wx_RequestedAt = requestedAt, wx_Status = ''pending_executor'' \<rparr>"

definition execution_json :: "wf_execution \<Rightarrow> json result" where
  "execution_json x = obj ([str_field ''execution_id'' (wx_ExecutionID x), str_field ''tenant_id'' (wx_TenantID x),
     str_field ''recommendation_id'' (wx_RecommendationID x), str_field ''action_id'' (wx_ActionID x), str_field ''cluster_id'' (wx_ClusterID x)]
     @ omit_empty ''namespace_uid'' (wx_NamespaceUID x)
     @ [str_field ''target_kind'' (wx_TargetKind x), str_field ''target_uid'' (wx_TargetUID x), str_field ''recommendation_type'' (wx_RecommendationType x),
        str_field ''safety_class'' (wx_SafetyClass x)] @ omit_empty ''policy_version'' (wx_PolicyVersion x)
     @ [str_field ''current_configuration'' (wx_CurrentConfiguration x), str_field ''proposed_configuration'' (wx_ProposedConfiguration x),
        str_field ''evidence'' (wx_Evidence x), time_field ''requested_at'' (wx_RequestedAt x), str_field ''status'' (wx_Status x)])"

definition actionDetails :: "'d wf_lib \<Rightarrow> wf_command \<Rightarrow> wf_execution option \<Rightarrow> string result" where
  "actionDetails L c x = (case x of
       None \<Rightarrow> Inr (wl_Marshal L (wc_Details c))
     | Some request \<Rightarrow> (case execution_json request of
           Inl e \<Rightarrow> Inl e
         | Inr v \<Rightarrow> Inr (wl_Marshal L (Some (filter (\<lambda>(k, _). k \<noteq> ''execution_request'') (case wc_Details c of None \<Rightarrow> [] | Some ds \<Rightarrow> ds)
             @ [(''execution_request'', v)])))))"

text \<open>Preparing, appending and sending one row; the flag says whether it arrived.\<close>

definition send_row :: "string \<Rightarrow> wf_batch \<Rightarrow> error option \<times> bool" where
  "send_row name b = (case wb_prepare b of
       Some e \<Rightarrow> (Some (''prepare '' @ name @ '' batch: '' @ e), False)
     | None \<Rightarrow> (case wb_append b of
           Some e \<Rightarrow> (Some (''append '' @ name @ '' row: '' @ e), False)
         | None \<Rightarrow> (case wb_send b of
               Some (e, arrived) \<Rightarrow> (Some (''send '' @ name @ '' batch: '' @ e), arrived)
             | None \<Rightarrow> (None, True))))"

definition insertRecommendation :: "'d wf_lib \<Rightarrow> wf_env \<Rightarrow> wf_recommendation \<Rightarrow> 'd wf_state \<Rightarrow> 'd wf_state \<times> wf_error option" where
  "insertRecommendation L E r s = (case wb_prepare (we_recommendation E) of
       Some e \<Rightarrow> (s, Some (WFailed (''prepare recommendation batch: '' @ e)))
     | None \<Rightarrow> (case recommendationRow L r of
           None \<Rightarrow> (s, Some WPanic)
         | Some f \<Rightarrow> (case send_row ''recommendation'' (we_recommendation E) of
               (err, arrived) \<Rightarrow> (if arrived then s\<lparr> ws_rows := ws_rows s @ [f] \<rparr> else s, map_option WFailed err))))"

definition insertAction :: "'d wf_lib \<Rightarrow> wf_env \<Rightarrow> wf_command \<Rightarrow> wf_action \<Rightarrow> wf_execution option \<Rightarrow> 'd wf_state \<Rightarrow> 'd wf_state \<times> wf_error option" where
  "insertAction L E c action x s = (case actionDetails L c x of
       Inl e \<Rightarrow> (s, Some (WFailed (''encode action details: '' @ e)))
     | Inr details \<Rightarrow> (case send_row ''recommendation action'' (we_action E) of
           (err, arrived) \<Rightarrow>
             (if arrived then s\<lparr> ws_actions := ws_actions s @ [\<lparr> wt_Action = action, wt_ActorType = ''user'', wt_ActorID = wc_ActorID c, wt_Reason = wc_Reason c,
                wt_Details = details \<rparr>] \<rparr> else s, map_option WFailed err)))"

text \<open>The decision on what was read, then the two inserts.\<close>

definition decide :: "wf_command \<Rightarrow> wf_recommendation \<Rightarrow> wf_error + wf_recommendation" where
  "decide c current =
     (if wc_ExpectedVersion c \<noteq> 0 \<and> wc_ExpectedVersion c \<noteq> wr_Version current then Inl WVersionConflict
      else if \<not> transitionAllowed (wr_Status current) (wc_NextStatus c) then Inl (WInvalidTransition (wr_Status current) (wc_NextStatus c))
      else Inr (current\<lparr> wr_Status := wc_NextStatus c, wr_Version := of_int (wc_OccurredAt c) \<rparr>))"

definition record_command :: "'d wf_lib \<Rightarrow> wf_env \<Rightarrow> wf_command \<Rightarrow> wf_recommendation \<Rightarrow> wf_recommendation \<Rightarrow> 'd wf_state \<Rightarrow> 'd wf_state \<times> (wf_error + wf_result)" where
  "record_command L E c current updated s =
     (let action = \<lparr> wa_TenantID = wc_TenantID c, wa_RecommendationID = wc_RecommendationID c, wa_ActionID = we_ActionID E, wa_Action = wc_Action c,
            wa_ExecutionID = [], wa_Status = ''recorded'', wa_OccurredAt = wc_OccurredAt c \<rparr>;
          request = (if wc_Action c = ''request_execution'' then Some (executionRequestFor E current action (wc_OccurredAt c)) else None);
          action = (case request of None \<Rightarrow> action | Some x \<Rightarrow> action\<lparr> wa_ExecutionID := wx_ExecutionID x, wa_Status := ''handoff_requested'' \<rparr>)
      in case insertRecommendation L E updated s of
          (s1, Some e) \<Rightarrow> (s1, Inl e)
        | (s1, None) \<Rightarrow> (case insertAction L E c action request s1 of
              (s2, Some e) \<Rightarrow> (s2, Inl e)
            | (s2, None) \<Rightarrow> (s2, Inr \<lparr> ww_Recommendation = updated, ww_Action = action, ww_ExecutionRequest = request \<rparr>)))"

definition ApplyCommand :: "'d wf_lib \<Rightarrow> wf_env \<Rightarrow> wf_command \<Rightarrow> 'd wf_state \<Rightarrow> 'd wf_state \<times> (wf_error + wf_result)" where
  "ApplyCommand L E c s = (case wf_recommendation_of L E (wc_TenantID c) (wc_RecommendationID c) s of
       Inl e \<Rightarrow> (s, Inl e)
     | Inr current \<Rightarrow> (case decide c current of
           Inl e \<Rightarrow> (s, Inl e)
         | Inr updated \<Rightarrow> record_command L E c current updated s))"

section \<open>Handlers\<close>

definition into_u64 :: "json \<Rightarrow> u64 \<Rightarrow> u64 option" where
  "into_u64 v old = (case v of
       JNum n \<Rightarrow> if n \<noteq> [] \<and> list_all is_digit n \<and> atoi n < 2 ^ 64 then Some (of_nat (atoi n)) else None
     | JNull \<Rightarrow> Some old
     | _ \<Rightarrow> None)"

text \<open>A JSON object into a map: later members win, \<^verbatim>\<open>null\<close> is the nil map.  The decoder also refuses numbers no \<^verbatim>\<open>float64\<close> can hold, which is left out.\<close>

definition into_map :: "json \<Rightarrow> (string \<times> json) list option \<Rightarrow> (string \<times> json) list option option" where
  "into_map v old = (case v of
       JObj fs \<Rightarrow> Some (Some (fold (\<lambda>(k, x) m. filter (\<lambda>(k', _). k' \<noteq> k) m @ [(k, x)]) fs (case old of None \<Rightarrow> [] | Some m \<Rightarrow> m)))
     | JNull \<Rightarrow> Some None
     | _ \<Rightarrow> None)"

definition wf_request_names :: "string list" where
  "wf_request_names = [''actor_id'', ''reason'', ''expected_version'', ''details'']"

definition wf_request_put :: "string \<Rightarrow> json \<Rightarrow> wf_request \<Rightarrow> wf_request option" where
  "wf_request_put n v c =
     (if n = ''actor_id'' then map_option (\<lambda>x. c\<lparr> wq_ActorID := x \<rparr>) (into_string v (wq_ActorID c))
      else if n = ''reason'' then map_option (\<lambda>x. c\<lparr> wq_Reason := x \<rparr>) (into_string v (wq_Reason c))
      else if n = ''expected_version'' then map_option (\<lambda>x. c\<lparr> wq_ExpectedVersion := x \<rparr>) (into_u64 v (wq_ExpectedVersion c))
      else map_option (\<lambda>x. c\<lparr> wq_Details := x \<rparr>) (into_map v (wq_Details c)))"

text \<open>A body of white space, or none, is the empty request.\<close>

definition decodeCommandRequest :: "string \<Rightarrow> 'a response + wf_request" where
  "decodeCommandRequest body =
     (let zero = \<lparr> wq_ActorID = [], wq_Reason = [], wq_ExpectedVersion = 0, wq_Details = None \<rparr> in
      if list_all json_space body then Inr zero
      else case Option.bind (decode_json body) (\<lambda>v. into_struct True wf_request_names wf_request_put v zero) of
          None \<Rightarrow> Inl (Problem 400 ''invalid_request'' ''request body must be valid JSON'')
        | Some req \<Rightarrow> Inr (req\<lparr> wq_ActorID := TrimSpace (wq_ActorID req), wq_Reason := TrimSpace (wq_Reason req) \<rparr>))"

text \<open>A panic ends the request without an answer.\<close>

definition writeCommandError :: "wf_error \<Rightarrow> 'a response option" where
  "writeCommandError e = (case e of
       WNotFound \<Rightarrow> Some (Problem 404 ''not_found'' ''recommendation not found'')
     | WVersionConflict \<Rightarrow> Some (Problem 409 ''version_conflict'' ''recommendation version does not match expected_version'')
     | WInvalidTransition _ _ \<Rightarrow> Some (Problem 409 ''invalid_transition'' ''recommendation status does not allow this transition'')
     | WFailed _ \<Rightarrow> Some (Problem 500 ''command_failed'' ''recommendation workflow command failed'')
     | WPanic \<Rightarrow> None)"

definition wf_handle :: "'d wf_lib \<Rightarrow> wf_env \<Rightarrow> api_env \<Rightarrow> request \<Rightarrow> string \<Rightarrow> string \<Rightarrow> string \<Rightarrow> string \<Rightarrow> 'd wf_state \<Rightarrow> 'd wf_state \<times> wf_result response option" where
  "wf_handle L E A r pathValue body action nextStatus s = (case authenticatedTenant (ae_getenv A) (ae_now A) r of
       Inl resp \<Rightarrow> (s, Some resp)
     | Inr tenantID \<Rightarrow>
         let recID = TrimSpace pathValue in
         if recID = [] then (s, Some (Problem 400 ''invalid_request'' ''recommendation_id is required''))
         else case decodeCommandRequest body of
             Inl resp \<Rightarrow> (s, Some resp)
           | Inr req \<Rightarrow> (case ApplyCommand L E \<lparr> wc_TenantID = tenantID, wc_RecommendationID = recID, wc_Action = action,
                 wc_NextStatus = nextStatus, wc_ActorID = wq_ActorID req, wc_Reason = wq_Reason req, wc_ExpectedVersion = wq_ExpectedVersion req,
                 wc_Details = wq_Details req, wc_OccurredAt = ae_clock A 0 \<rparr> s of
               (s', Inl e) \<Rightarrow> (s', writeCommandError e)
             | (s', Inr res) \<Rightarrow> (s', Some (JSON 200 res))))"

definition approve :: "'d wf_lib \<Rightarrow> wf_env \<Rightarrow> api_env \<Rightarrow> request \<Rightarrow> string \<Rightarrow> string \<Rightarrow> 'd wf_state \<Rightarrow> 'd wf_state \<times> wf_result response option" where
  "approve L E A r p body = wf_handle L E A r p body ''approve'' ''approved''"

definition reject :: "'d wf_lib \<Rightarrow> wf_env \<Rightarrow> api_env \<Rightarrow> request \<Rightarrow> string \<Rightarrow> string \<Rightarrow> 'd wf_state \<Rightarrow> 'd wf_state \<times> wf_result response option" where
  "reject L E A r p body = wf_handle L E A r p body ''reject'' ''rejected''"

definition suppress :: "'d wf_lib \<Rightarrow> wf_env \<Rightarrow> api_env \<Rightarrow> request \<Rightarrow> string \<Rightarrow> string \<Rightarrow> 'd wf_state \<Rightarrow> 'd wf_state \<times> wf_result response option" where
  "suppress L E A r p body = wf_handle L E A r p body ''suppress'' ''suppressed''"

definition execute :: "'d wf_lib \<Rightarrow> wf_env \<Rightarrow> api_env \<Rightarrow> request \<Rightarrow> string \<Rightarrow> string \<Rightarrow> 'd wf_state \<Rightarrow> 'd wf_state \<times> wf_result response option" where
  "execute L E A r p body = wf_handle L E A r p body ''request_execution'' ''executing''"

definition wf_health :: "error option \<Rightarrow> unit response" where
  "wf_health ping = (case ping of Some e \<Rightarrow> Problem 503 ''dependency_unavailable'' ''clickhouse unavailable'' | None \<Rightarrow> JSON 200 ())"

section \<open>The history of a recommendation\<close>

text \<open>Its rows in the order of insertion.  \<^verbatim>\<open>ReplacingMergeTree\<close> with \<^verbatim>\<open>FINAL\<close> keeps of the rows with the same sorting key one of the greatest version; the
  decimal library reads back what it has printed.\<close>

definition matches :: "string \<Rightarrow> string \<Rightarrow> 'd recommendation_fact \<Rightarrow> bool" where
  "matches t k f = (rf_TenantID f = t \<and> rf_RecommendationID f = k)"

definition history :: "'d recommendation_fact list \<Rightarrow> string \<Rightarrow> string \<Rightarrow> 'd recommendation_fact list" where
  "history rows t k = filter (matches t k) rows"

definition sorting_key :: "'d recommendation_fact \<Rightarrow> string list" where
  "sorting_key f = [rf_TenantID f, rf_ClusterID f, rf_RecommendationType f, rf_TargetKind f, rf_TargetUID f, rf_RecommendationID f]"

definition reads_final :: "'d wf_lib \<Rightarrow> bool" where
  "reads_final L = (\<forall>rows t k. case wl_read L rows t k of
       None \<Rightarrow> history rows t k = []
     | Some f \<Rightarrow> f \<in> set (history rows t k) \<and> (\<forall>g \<in> set (history rows t k). sorting_key g = sorting_key f \<longrightarrow> rf_Version g \<le> rf_Version f))"

definition decimals_ok :: "'d wf_lib \<Rightarrow> bool" where
  "decimals_ok L = (\<forall>d. wl_Parse L (wl_String L d) = Some d)"

text \<open>A row follows another when a command turned the one into the other.\<close>

definition follows :: "'d recommendation_fact \<Rightarrow> 'd recommendation_fact \<Rightarrow> bool" where
  "follows f g = (transitionAllowed (rf_Status f) (rf_Status g) \<and> rf_Version f < rf_Version g \<and>
     g = f\<lparr> rf_Status := rf_Status g, rf_Version := rf_Version g \<rparr>)"

definition history_ok :: "'d recommendation_fact list \<Rightarrow> bool" where
  "history_ok h = (successively follows h \<and> (h \<noteq> [] \<longrightarrow> rf_Status (hd h) = ''open''))"

definition wf_inv :: "'d wf_state \<Rightarrow> bool" where
  "wf_inv s = (\<forall>t k. history_ok (history (ws_rows s) t k))"

text \<open>Runs: the engine stores recommendations under identifiers that are not in the table yet; a command comes at a time after every version in the table.\<close>

inductive wreach :: "'d wf_lib \<Rightarrow> 'd wf_state \<Rightarrow> bool" for L where
  wr_init: "wreach L \<lparr> ws_rows = [], ws_actions = [] \<rparr>"
| wr_save: "wreach L s \<Longrightarrow> fs = recommendationFacts uuid5 newFromFloat recs now \<Longrightarrow> distinct (map (\<lambda>f. (rf_TenantID f, rf_RecommendationID f)) fs) \<Longrightarrow>
    \<forall>f \<in> set fs. history (ws_rows s) (rf_TenantID f) (rf_RecommendationID f) = [] \<Longrightarrow> wreach L (s\<lparr> ws_rows := ws_rows s @ fs \<rparr>)"
| wr_command: "wreach L s \<Longrightarrow> \<forall>f \<in> set (ws_rows s). rf_Version f < of_int (wc_OccurredAt c) \<Longrightarrow> ApplyCommand L E c s = (s', res) \<Longrightarrow> wreach L s'"

lemma row_of_scan:
  "decimals_ok L \<Longrightarrow> recommendationRow L ((wf_scanRecommendation L f)\<lparr> wr_Status := st, wr_Version := v \<rparr>) = Some (f\<lparr> rf_Status := st, rf_Version := v \<rparr>)"
  by (simp add: recommendationRow_def wf_scanRecommendation_def decimals_ok_def)

lemma insertAction_rows: "ws_rows (fst (insertAction L E c a x s)) = ws_rows s"
  by (simp add: insertAction_def split: sum.split prod.split)

lemma insertRecommendation_rows:
  assumes "recommendationRow L r = Some f"
  shows "ws_rows (fst (insertRecommendation L E r s)) = ws_rows s \<or> ws_rows (fst (insertRecommendation L E r s)) = ws_rows s @ [f]"
  by (simp add: insertRecommendation_def assms split: option.split prod.split)

lemma record_command_rows:
  assumes "recommendationRow L updated = Some f" "record_command L E c current updated s = (s', res)"
  shows "ws_rows s' = ws_rows s \<or> ws_rows s' = ws_rows s @ [f]"
proof -
  obtain s1 e where i: "insertRecommendation L E updated s = (s1, e)" by (cases "insertRecommendation L E updated s")
  have "ws_rows s' = ws_rows s1"
  proof (cases e)
    case None
    then show ?thesis using assms(2) i insertAction_rows [of L E c _ _ s1]
      by (auto simp: record_command_def Let_def split: prod.splits option.splits) (metis fst_conv)+
  next
    case (Some x)
    then show ?thesis using assms(2) i by (simp add: record_command_def Let_def)
  qed
  then show ?thesis using insertRecommendation_rows [OF assms(1), of E s] i by simp
qed

text \<open>A command leaves the table alone or adds the row that follows what it read.\<close>

lemma ApplyCommand_rows:
  assumes "decimals_ok L" "ApplyCommand L E c s = (s', res)"
  shows "ws_rows s' = ws_rows s \<or> (\<exists>f. wl_read L (ws_rows s) (wc_TenantID c) (wc_RecommendationID c) = Some f \<and> transitionAllowed (rf_Status f) (wc_NextStatus c) \<and>
    ws_rows s' = ws_rows s @ [f\<lparr> rf_Status := wc_NextStatus c, rf_Version := of_int (wc_OccurredAt c) \<rparr>])"
proof (cases "wf_recommendation_of L E (wc_TenantID c) (wc_RecommendationID c) s")
  case (Inr current)
  then obtain f where f: "wl_read L (ws_rows s) (wc_TenantID c) (wc_RecommendationID c) = Some f" "current = wf_scanRecommendation L f"
    by (auto simp: wf_recommendation_of_def split: option.splits)
  show ?thesis
  proof (cases "decide c current")
    case (Inr updated)
    then have u: "updated = current\<lparr> wr_Status := wc_NextStatus c, wr_Version := of_int (wc_OccurredAt c) \<rparr>" "transitionAllowed (rf_Status f) (wc_NextStatus c)"
      by (auto simp: decide_def f(2) wf_scanRecommendation_def split: if_splits)
    have "record_command L E c current updated s = (s', res)" using assms(2) Inr \<open>_ = Inr current\<close> by (simp add: ApplyCommand_def)
    then show ?thesis using record_command_rows [OF row_of_scan [OF assms(1), where f = f]] f u by blast
  qed (use assms(2) Inr in \<open>auto simp: ApplyCommand_def\<close>)
qed (use assms(2) in \<open>auto simp: ApplyCommand_def\<close>)

lemma follows_key: "follows f g \<Longrightarrow> rf_Version f < rf_Version g \<and> sorting_key f = sorting_key g"
  unfolding follows_def sorting_key_def by (metis recommendation_fact.select_convs recommendation_fact.update_convs recommendation_fact.surjective)

text \<open>What is read is the last row of the history.\<close>

lemma history_last:
  assumes "successively follows h" "f \<in> set h" "\<forall>g \<in> set h. sorting_key g = sorting_key f \<longrightarrow> rf_Version g \<le> rf_Version f"
  shows "f = last h"
proof -
  let ?R = "\<lambda>a b :: 'a recommendation_fact. rf_Version a < rf_Version b \<and> sorting_key a = sorting_key b"
  have "successively ?R h" using assms(1) by (rule successively_mono) (rule follows_key)
  moreover have "transp ?R" by (rule transpI) auto
  ultimately have s: "sorted_wrt ?R h" by (simp only: successively_conv_sorted_wrt)
  have h: "h = butlast h @ [last h]" using assms(2) by (cases h) auto
  have "\<forall>a \<in> set (butlast h). ?R a (last h)" using s by (subst (asm) h) (simp add: sorted_wrt_append)
  moreover have "f \<in> set (butlast h) \<or> f = last h" using assms(2) by (subst (asm) h) auto
  moreover have "last h \<in> set h" using assms(2) by (cases h) auto
  ultimately show ?thesis using assms(3) by (metis linorder_not_less)
qed

lemma history_keys: "successively follows h \<Longrightarrow> a \<in> set h \<Longrightarrow> sorting_key a = sorting_key (hd h)"
proof (induction h)
  case (Cons f h)
  then show ?case using follows_key [of f "hd h"] by (cases "h = []") (auto simp: successively_Cons)
qed simp

lemma read_last:
  assumes "reads_final L" "wf_inv s" "wl_read L (ws_rows s) t k = Some f"
  shows "history (ws_rows s) t k \<noteq> []" "f = last (history (ws_rows s) t k)" "matches t k f"
proof -
  let ?h = "history (ws_rows s) t k"
  have f: "f \<in> set ?h" "\<forall>g \<in> set ?h. sorting_key g = sorting_key f \<longrightarrow> rf_Version g \<le> rf_Version f"
    using assms(1) [unfolded reads_final_def, rule_format, of "ws_rows s" t k] assms(3) by simp_all
  show "?h \<noteq> []" using f(1) by (cases ?h) simp_all
  show "matches t k f" using f(1) by (simp add: history_def)
  show "f = last ?h" using assms(2) f by (intro history_last) (simp_all add: wf_inv_def history_ok_def)
qed

lemma history_append: "history (rows @ fs) t k = history rows t k @ history fs t k"
  by (simp add: history_def)

lemma command_inv:
  assumes "wf_inv s" "reads_final L" "decimals_ok L" "\<forall>f \<in> set (ws_rows s). rf_Version f < of_int (wc_OccurredAt c)" "ApplyCommand L E c s = (s', res)"
  shows "wf_inv s'"
  using ApplyCommand_rows [OF assms(3,5)]
proof (elim disjE exE conjE)
  assume "ws_rows s' = ws_rows s"
  then show ?thesis using assms(1) by (simp add: wf_inv_def)
next
  fix f
  assume f: "wl_read L (ws_rows s) (wc_TenantID c) (wc_RecommendationID c) = Some f" "transitionAllowed (rf_Status f) (wc_NextStatus c)"
    "ws_rows s' = ws_rows s @ [f\<lparr> rf_Status := wc_NextStatus c, rf_Version := of_int (wc_OccurredAt c) \<rparr>]" (is "_ = _ @ [?g]")
  note r = read_last [OF assms(2,1) f(1)]
  have "f \<in> set (ws_rows s)" using r(1,2) last_in_set by (fastforce simp: history_def)
  then have g: "follows f ?g" using f(2) assms(4) by (simp add: follows_def)
  have "history_ok (history (ws_rows s') t k)" for t k
  proof (cases "matches t k f")
    case True
    then have "t = wc_TenantID c" "k = wc_RecommendationID c" using r(3) by (simp_all add: matches_def)
    moreover have "history [?g] t k = [?g]" using True by (simp add: history_def matches_def)
    moreover have "history_ok (history (ws_rows s) t k)" using assms(1) by (simp add: wf_inv_def)
    ultimately show ?thesis using r g unfolding f(3) history_append history_ok_def by (auto simp: successively_append_iff)
  next
    case False
    then have "history [?g] t k = []" by (simp add: history_def matches_def)
    then show ?thesis using assms(1) unfolding f(3) history_append by (simp add: wf_inv_def)
  qed
  then show ?thesis by (simp add: wf_inv_def)
qed

lemma save_inv:
  assumes "wf_inv s" "distinct (map (\<lambda>f. (rf_TenantID f, rf_RecommendationID f)) fs)" "\<forall>f \<in> set fs. rf_Status f = ''open''"
    "\<forall>f \<in> set fs. history (ws_rows s) (rf_TenantID f) (rf_RecommendationID f) = []"
  shows "wf_inv (s\<lparr> ws_rows := ws_rows s @ fs \<rparr>)"
proof -
  have "history_ok (history (ws_rows s @ fs) t k)" for t k
  proof (cases "history fs t k")
    case Nil
    then show ?thesis using assms(1) by (simp add: history_append wf_inv_def)
  next
    case (Cons f gs)
    have in_fs: "set (history fs t k) \<subseteq> set fs" "\<forall>g \<in> set (history fs t k). (rf_TenantID g, rf_RecommendationID g) = (t, k)" by (auto simp: history_def matches_def)
    have "distinct (map (\<lambda>f. (rf_TenantID f, rf_RecommendationID f)) (history fs t k))" using assms(2) unfolding history_def by (rule distinct_map_filter)
    then have "gs = []" using in_fs(2) unfolding Cons by (cases gs) auto
    moreover have "history (ws_rows s) t k = []" using assms(4) in_fs unfolding Cons by auto
    moreover have "rf_Status f = ''open''" using assms(3) in_fs(1) unfolding Cons by simp
    ultimately show ?thesis by (simp add: history_append Cons history_ok_def)
  qed
  then show ?thesis by (simp add: wf_inv_def)
qed

lemma wreach_inv:
  assumes "wreach L s" "reads_final L" "decimals_ok L" shows "wf_inv s"
  using assms(1)
proof induction
  case wr_init
  then show ?case by (simp add: wf_inv_def history_def history_ok_def)
next
  case (wr_save s fs uuid5 newFromFloat recs now)
  have "\<forall>f \<in> set fs. rf_Status f = ''open''" unfolding wr_save.hyps by (auto simp: recommendationFacts_def recommendationFact_def)
  then show ?case using wr_save by (intro save_inv) simp_all
next
  case (wr_command s c E s' res)
  then show ?case using assms(2,3) by (intro command_inv [of s L c E s' res])
qed

text \<open>A command that is allowed takes effect when the database answers.\<close>

definition quiet_batch :: wf_batch where "quiet_batch = \<lparr> wb_prepare = None, wb_append = None, wb_send = None \<rparr>"

definition quiet_env :: "string \<Rightarrow> string \<Rightarrow> wf_env" where
  "quiet_env actionID executionID = \<lparr> we_query = None, we_rows = None, we_scan = None, we_ActionID = actionID, we_ExecutionID = executionID,
     we_recommendation = quiet_batch, we_action = quiet_batch \<rparr>"

lemma fst_outcome: "fst (case p of (s, None) \<Rightarrow> (s, r) | (s, Some e) \<Rightarrow> (s, q e)) = fst p"
  by (simp split: prod.split option.split)

lemma ApplyCommand_accepts:
  assumes "decimals_ok L" "wl_read L (ws_rows s) (wc_TenantID c) (wc_RecommendationID c) = Some f" "wc_ExpectedVersion c = 0"
    "transitionAllowed (rf_Status f) (wc_NextStatus c)" "we_query E = None" "we_rows E = None" "we_scan E = None" "we_recommendation E = quiet_batch"
  shows "ws_rows (fst (ApplyCommand L E c s)) = ws_rows s @ [f\<lparr> rf_Status := wc_NextStatus c, rf_Version := of_int (wc_OccurredAt c) \<rparr>]"
proof -
  let ?cur = "wf_scanRecommendation L f" let ?upd = "?cur\<lparr> wr_Status := wc_NextStatus c, wr_Version := of_int (wc_OccurredAt c) \<rparr>"
  have "wr_Status ?cur = rf_Status f" by (simp add: wf_scanRecommendation_def)
  then have "decide c ?cur = Inr ?upd" using assms(3,4) by (simp add: decide_def)
  moreover have "wf_recommendation_of L E (wc_TenantID c) (wc_RecommendationID c) s = Inr ?cur" using assms(2,5-7) by (simp add: wf_recommendation_of_def)
  ultimately have a: "ApplyCommand L E c s = record_command L E c ?cur ?upd s" by (simp add: ApplyCommand_def)
  let ?s1 = "s\<lparr> ws_rows := ws_rows s @ [f\<lparr> rf_Status := wc_NextStatus c, rf_Version := of_int (wc_OccurredAt c) \<rparr>] \<rparr>"
  have i: "insertRecommendation L E ?upd s = (?s1, None)" using row_of_scan [OF assms(1)] assms(8) by (simp add: insertRecommendation_def send_row_def quiet_batch_def)
  have "\<exists>action request. fst (record_command L E c ?cur ?upd s) = fst (insertAction L E c action request ?s1)"
    unfolding record_command_def Let_def i prod.case option.case fst_outcome by (intro exI) (rule refl)
  then show ?thesis unfolding a using insertAction_rows [of L E c _ _ ?s1] by auto
qed

section \<open>A library for the instances\<close>

text \<open>Decimals as their texts, and the row of the greatest version, the later one of two equal ones.\<close>

definition newest :: "'d recommendation_fact list \<Rightarrow> 'd recommendation_fact option" where
  "newest h = fold (\<lambda>g m. case m of None \<Rightarrow> Some g | Some f \<Rightarrow> if rf_Version f \<le> rf_Version g then Some g else Some f) h None"

definition text_lib :: "string wf_lib" where
  "text_lib = \<lparr> wl_String = id, wl_Parse = Some, wl_Marshal = (\<lambda>ds. case ds of None \<Rightarrow> ''null'' | Some fs \<Rightarrow> Marshal (JObj fs)),
     wl_read = (\<lambda>rows t k. newest (history rows t k)) \<rparr>"

lemma newest_greatest: "case newest h of None \<Rightarrow> h = [] | Some f \<Rightarrow> f \<in> set h \<and> (\<forall>g \<in> set h. rf_Version g \<le> rf_Version f)"
proof (induction h rule: rev_induct)
  case (snoc g h)
  have "newest (h @ [g]) = (case newest h of None \<Rightarrow> Some g | Some f \<Rightarrow> if rf_Version f \<le> rf_Version g then Some g else Some f)" by (simp add: newest_def)
  then show ?case using snoc by (auto split: option.splits if_splits intro: order_trans)
qed (simp add: newest_def)

lemma text_lib_ok: "reads_final text_lib" "decimals_ok text_lib"
proof -
  have "case newest (history rows t k) of None \<Rightarrow> history rows t k = []
      | Some f \<Rightarrow> f \<in> set (history rows t k) \<and> (\<forall>g \<in> set (history rows t k). sorting_key g = sorting_key f \<longrightarrow> rf_Version g \<le> rf_Version f)"
    for rows :: "string recommendation_fact list" and t k
    using newest_greatest [of "history rows t k"] by (simp split: option.splits)
  then show "reads_final text_lib" by (simp add: reads_final_def text_lib_def)
qed (simp add: decimals_ok_def text_lib_def)

section \<open>Properties\<close>


definition sample_recommendation :: recommendation where
  "sample_recommendation = \<lparr> re_TenantID = ''t'', re_ClusterID = ''c'', re_ScopeType = ''container'', re_ScopeID = ''s'', re_AnalysisWindowStart = 0,
     re_AnalysisWindowEnd = 3600, re_CPUUsageP95Millicores = 20, re_MemoryWorkingSetP99Bytes = 100, re_CurrentCPURequestMillicores = 1020,
     re_RecommendedCPURequestMillicores = 20, re_CurrentMemoryRequestBytes = 100, re_RecommendedMemoryRequestBytes = 100,
     re_CurrentCPULimitMillicores = 0, re_RecommendedCPULimitMillicores = 40, re_CurrentMemoryLimitBytes = 0, re_RecommendedMemoryLimitBytes = 100,
     re_EstimatedMonthlySavingsUSD = 730, re_SampleCount = 1, re_ComputationVersion = [] \<rparr>"

definition sample_fact :: "gotime \<Rightarrow> string recommendation_fact" where
  "sample_fact now = recommendationFact id (\<lambda>_. ''730'') now sample_recommendation"

definition sample_command :: "string \<Rightarrow> string \<Rightarrow> gotime \<Rightarrow> wf_command" where
  "sample_command action st now = \<lparr> wc_TenantID = rf_TenantID (sample_fact 1), wc_RecommendationID = rf_RecommendationID (sample_fact 1), wc_Action = action,
     wc_NextStatus = st, wc_ActorID = [], wc_Reason = [], wc_ExpectedVersion = 0, wc_Details = None, wc_OccurredAt = now \<rparr>"

lemma sample_fact_fields:
  "rf_Status (sample_fact now) = ''open''" "rf_Version (sample_fact now) = of_int now" "matches (rf_TenantID (sample_fact 1)) (rf_RecommendationID (sample_fact 1)) (sample_fact now)"
  "sorting_key (sample_fact now) = sorting_key (sample_fact 1)"
  by (simp_all add: sample_fact_def recommendationFact_def matches_def sorting_key_def)

lemma sample_saved: "\<exists>s. wreach text_lib s \<and> ws_rows s = [sample_fact 1]"
proof -
  have "wreach text_lib (\<lparr> ws_rows = [], ws_actions = [] \<rparr>\<lparr> ws_rows := ws_rows \<lparr> ws_rows = [], ws_actions = [] \<rparr> @ recommendationFacts id (\<lambda>_. ''730'') [sample_recommendation] 1 \<rparr>)"
    by (rule wr_save [OF wr_init refl]) (simp_all add: recommendationFacts_def history_def)
  then show ?thesis by (auto simp: recommendationFacts_def sample_fact_def)
qed

text \<open>One more command on a run whose rows all belong to the sample.\<close>

lemma sample_step:
  assumes "wreach text_lib s" "ws_rows s = hs @ [f]" "\<forall>g \<in> set (hs @ [f]). matches (rf_TenantID (sample_fact 1)) (rf_RecommendationID (sample_fact 1)) g \<and> rf_Version g < of_int now"
    and "\<forall>g \<in> set hs. rf_Version g \<le> rf_Version f" "transitionAllowed (rf_Status f) st"
  shows "\<exists>s'. wreach text_lib s' \<and> ws_rows s' = hs @ [f, f\<lparr> rf_Status := st, rf_Version := of_int now \<rparr>]"
proof -
  let ?c = "sample_command action st now" let ?r = "ApplyCommand text_lib (quiet_env [] []) ?c s"
  have h: "history (hs @ [f]) (wc_TenantID ?c) (wc_RecommendationID ?c) = hs @ [f]" using assms(3) by (simp add: history_def sample_command_def filter_id_conv)
  have n: "newest (hs @ [f]) = Some f"
    using newest_greatest [of hs] assms(4) by (auto simp: newest_def [of "hs @ [f]"] newest_def [of hs, symmetric] split: option.split)
  have "wl_read text_lib (ws_rows s) (wc_TenantID ?c) (wc_RecommendationID ?c) = Some f" unfolding assms(2) by (simp add: text_lib_def h n)
  then have "ws_rows (fst ?r) = hs @ [f, f\<lparr> rf_Status := st, rf_Version := of_int now \<rparr>]"
    using ApplyCommand_accepts [OF text_lib_ok(2), of s ?c f "quiet_env [] []"] assms(2,5) by (simp add: sample_command_def quiet_env_def)
  moreover have "wreach text_lib (fst ?r)"
    by (rule wr_command [OF assms(1), of ?c "quiet_env [] []" "fst ?r" "snd ?r"]) (use assms(2,3) in \<open>simp_all add: sample_command_def\<close>)
  ultimately show ?thesis by blast
qed

lemma sample_run:
  assumes "transitionAllowed ''open'' st" shows "\<exists>s. wreach text_lib s \<and> ws_rows s = [sample_fact 1, (sample_fact 1)\<lparr> rf_Status := st, rf_Version := 2 \<rparr>]"
proof -
  obtain s where s: "wreach text_lib s" "ws_rows s = [] @ [sample_fact 1]" using sample_saved by auto
  show ?thesis using sample_step [OF s, of 2 st] assms by (simp add: sample_fact_fields)
qed


text \<open>C40: Storing a recommendation again undoes a decision.  The engine derives the identifier from the target and the analysis window and the version from
  the clock, and stores the status open: whatever was decided about a recommendation, when the engine runs again for the same window, as it does
  when it is restarted within the hour, the table shows the recommendation as open, and it can be approved once more.\<close>

theorem resave_reopens:
  assumes "reads_final L" "decimals_ok L" "wreach L s" "f \<in> set (history (ws_rows s) (re_TenantID r) (recommendationID uuid5 r))"
    and "sorting_key f = sorting_key (recommendationFact uuid5 newFromFloat now r)" "\<forall>g \<in> set (ws_rows s). rf_Version g < of_int now"
  shows "wl_read L (ws_rows s @ recommendationFacts uuid5 newFromFloat [r] now) (re_TenantID r) (recommendationID uuid5 r)
      = Some (recommendationFact uuid5 newFromFloat now r) \<and>
    rf_Status (recommendationFact uuid5 newFromFloat now r) = ''open'' \<and>
    transitionAllowed (rf_Status (recommendationFact uuid5 newFromFloat now r)) ''approved''"
proof -
  let ?g = "recommendationFact uuid5 newFromFloat now r" and ?t = "re_TenantID r" and ?k = "recommendationID uuid5 r"
  let ?h = "history (ws_rows s) ?t ?k"
  have g: "rf_Status ?g = ''open''" "rf_Version ?g = of_int now" "matches ?t ?k ?g" by (simp_all add: recommendationFact_def matches_def)
  have all: "history (ws_rows s @ recommendationFacts uuid5 newFromFloat [r] now) ?t ?k = ?h @ [?g]"
    using g(3) by (simp add: history_append recommendationFacts_def) (simp add: history_def)
  have keys: "sorting_key a = sorting_key ?g" if "a \<in> set ?h" for a
  proof -
    have "successively follows ?h" using wreach_inv [OF assms(3,1,2)] by (simp add: wf_inv_def history_ok_def)
    then show ?thesis using history_keys that assms(4,5) by metis
  qed
  obtain a where a: "wl_read L (ws_rows s @ recommendationFacts uuid5 newFromFloat [r] now) ?t ?k = Some a" "a \<in> set (?h @ [?g])"
    "\<forall>b \<in> set (?h @ [?g]). sorting_key b = sorting_key a \<longrightarrow> rf_Version b \<le> rf_Version a"
    using assms(1) [unfolded reads_final_def, rule_format, of "ws_rows s @ recommendationFacts uuid5 newFromFloat [r] now" ?t ?k, unfolded all]
    by (cases "wl_read L (ws_rows s @ recommendationFacts uuid5 newFromFloat [r] now) ?t ?k") simp_all
  have "a = ?g"
  proof (rule ccontr)
    assume "a \<noteq> ?g"
    then have m: "a \<in> set ?h" using a(2) by simp
    then have "rf_Version a < rf_Version ?g" using assms(6) g(2) by (simp add: history_def)
    moreover have "rf_Version ?g \<le> rf_Version a" using a(3) keys [OF m] by simp
    ultimately show False by simp
  qed
  then show ?thesis using a(1) g(1) by (simp add: transitionAllowed_def)
qed

theorem resave_reopens_witness:
  "\<exists>s. wreach text_lib s \<and> map rf_Status (ws_rows s) = [''open'', ''rejected''] \<and>
     (\<exists>f. wl_read text_lib (ws_rows s @ [sample_fact 3]) (re_TenantID sample_recommendation) (recommendationID id sample_recommendation) = Some f \<and> rf_Status f = ''open'')"
proof -
  let ?f = "sample_fact 1" let ?g = "?f\<lparr> rf_Status := ''rejected'', rf_Version := 2 \<rparr>"
  obtain s where s: "wreach text_lib s" "ws_rows s = [?f, ?g]" using sample_run [of "''rejected''"] by (auto simp: transitionAllowed_def)
  have i: "rf_TenantID ?f = re_TenantID sample_recommendation" "rf_RecommendationID ?f = recommendationID id sample_recommendation"
    by (simp_all add: sample_fact_def recommendationFact_def)
  have f: "?f \<in> set (history (ws_rows s) (re_TenantID sample_recommendation) (recommendationID id sample_recommendation))"
    unfolding s(2) by (simp add: history_def matches_def i)
  have e: "recommendationFact id (\<lambda>_. ''730'') 3 sample_recommendation = sample_fact 3" by (rule sample_fact_def [symmetric])
  have k: "sorting_key ?f = sorting_key (recommendationFact id (\<lambda>_. ''730'') 3 sample_recommendation)"
    unfolding e by (rule sample_fact_fields(4) [symmetric])
  have v: "\<forall>g \<in> set (ws_rows s). rf_Version g < of_int 3" unfolding s(2) by (simp add: sample_fact_fields)
  have fs: "recommendationFacts id (\<lambda>_. ''730'') [sample_recommendation] 3 = [sample_fact 3]" unfolding recommendationFacts_def list.map e ..
  note r = resave_reopens [OF text_lib_ok s(1) f k v, unfolded fs e]
  have "map rf_Status (ws_rows s) = [''open'', ''rejected'']" unfolding s(2) by (simp add: sample_fact_fields)
  then show ?thesis using s(1) r by (intro exI [of _ s] conjI exI [of _ "sample_fact 3"]) simp_all
qed

end
