(* ===== verification/Spec2Isabelle.thy ===== *)
theory Spec2Isabelle
  imports Ingestion_System Agent_Client Agent_Inventory Query_Jobs Recommendations Allocation Export Workflow
begin

text \<open>
  Verification library of kube-cost, a Kubernetes cost-observability platform in Go.

  \<^bold>\<open>The program.\<close>  A cluster agent (\<^verbatim>\<open>agent/\<close>) collects inventory, numbers each observation, buffers it and streams batches over one
  bidirectional connection to the ingestion service (\<^verbatim>\<open>services/ingestion/\<close>).  That service authenticates the agent, validates and
  sequences its batches, puts them into a bounded queue from which a worker persists them to ClickHouse, and acknowledges what was
  persisted; a checkpoint file keeps the acknowledged watermark of each cluster.  The other services read what was persisted
  (query, allocation, recommendations) or keep records of their own (workflow, export, policy, audit, tenant, cluster registry,
  integrations, pricing); clients reach them through the API gateway, which authenticates and signs their requests.

  \<^bold>\<open>Conventions.\<close>  Strings are byte strings; \<^verbatim>\<open>uint64\<close>, \<^verbatim>\<open>uint32\<close> and \<^verbatim>\<open>int64\<close> are words, \<^verbatim>\<open>int\<close> and times (nanoseconds since
  the epoch) are integers, \<^verbatim>\<open>float64\<close> is the rational it denotes with every operation rounded.  A nil pointer is \<^const>\<open>None\<close>.
  Errors are values, their texts included; panics are values too.  An operation that runs under a mutex is one step, and
  concurrent programs are step relations whose steps are the atomic parts of the handlers.  What the environment decides
  (I/O results, clocks, random identifiers, the order of a Go map) is an argument, as is third-party code: protobuf encodings,
  Kubernetes objects, the ClickHouse connection, \<^verbatim>\<open>uuid\<close> and \<^verbatim>\<open>decimal\<close>.  What is relied on of these is a named hypothesis, and
  each property that has one has a witness with a concrete instance.

  \<^bold>\<open>Foundations.\<close>
  \<^item> \<^verbatim>\<open>Prelude\<close>: shared types, string functions, lists and maps.
  \<^item> \<^verbatim>\<open>Go_Crypto\<close>, \<^verbatim>\<open>Go_Path\<close>, \<^verbatim>\<open>Go_Http\<close>, \<^verbatim>\<open>Go_Json\<close>, \<^verbatim>\<open>Go_Time\<close>, \<^verbatim>\<open>Go_Float\<close>, \<^verbatim>\<open>Go_Sort\<close>: the parts of the standard library the sources call;
    among their lemmas are the round trips of hexadecimal, base64 and JSON and the error bounds of rounding (\<^verbatim>\<open>near\<close>).
  \<^item> \<^verbatim>\<open>Agent_Proto\<close>: the messages of \<^verbatim>\<open>proto/cost/v1\<close>.

  \<^bold>\<open>Agent.\<close>
  \<^item> \<^verbatim>\<open>Agent_Buffer\<close> (\<^verbatim>\<open>agent/transport/buffer.go\<close>, \<^verbatim>\<open>agent/inventory/event.go\<close>): the buffer under every interleaving of publishers and
    sender.  Observations are numbered consecutively and kept until acknowledged (C8), a batch is the longest run at the head (C9);
    the shared notification channel can lose a wake-up (C13).
  \<^item> \<^verbatim>\<open>Agent_Client\<close> (\<^verbatim>\<open>agent/transport/client.go\<close>): dialling, handshake, exchange and reconnection, coupled with the ingestion server.  Agent
    and server stay in step (C6), what the client builds the server accepts (C7); a terminal rejection blocks a cluster for
    good (C11), and a restarted agent drops observations (C12).
  \<^item> \<^verbatim>\<open>Agent_Builders\<close>, \<^verbatim>\<open>Agent_Inventory\<close> (\<^verbatim>\<open>agent/inventory/\<close>): every builder, the cache, the collector with its work queue.  The published events
    replay to the collector's cache, whatever fails and is retried (C10); processing a change again publishes nothing.

  \<^bold>\<open>Ingestion.\<close>
  \<^item> \<^verbatim>\<open>Ingestion_Queue\<close> (\<^verbatim>\<open>queue/queue.go\<close>): queue and leases.  The locale \<^verbatim>\<open>lease_queue\<close> is the contract of the queue, interpreted on its operations;
    batches are conserved (C17), notified exactly once (C18), within the capacity (C19), and no wake-up is lost (C20).
  \<^item> \<^verbatim>\<open>Ingestion_Files\<close>, \<^verbatim>\<open>Ingestion_Auth\<close> (\<^verbatim>\<open>server/checkpoint.go\<close>, \<^verbatim>\<open>archive.go\<close>, \<^verbatim>\<open>auth.go\<close>): checkpoint and archive files and authentication.  Saving is
    atomic (C25) though sanitised paths can collide (C26), identities survive their URI (C27), and mTLS binds them (C28).  The locales
    \<^verbatim>\<open>checkpoint_safe\<close> and \<^verbatim>\<open>checkpoint_durable\<close> state what the server relies on.
  \<^item> \<^verbatim>\<open>Ingestion_Server\<close> (\<^verbatim>\<open>server/server.go\<close>, \<^verbatim>\<open>options.go\<close>): handshake, validation, batch handler (C14, C15, C16).
  \<^item> \<^verbatim>\<open>Ingestion_Persistence\<close> (\<^verbatim>\<open>persistence/\<close>): rows, grouping, inserts and the worker with its backoff (C21, C22, C23, C24).
  \<^item> \<^verbatim>\<open>Ingestion_System\<close>: the whole service with any number of streams, failures and crashes.  Acknowledged batches are durable (C1), resumption is
    sound (C2), one session serves a cluster (C3), nothing panics (C4), and a valid batch can always be driven to its
    acknowledgement (C5).

  \<^bold>\<open>Services.\<close>
  \<^item> \<^verbatim>\<open>Gateway\<close> (\<^verbatim>\<open>services/gateway/\<close>, \<^verbatim>\<open>internal/gatewayauth/\<close>, \<^verbatim>\<open>services/identity/\<close>): tokens, headers, signatures and the reverse proxy (C29, C30, C31).
  \<^item> \<^verbatim>\<open>Query_Sql\<close>, \<^verbatim>\<open>Query_Service\<close>, \<^verbatim>\<open>Query_Json\<close>, \<^verbatim>\<open>Job_Store\<close>, \<^verbatim>\<open>Query_Jobs\<close> (\<^verbatim>\<open>services/query/\<close>): statements, which keep client values out of their
    text (C32), handlers with cursors that enumerate a result exactly once (C33, through the locale \<^verbatim>\<open>paged_endpoint\<close>), result
    encodings, and asynchronous jobs in a bounded store (C34).
  \<^item> \<^verbatim>\<open>Export\<close> (\<^verbatim>\<open>services/export/\<close>): exports; its store interprets the same locale \<^verbatim>\<open>bounded_store\<close> as the store of query jobs.
  \<^item> \<^verbatim>\<open>Recommendations\<close> (\<^verbatim>\<open>services/recommendations/\<close>): the engine, whose requests cover the usage (C35) and whose floating-point percentile is the exact
    order statistic (C36), and the facts it stores, which fit the table of the migration (C37).
  \<^item> \<^verbatim>\<open>Workflow\<close> (\<^verbatim>\<open>services/workflow/\<close>): commands on the stored recommendations.  Only what was approved is executed (C39); the engine storing a
    recommendation again undoes a decision (C40).
  \<^item> \<^verbatim>\<open>Allocation\<close> (\<^verbatim>\<open>services/allocation/\<close>): the division of node and control-plane cost, which conserves it (C38), the statement that does it in
    the database, and the endpoints.

  \<^bold>\<open>Bounds.\<close>  Loops of the sources are structural recursion or have a termination proof; the worker's loop runs on a number of turns, and
  C24 says how many empty the queue.  JSON nesting is limited to 10000 levels as in \<^verbatim>\<open>encoding/json\<close>.  C35 and C36 are for at most
  \<^verbatim>\<open>2^40\<close> samples, for which the float index of a percentile is exact; C35 bounds headroom factors by 1024 and percentiles by
  \<^verbatim>\<open>2^50\<close>, far beyond the quantities of a cluster; C38 bounds sums of requests and node capacities by \<^verbatim>\<open>2^53\<close>, below which \<^verbatim>\<open>float64\<close> holds
  integers exactly.

  \<^bold>\<open>Not modelled.\<close>  The policy, tenant, audit and cluster-registry services are in-memory maps behind handlers of the kind modelled for
  query jobs and exports.  Integrations read Kubernetes and Karpenter objects through dynamic clients, whose semantics is third-party.
  Pricing validates and stores decimals, which rest on a library.  The metrics sampler reads the kubelet over HTTP.  Mains, flags,
  environment variables that are floats (\<^verbatim>\<open>strconv.ParseFloat\<close>), the opening of connections and listeners, operators and developer
  tools are I/O glue.  The meaning of SQL texts is the database's: their texts and arguments are modelled, not their evaluation.
  NaN, infinities and subnormal floats are outside the float model.
\<close>

end
